(* ===== verification/Prelude.thy ===== *)
theory Prelude
  imports Main "HOL-Library.Monad_Syntax" "HOL-Library.Word"
begin

text \<open>
  What every component shares: the theorem collections the component proofs draw on,
  the panic monad's simplification facts, and generic lemmas on lists and Go maps.

  A Go function that may panic (a nil dereference, a failed type assertion) is a HOL
  function into \<open>option\<close>: \<open>None\<close> is the panic, \<open>Some\<close> carries the results. Go's
  \<open>error\<close> results are values inside \<open>Some\<close>, since the code goes on after them.
  A Go \<open>map[string]string\<close> is a partial function; a possibly nil map is an \<open>option\<close>
  of one.
\<close>

named_theorems go_run \<open>unfolding rules that execute a step of the model\<close>
named_theorems frame_rules \<open>what an operation leaves unchanged\<close>

type_synonym go_map = "string \<rightharpoonup> string"
type_synonym bytes = string
type_synonym int32 = "32 word"

subsection \<open>The panic monad\<close>

lemma bind_pair_Some [simp]:
  "(do { (x, s) \<leftarrow> m; f x s }) = Some r \<longleftrightarrow> (\<exists>x s. m = Some (x, s) \<and> f x s = Some r)"
  by (auto simp: bind_eq_Some_conv)

subsection \<open>Go maps\<close>

text \<open>Reading a key of a map that may be nil gives the zero value when it is absent.\<close>

definition map_get :: "go_map option \<Rightarrow> string \<Rightarrow> string" where
  "map_get m k = (case m of None \<Rightarrow> '''' | Some f \<Rightarrow> (case f k of None \<Rightarrow> '''' | Some v \<Rightarrow> v))"

lemma map_get_simps [simp]:
  "map_get None k = ''''"
  "map_get (Some f) k = (case f k of None \<Rightarrow> '''' | Some v \<Rightarrow> v)"
  by (simp_all add: map_get_def)

lemma map_of_distinct_swap:
  "k \<noteq> l \<Longrightarrow> m(k \<mapsto> a, l \<mapsto> b) = m(l \<mapsto> b, k \<mapsto> a)"
  by (simp add: fun_upd_twist)

subsection \<open>Lists\<close>

lemma list_all_concat_map:
  "list_all P (concat (map f xs)) \<longleftrightarrow> (\<forall>x \<in> set xs. list_all P (f x))"
  by (auto simp: list_all_iff)

lemma filter_eq_self_iff: "filter P xs = xs \<longleftrightarrow> list_all P xs"
  by (auto simp: filter_id_conv list_all_iff)

lemma append_suffix_subset: "xs = ys @ zs \<Longrightarrow> set zs \<subseteq> set xs"
  by simp

end
