(* ===== verification/Go_Errors.thy ===== *)
theory Go_Errors
  imports Prelude
begin

text \<open>
  Go's \<open>error\<close> values as the repository uses them: errors of the Kubernetes API (with the
  answer \<open>apierrors.IsNotFound\<close> gives on them), package-level error variables (compared
  by identity, hence named), fresh \<open>errors.New\<close> values, \<open>fmt.Errorf\<close> values with the
  errors their \<open>%w\<close> verbs wrap, and \<open>errors.Join\<close>. A nil error is \<open>None\<close>.
\<close>

datatype error =
    ApiError bool string          \<comment> \<open>not-found flag, text\<close>
  | ErrorVar string string        \<comment> \<open>variable name, text\<close>
  | ErrorNew string
  | Errorf string "error list"    \<comment> \<open>formatted text, wrapped errors\<close>
  | Joined "error list"

text \<open>\<open>strings.Join(texts, sep)\<close>\<close>

fun join_with :: "string \<Rightarrow> string list \<Rightarrow> string" where
  "join_with sep [] = ''''"
| "join_with sep [x] = x"
| "join_with sep (x # y # ys) = x @ sep @ join_with sep (y # ys)"

text \<open>\<open>err.Error()\<close>\<close>

fun error_text :: "error \<Rightarrow> string" where
  "error_text (ApiError _ t) = t"
| "error_text (ErrorVar _ t) = t"
| "error_text (ErrorNew t) = t"
| "error_text (Errorf t _) = t"
| "error_text (Joined es) = join_with [CHR 0x0A] (map error_text es)"

text \<open>\<open>errors.Is(err, target)\<close> for a package-level target: the error itself or one it wraps.\<close>

fun errors_is :: "error \<Rightarrow> error \<Rightarrow> bool" where
  "errors_is (Errorf t es) target = (Errorf t es = target \<or> (\<exists>e \<in> set es. errors_is e target))"
| "errors_is (Joined es) target = (Joined es = target \<or> (\<exists>e \<in> set es. errors_is e target))"
| "errors_is e target = (e = target)"

text \<open>\<open>errors.Join(errs...)\<close> of non-nil errors: nil when there is none.\<close>

definition errors_join :: "error list \<Rightarrow> error option" where
  "errors_join es = (if es = [] then None else Some (Joined es))"

lemma errors_join_None [simp]: "errors_join es = None \<longleftrightarrow> es = []"
  by (simp add: errors_join_def)

lemma errors_join_Nil [simp]: "errors_join [] = None"
  by (simp add: errors_join_def)

text \<open>\<open>apierrors.IsNotFound(err)\<close> and \<open>client.IgnoreNotFound(err)\<close> on an API call's error.\<close>

fun is_not_found :: "error option \<Rightarrow> bool" where
  "is_not_found (Some (ApiError nf _)) = nf"
| "is_not_found _ = False"

definition ignore_not_found :: "error option \<Rightarrow> error option" where
  "ignore_not_found e = (if is_not_found e then None else e)"

lemma is_not_found_None [simp]: "\<not> is_not_found None"
  by simp

lemma ignore_not_found_None_iff: "ignore_not_found e = None \<longleftrightarrow> e = None \<or> is_not_found e"
  by (auto simp: ignore_not_found_def)

lemma errors_is_refl: "errors_is e e"
  by (cases e) auto

end
