(* ===== verification/Go_Time.thy ===== *)
theory Go_Time
  imports Go_Strings
begin

text \<open>
  Go's \<open>time\<close> package as far as the token annotation needs it: a \<open>time.Time\<close> is an instant
  in nanoseconds since the Unix epoch together with the offset of its location in seconds
  east of UTC; a \<open>time.Duration\<close> counts nanoseconds. \<open>Format(time.RFC3339)\<close> and
  \<open>Parse(time.RFC3339, s)\<close> follow the layout \<open>2006-01-02T15:04:05Z07:00\<close> chunk by chunk,
  with the leniencies of Go's parser (a one-digit hour, a fraction introduced by a full stop
  or a comma, offsets up to 24:60). Instants are unbounded integers: the 64-bit seconds of
  Go do not wrap for any time this program meets.
\<close>

record gotime =
  t_ns :: int      \<comment> \<open>nanoseconds since 1970-01-01T00:00:00Z\<close>
  t_zone :: int    \<comment> \<open>seconds east of UTC of the location\<close>

type_synonym duration = int

definition nanosecond :: duration where "nanosecond = 1"
definition second :: duration where "second = 1000000000"
definition minute :: duration where "minute = 60000000000"
definition hour :: duration where "hour = 3600000000000"

definition time_add :: "gotime \<Rightarrow> duration \<Rightarrow> gotime" where
  "time_add t d = t\<lparr>t_ns := t_ns t + d\<rparr>"

definition time_before :: "gotime \<Rightarrow> gotime \<Rightarrow> bool" where
  "time_before t u = (t_ns t < t_ns u)"

text \<open>The zero time is the first instant of year 1; \<open>IsZero\<close> on a nil \<open>*metav1.Time\<close> is true.\<close>

definition time_is_zero :: "gotime option \<Rightarrow> bool" where
  "time_is_zero t = (case t of None \<Rightarrow> True | Some u \<Rightarrow> t_ns u = -62135596800000000000)"

lemma time_is_zero_None [simp]: "time_is_zero None"
  by (simp add: time_is_zero_def)

subsection \<open>The Gregorian calendar\<close>

definition is_leap :: "int \<Rightarrow> bool" where
  "is_leap y = (y mod 4 = 0 \<and> (y mod 100 \<noteq> 0 \<or> y mod 400 = 0))"

definition days_in :: "int \<Rightarrow> int \<Rightarrow> int" where
  "days_in m y =
     (if m = 2 then (if is_leap y then 29 else 28)
      else if m = 4 \<or> m = 6 \<or> m = 9 \<or> m = 11 then 30 else 31)"

text \<open>Days from the first of January of year 1 to the first of January of year \<open>y\<close>.\<close>

definition days_before_year :: "int \<Rightarrow> int" where
  "days_before_year y = (let p = y - 1 in 365 * p + p div 4 - p div 100 + p div 400)"

text \<open>Days before the first of month \<open>m\<close> within year \<open>y\<close>.\<close>

definition days_before_month :: "int \<Rightarrow> int \<Rightarrow> int" where
  "days_before_month m y =
     (if m \<le> 1 then 0 else if m = 2 then 31 else
      (if m = 3 then 59 else if m = 4 then 90 else if m = 5 then 120 else if m = 6 then 151
       else if m = 7 then 181 else if m = 8 then 212 else if m = 9 then 243 else if m = 10 then 273
       else if m = 11 then 304 else 334) + (if is_leap y then 1 else 0))"

text \<open>719162 days separate the first day of year 1 from the Unix epoch.\<close>

definition days_from_civil :: "int \<Rightarrow> int \<Rightarrow> int \<Rightarrow> int" where
  "days_from_civil y m d = days_before_year y + days_before_month m y + (d - 1) - 719162"

text \<open>The year and day of year of a day number, by cycles of 400, 100, 4 and 1 years.\<close>

definition year_and_yday :: "int \<Rightarrow> int \<times> int" where
  "year_and_yday day =
     (let d = day + 719162;
          n400 = d div 146097; d1 = d - 146097 * n400;
          n100 = d1 div 36524 - (d1 div 36524) div 4; d2 = d1 - 36524 * n100;
          n4 = d2 div 1461; d3 = d2 - 1461 * n4;
          n1 = d3 div 365 - (d3 div 365) div 4; d4 = d3 - 365 * n1
      in (400 * n400 + 100 * n100 + 4 * n4 + n1 + 1, d4))"

definition month_of_yday :: "int \<Rightarrow> int \<Rightarrow> int" where
  "month_of_yday y yd =
     (if yd < days_before_month 2 y then 1 else if yd < days_before_month 3 y then 2
      else if yd < days_before_month 4 y then 3 else if yd < days_before_month 5 y then 4
      else if yd < days_before_month 6 y then 5 else if yd < days_before_month 7 y then 6
      else if yd < days_before_month 8 y then 7 else if yd < days_before_month 9 y then 8
      else if yd < days_before_month 10 y then 9 else if yd < days_before_month 11 y then 10
      else if yd < days_before_month 12 y then 11 else 12)"

definition civil_from_days :: "int \<Rightarrow> int \<times> int \<times> int" where
  "civil_from_days day =
     (let (y, yd) = year_and_yday day; m = month_of_yday y yd
      in (y, m, yd - days_before_month m y + 1))"

subsection \<open>Formatting\<close>

text \<open>Zero-padded decimal of a given minimal width, with a sign in front when negative.\<close>

definition pad_int :: "nat \<Rightarrow> int \<Rightarrow> string" where
  "pad_int w n =
     (let ds = nat_digits (nat \<bar>n\<bar>)
      in (if n < 0 then ''-'' else '''') @ replicate (w - length ds) (CHR ''0'') @ ds)"

definition format_zone :: "int \<Rightarrow> string" where
  "format_zone z =
     (if z = 0 then ''Z''
      else let m = \<bar>z\<bar> div 60
           in (if z < 0 \<and> m \<noteq> 0 then ''-'' else ''+'')
              @ pad_int 2 (m div 60) @ '':'' @ pad_int 2 (m mod 60))"

definition time_format_rfc3339 :: "gotime \<Rightarrow> string" where
  "time_format_rfc3339 t =
     (let local = t_ns t div second + t_zone t;
          (y, m, d) = civil_from_days (local div 86400);
          sod = local mod 86400
      in pad_int 4 y @ ''-'' @ pad_int 2 m @ ''-'' @ pad_int 2 d @ ''T''
         @ pad_int 2 (sod div 3600) @ '':'' @ pad_int 2 (sod div 60 mod 60) @ '':''
         @ pad_int 2 (sod mod 60) @ format_zone (t_zone t))"

subsection \<open>Parsing\<close>

definition is_digit :: "char \<Rightarrow> bool" where
  "is_digit c = (48 \<le> (of_char c :: nat) \<and> (of_char c :: nat) \<le> 57)"

definition digit_val :: "char \<Rightarrow> int" where
  "digit_val c = of_char c - 48"

fun parse_year :: "string \<Rightarrow> (int \<times> string) option" where
  "parse_year (a # b # c # d # s) =
     (if is_digit a \<and> is_digit b \<and> is_digit c \<and> is_digit d
      then Some (1000 * digit_val a + 100 * digit_val b + 10 * digit_val c + digit_val d, s)
      else None)"
| "parse_year _ = None"

text \<open>\<open>getnum(s, true)\<close> and \<open>getnum(s, false)\<close>\<close>

fun getnum_fixed :: "string \<Rightarrow> (int \<times> string) option" where
  "getnum_fixed (a # b # s) =
     (if is_digit a \<and> is_digit b then Some (10 * digit_val a + digit_val b, s) else None)"
| "getnum_fixed _ = None"

fun getnum_lax :: "string \<Rightarrow> (int \<times> string) option" where
  "getnum_lax (a # b # s) =
     (if \<not> is_digit a then None
      else if is_digit b then Some (10 * digit_val a + digit_val b, s)
      else Some (digit_val a, b # s))"
| "getnum_lax [a] = (if is_digit a then Some (digit_val a, []) else None)"
| "getnum_lax [] = None"

fun skip_char :: "char \<Rightarrow> string \<Rightarrow> string option" where
  "skip_char c (x # s) = (if x = c then Some s else None)"
| "skip_char c [] = None"

text \<open>The nanoseconds of a fraction: at most nine digits count, missing ones are zeros.\<close>

fun fraction_ns :: "nat \<Rightarrow> string \<Rightarrow> int" where
  "fraction_ns 0 _ = 0"
| "fraction_ns (Suc n) [] = 0"
| "fraction_ns (Suc n) (c # s) = digit_val c * 10 ^ n + fraction_ns n s"

definition parse_fraction :: "string \<Rightarrow> int \<times> string" where
  "parse_fraction s =
     (case s of
        c # d # r \<Rightarrow>
          (if (c = CHR ''.'' \<or> c = CHR '','') \<and> is_digit d
           then (fraction_ns 9 (takeWhile is_digit (d # r)), dropWhile is_digit (d # r))
           else (0, s))
      | _ \<Rightarrow> (0, s))"

fun parse_zone :: "string \<Rightarrow> (int \<times> string) option" where
  "parse_zone (sg # h1 # h2 # c # m1 # m2 # r) =
     (if sg = CHR ''Z'' then Some (0, h1 # h2 # c # m1 # m2 # r)
      else if c \<noteq> CHR '':'' then None
      else do {
        (hh, _) \<leftarrow> getnum_fixed [h1, h2];
        (mm, _) \<leftarrow> getnum_fixed [m1, m2];
        if hh > 24 \<or> mm > 60 then None
        else if sg = CHR ''+'' then Some ((hh * 60 + mm) * 60, r)
        else if sg = CHR ''-'' then Some (- ((hh * 60 + mm) * 60), r)
        else None })"
| "parse_zone (sg # r) = (if sg = CHR ''Z'' then Some (0, r) else None)"
| "parse_zone [] = None"

text \<open>The fields of the layout before the zone: year, month, day, hour, minute, second.\<close>

definition parse_fields :: "string \<Rightarrow> ((int \<times> int \<times> int \<times> int \<times> int \<times> int) \<times> string) option" where
  "parse_fields s0 = do {
     (y, s1) \<leftarrow> parse_year s0;
     s2 \<leftarrow> skip_char (CHR ''-'') s1;
     (mo, s3) \<leftarrow> getnum_fixed s2;
     s4 \<leftarrow> (if 1 \<le> mo \<and> mo \<le> 12 then skip_char (CHR ''-'') s3 else None);
     (d, s5) \<leftarrow> getnum_fixed s4;
     s6 \<leftarrow> skip_char (CHR ''T'') s5;
     (h, s7) \<leftarrow> getnum_lax s6;
     s8 \<leftarrow> (if h < 24 then skip_char (CHR '':'') s7 else None);
     (mi, s9) \<leftarrow> getnum_fixed s8;
     s10 \<leftarrow> (if mi < 60 then skip_char (CHR '':'') s9 else None);
     (sec, s11) \<leftarrow> getnum_fixed s10;
     (if sec < 60 then Some ((y, mo, d, h, mi, sec), s11) else None) }"

definition time_parse_rfc3339 :: "string \<Rightarrow> gotime option" where
  "time_parse_rfc3339 s = do {
     ((y, mo, d, h, mi, sec), r) \<leftarrow> parse_fields s;
     (let (ns, r1) = parse_fraction r in do {
        (z, r2) \<leftarrow> parse_zone r1;
        (if r2 \<noteq> [] \<or> d < 1 \<or> d > days_in mo y then None
         else Some \<lparr>t_ns = (days_from_civil y mo d * 86400 + h * 3600 + mi * 60 + sec - z) * second + ns,
                    t_zone = z\<rparr>) }) }"

subsection \<open>The calendar is inverted\<close>

lemma cycle_of_four:
  fixes x k :: int
  assumes "0 \<le> x" "x < 4 * k + 1" "0 < k"
  defines "n \<equiv> x div k - (x div k) div 4"
  shows "0 \<le> n" "n \<le> 3" "0 \<le> x - k * n" "x - k * n \<le> k" "x - k * n = k \<Longrightarrow> n = 3 \<and> x = 4 * k"
proof -
  define q where "q = x div k"
  have q: "k * q \<le> x" "x < k * q + k"
    using pos_mod_sign[OF assms(3), of x] pos_mod_bound[OF assms(3), of x] mult_div_mod_eq[of k x]
    unfolding q_def by linarith+
  have "x \<le> k * 4" using assms(2) by simp
  then have "k * q \<le> k * 4" using q(1) by linarith
  then have le: "q \<le> 4" using assms(3) by (simp add: mult_le_cancel_left)
  have ge: "0 \<le> q" using assms(1,3) by (simp add: q_def pos_imp_zdiv_nonneg_iff)
  have "q = 0 \<or> q = 1 \<or> q = 2 \<or> q = 3 \<or> q = 4" using le ge by auto
  then have n: "n = (if q = 4 then 3 else q)" by (auto simp: n_def q_def)
  show "0 \<le> n" "n \<le> 3" using n le ge by auto
  show "0 \<le> x - k * n" "x - k * n \<le> k" "x - k * n = k \<Longrightarrow> n = 3 \<and> x = 4 * k"
    using n q assms(2,3) by (auto split: if_splits)
qed

lemma year_and_yday_correct:
  assumes "year_and_yday day = (y, yd)"
  shows "days_before_year y + yd = day + 719162"
    and "0 \<le> yd" and "yd < 365 + (if is_leap y then 1 else 0)"
proof -
  define d n400 where "d = day + 719162" and "n400 = d div 146097"
  define d1 where "d1 = d - 146097 * n400"
  define n100 d2 where "n100 = d1 div 36524 - (d1 div 36524) div 4" and "d2 = d1 - 36524 * n100"
  define n4 d3 where "n4 = d2 div 1461" and "d3 = d2 - 1461 * n4"
  define n1 d4 where "n1 = d3 div 365 - (d3 div 365) div 4" and "d4 = d3 - 365 * n1"
  have y: "y = 400 * n400 + 100 * n100 + 4 * n4 + n1 + 1" and yd: "yd = d4"
    using assms unfolding year_and_yday_def Let_def d4_def n1_def d3_def n4_def d2_def n100_def
      d1_def n400_def d_def by (simp_all only: prod.inject)
  have d1: "0 \<le> d1" "d1 < 4 * 36524 + 1"
    unfolding d1_def n400_def by (simp_all add: minus_mult_div_eq_mod)
  note c100 = cycle_of_four[OF d1 zero_less_numeral, folded n100_def, folded d2_def]
  have d3: "0 \<le> d3" "d3 < 4 * 365 + 1"
    unfolding d3_def n4_def by (simp_all add: minus_mult_div_eq_mod)
  note c1 = cycle_of_four[OF d3 zero_less_numeral, folded n1_def, folded d4_def]
  have n4: "0 \<le> n4" "n4 \<le> 24"
    using c100 by (simp_all add: n4_def pos_imp_zdiv_nonneg_iff)
  have p: "(y - 1) div 4 = 100 * n400 + 25 * n100 + n4"
    using y c1 by (intro int_div_pos_eq[where r = n1]) auto
  have q: "(y - 1) div 100 = 4 * n400 + n100"
    using y c1 n4 by (intro int_div_pos_eq[where r = "4 * n4 + n1"]) auto
  have r: "(y - 1) div 400 = n400"
    using y c1 n4 c100 by (intro int_div_pos_eq[where r = "100 * n100 + 4 * n4 + n1"]) auto
  have "days_before_year y = 365 * (y - 1) + (100 * n400 + 25 * n100 + n4) - (4 * n400 + n100) + n400"
    by (simp only: days_before_year_def Let_def p q r)
  moreover have "d4 = d - 146097 * n400 - 36524 * n100 - 1461 * n4 - 365 * n1"
    by (simp only: d4_def d3_def d2_def d1_def)
  ultimately show "days_before_year y + yd = day + 719162"
    unfolding yd d_def y by (simp add: algebra_simps)
  show "0 \<le> yd" using yd c1 by simp
  have "is_leap y" if "d4 = 365"
  proof -
    from c1 that have n1: "n1 = 3" and d3': "d3 = 1460" by auto
    have y4: "y = 4 * (100 * n400 + 25 * n100 + n4 + 1)" using y n1 by simp
    show ?thesis
    proof (cases "n4 = 24")
      case True
      then have "d2 = 36524" using d3' d3_def c100 by simp
      then have "y = 400 * (n400 + 1)" using y n1 True c100 by simp
      then show ?thesis by (simp add: is_leap_def)
    next
      case False
      then have "y mod 100 = 4 * (n4 + 1)"
        using y n1 n4 by (intro int_mod_pos_eq[where q = "4 * n400 + n100"]) auto
      with y4 n4 show ?thesis by (simp add: is_leap_def)
    qed
  qed
  then show "yd < 365 + (if is_leap y then 1 else 0)" using yd c1 by force
qed

lemma month_of_yday_correct:
  assumes "0 \<le> yd" "yd < 365 + (if is_leap y then 1 else 0)"
  shows "1 \<le> month_of_yday y yd \<and> month_of_yday y yd \<le> 12
    \<and> 1 \<le> yd - days_before_month (month_of_yday y yd) y + 1
    \<and> yd - days_before_month (month_of_yday y yd) y + 1 \<le> days_in (month_of_yday y yd) y"
  using assms
  by (cases "is_leap y") (simp_all add: month_of_yday_def days_before_month_def days_in_def)

lemma civil_from_days_correct:
  assumes "civil_from_days day = (y, m, d)"
  shows "days_from_civil y m d = day" "1 \<le> m" "m \<le> 12" "1 \<le> d" "d \<le> days_in m y"
proof -
  obtain y' yd where yyd: "year_and_yday day = (y', yd)" by force
  with assms have eqs: "y' = y" "m = month_of_yday y yd" "d = yd - days_before_month m y + 1"
    by (auto simp: civil_from_days_def Let_def)
  note yc = year_and_yday_correct[OF yyd[unfolded eqs(1)]]
  note mc = month_of_yday_correct[OF yc(2,3)]
  show "days_from_civil y m d = day"
    using yc(1) eqs(3) by (simp add: days_from_civil_def)
  show "1 \<le> m" "m \<le> 12" "1 \<le> d" "d \<le> days_in m y"
    using mc unfolding eqs(3) by (simp_all add: eqs(2))
qed

subsection \<open>Parsing what was formatted\<close>

lemma of_char_digit_int [simp]: "n < 10 \<Longrightarrow> of_char (digit_char n) = (48 + int n)"
  by (metis of_char_digit of_nat_add of_nat_numeral of_nat_of_char)

lemma digit_char_parse [simp]:
  "n < 10 \<Longrightarrow> is_digit (digit_char n)"
  "n < 10 \<Longrightarrow> digit_val (digit_char n) = int n"
  by (simp_all add: is_digit_def digit_val_def)

lemma nat_digits_small: "n < 10 \<Longrightarrow> nat_digits n = [digit_char n]"
  by (simp add: nat_digits.simps)

lemma nat_digits_step: "10 \<le> n \<Longrightarrow> nat_digits n = nat_digits (n div 10) @ [digit_char (n mod 10)]"
  by (subst nat_digits.simps) simp

lemma digit_zero: "CHR ''0'' = digit_char 0"
  by (simp add: digit_char_def char_of_def bit_Suc_0_iff)

lemma pad_int_2:
  assumes "k < 100"
  shows "pad_int 2 (int k) = [digit_char (k div 10), digit_char (k mod 10)]"
  using assms
  by (cases "k < 10") (simp_all add: pad_int_def nat_digits_small nat_digits_step digit_zero)

lemma pad_int_4:
  assumes "k < 10000"
  shows "pad_int 4 (int k) = [digit_char (k div 1000), digit_char (k div 100 mod 10),
     digit_char (k div 10 mod 10), digit_char (k mod 10)]"
proof -
  consider "k < 10" | "10 \<le> k" "k < 100" | "100 \<le> k" "k < 1000" | "1000 \<le> k" by linarith
  then show ?thesis
  proof cases
    case 1
    then show ?thesis by (simp add: pad_int_def nat_digits_small digit_zero numeral_3_eq_3)
  next
    case 2
    then show ?thesis
      by (simp add: pad_int_def nat_digits_small nat_digits_step digit_zero numeral_2_eq_2)
  next
    case 3
    then have "10 \<le> k div 10" "k div 10 div 10 < 10" by auto
    with 3 show ?thesis
      by (simp add: pad_int_def nat_digits_small nat_digits_step digit_zero div_mult2_eq [symmetric])
  next
    case 4
    then have "10 \<le> k div 10" "10 \<le> k div 10 div 10" "k div 10 div 10 div 10 < 10"
      using assms by auto
    with 4 show ?thesis
      by (simp add: pad_int_def nat_digits_small nat_digits_step digit_zero div_mult2_eq [symmetric])
  qed
qed


lemma getnum_pad:
  assumes "0 \<le> n" "n < 100"
  shows "getnum_fixed (pad_int 2 n @ s) = Some (n, s)" "getnum_lax (pad_int 2 n @ s) = Some (n, s)"
proof -
  obtain k where k: "n = int k" using assms(1) zero_le_imp_eq_int by blast
  with assms have "k < 100" by simp
  moreover then have "k div 10 < 10" by simp
  moreover have "10 * int (k div 10) + int (k mod 10) = int k"
    by (metis mult_div_mod_eq of_nat_add of_nat_mult of_nat_numeral)
  ultimately show "getnum_fixed (pad_int 2 n @ s) = Some (n, s)"
    "getnum_lax (pad_int 2 n @ s) = Some (n, s)"
    by (simp_all add: k pad_int_2)
qed

lemma parse_year_pad:
  assumes "0 \<le> n" "n \<le> 9999"
  shows "parse_year (pad_int 4 n @ s) = Some (n, s)"
proof -
  obtain k where k: "n = int k" using assms(1) zero_le_imp_eq_int by blast
  with assms have "k < 10000" by simp
  moreover then have "k div 1000 < 10" by simp
  moreover have "k = 1000 * (k div 1000) + 100 * (k div 100 mod 10) + 10 * (k div 10 mod 10) + k mod 10"
  proof -
    define q r s where "q = k div 10" and "r = k div 100" and "s = k div 1000"
    have "10 * q + k mod 10 = k" "10 * r + q mod 10 = q" "10 * s + r mod 10 = r"
      using div_mult2_eq[of k 10 10] div_mult2_eq[of k 100 10] by (simp_all add: q_def r_def s_def)
    then show ?thesis unfolding q_def[symmetric] r_def[symmetric] s_def[symmetric] by linarith
  qed
  then have "1000 * int (k div 1000) + 100 * int (k div 100 mod 10) + 10 * int (k div 10 mod 10)
      + int (k mod 10) = int k"
    by linarith
  ultimately show ?thesis by (simp add: k pad_int_4)
qed

lemma pad_int_2_form:
  assumes "0 \<le> n" "n < 100"
  obtains a b where "pad_int 2 n = [a, b]" "getnum_fixed [a, b] = Some (n, [])"
proof -
  obtain k where k: "n = int k" using assms(1) zero_le_imp_eq_int by blast
  with assms have p: "pad_int 2 n = [digit_char (k div 10), digit_char (k mod 10)]"
    using pad_int_2 by simp
  from getnum_pad(1)[OF assms, of "[]"] p
  have "getnum_fixed [digit_char (k div 10), digit_char (k mod 10)] = Some (n, [])" by simp
  with p show ?thesis by (rule that)
qed

lemma parse_zone_format:
  assumes "z mod 60 = 0" "\<bar>z\<bar> \<le> 86400"
  shows "parse_zone (format_zone z) = Some (z, [])"
proof (cases "z = 0")
  case True
  then show ?thesis by (simp add: format_zone_def)
next
  case False
  define m where "m = \<bar>z\<bar> div 60"
  have "60 dvd \<bar>z\<bar>" using assms(1) by (simp add: mod_eq_0_iff_dvd)
  then have z: "\<bar>z\<bar> = 60 * m" by (simp add: m_def)
  have "0 < \<bar>z\<bar>" using False by simp
  then have m: "0 < m" "m \<le> 1440" using assms(2) unfolding z by linarith+
  define hh mm where "hh = m div 60" and "mm = m mod 60"
  have mm: "0 \<le> mm" "mm < 60" "m = 60 * hh + mm" by (simp_all add: hh_def mm_def)
  have hm: "0 \<le> hh" "hh \<le> 24" "0 \<le> mm" "mm < 60" "m = 60 * hh + mm"
    using m mm by linarith+
  obtain a b where ab: "pad_int 2 hh = [a, b]" "getnum_fixed [a, b] = Some (hh, [])"
    using pad_int_2_form[of hh] hm by auto
  obtain c d where cd: "pad_int 2 mm = [c, d]" "getnum_fixed [c, d] = Some (mm, [])"
    using pad_int_2_form[of mm] hm by auto
  have f: "format_zone z = (if z < 0 then CHR ''-'' else CHR ''+'') # [a, b] @ '':'' @ [c, d]"
    using False m ab cd by (simp add: format_zone_def Let_def flip: m_def hh_def mm_def)
  have v: "(hh * 60 + mm) * 60 = \<bar>z\<bar>" using z hm by simp
  have "parse_zone (format_zone z) = Some (if z < 0 then - ((hh * 60 + mm) * 60) else (hh * 60 + mm) * 60, [])"
    unfolding f using ab(2) cd(2) hm(2,4) by (simp del: getnum_fixed.simps)
  then show ?thesis using v by (simp split: if_splits)
qed

lemma parse_fraction_none: "s = [] \<or> (hd s \<noteq> CHR ''.'' \<and> hd s \<noteq> CHR '','') \<Longrightarrow> parse_fraction s = (0, s)"
  by (auto simp: parse_fraction_def split: list.splits)

lemma format_zone_no_fraction: "parse_fraction (format_zone z) = (0, format_zone z)"
  by (rule parse_fraction_none) (auto simp: format_zone_def Let_def)

lemma parse_fields_format:
  assumes "0 \<le> y" "y \<le> 9999" "1 \<le> mo" "mo \<le> 12" "0 \<le> d" "d < 100" "0 \<le> h" "h < 24"
    "0 \<le> mi" "mi < 60" "0 \<le> sec" "sec < 60"
  shows "parse_fields (pad_int 4 y @ ''-'' @ pad_int 2 mo @ ''-'' @ pad_int 2 d @ ''T''
    @ pad_int 2 h @ '':'' @ pad_int 2 mi @ '':'' @ pad_int 2 sec @ r)
    = Some ((y, mo, d, h, mi, sec), r)"
  using assms by (simp add: parse_fields_def parse_year_pad getnum_pad)

definition rfc3339_representable :: "gotime \<Rightarrow> bool" where
  "rfc3339_representable t =
     (let y = fst (civil_from_days ((t_ns t div second + t_zone t) div 86400))
      in 0 \<le> y \<and> y \<le> 9999 \<and> t_zone t mod 60 = 0 \<and> \<bar>t_zone t\<bar> \<le> 86400)"

definition truncate_to_second :: "gotime \<Rightarrow> gotime" where
  "truncate_to_second t = t\<lparr>t_ns := t_ns t div second * second\<rparr>"

text \<open>
  Formatting and parsing is the identity up to the fraction of the second, for years of
  four digits and offsets of whole minutes up to a day.
\<close>

lemma rfc3339_roundtrip:
  assumes "rfc3339_representable t"
  shows "time_parse_rfc3339 (time_format_rfc3339 t) = Some (truncate_to_second t)"
proof -
  define lc where "lc = t_ns t div second + t_zone t"
  define day sod where "day = lc div 86400" and "sod = lc mod 86400"
  obtain y m d where ymd: "civil_from_days day = (y, m, d)" by (metis prod_cases3)
  note c = civil_from_days_correct[OF ymd]
  have y: "0 \<le> y" "y \<le> 9999" and z: "t_zone t mod 60 = 0" "\<bar>t_zone t\<bar> \<le> 86400"
    using assms ymd by (simp_all add: rfc3339_representable_def day_def lc_def Let_def)
  have d: "0 \<le> d" "d < 100" using c(4,5) by (auto simp: days_in_def split: if_splits)
  have sod: "0 \<le> sod" "sod < 86400" by (simp_all add: sod_def)
  have fields: "0 \<le> sod div 3600" "sod div 3600 < 24" "0 \<le> sod div 60 mod 60" "sod div 60 mod 60 < 60"
    "0 \<le> sod mod 60" "sod mod 60 < 60"
    using sod by (auto simp: pos_imp_zdiv_nonneg_iff)
  have secs: "sod div 3600 * 3600 + (sod div 60 mod 60) * 60 + sod mod 60 = sod"
  proof -
    define q r where "q = sod div 60" and "r = sod div 3600"
    have "60 * q + sod mod 60 = sod" "60 * r + q mod 60 = q"
      using zdiv_zmult2_eq[of 60 sod 60] by (simp_all add: q_def r_def)
    then show ?thesis unfolding q_def[symmetric] r_def[symmetric] by linarith
  qed
  have lc: "day * 86400 + sod = lc" by (simp add: day_def sod_def)
  have f: "time_format_rfc3339 t = pad_int 4 y @ ''-'' @ pad_int 2 m @ ''-'' @ pad_int 2 d @ ''T''
    @ pad_int 2 (sod div 3600) @ '':'' @ pad_int 2 (sod div 60 mod 60) @ '':''
    @ pad_int 2 (sod mod 60) @ format_zone (t_zone t)"
    using ymd by (simp add: time_format_rfc3339_def Let_def lc_def day_def sod_def)
  have "time_parse_rfc3339 (time_format_rfc3339 t) =
     Some \<lparr>t_ns = (day * 86400 + sod div 3600 * 3600 + sod div 60 mod 60 * 60 + sod mod 60 - t_zone t) * second,
           t_zone = t_zone t\<rparr>"
    unfolding f time_parse_rfc3339_def parse_fields_format[OF y c(2,3) d fields]
    using c by (simp add: format_zone_no_fraction parse_zone_format[OF z])
  moreover have "day * 86400 + sod div 3600 * 3600 + sod div 60 mod 60 * 60 + sod mod 60 - t_zone t
     = t_ns t div second"
    using secs lc by (simp add: lc_def)
  ultimately show ?thesis by (simp add: truncate_to_second_def)
qed

end
