(* ===== verification/Kube_Objects.thy ===== *)
theory Kube_Objects
  imports Go_Errors Go_Time
begin

text \<open>
  The Kubernetes objects the service provider manages, as the Go types of \<open>k8s.io/api\<close>
  declare the fields the program reads or writes: object metadata, the pod template of a
  Deployment, and one payload per managed kind. A nil map or pointer is \<open>None\<close>. The
  specification of a CustomResourceDefinition is copied as a whole and never inspected, so
  it is an opaque document.
\<close>

subsection \<open>Metadata\<close>

record object_meta =
  om_name :: string
  om_namespace :: string
  om_uid :: string
  om_labels :: "go_map option"
  om_annotations :: "go_map option"
  om_deletion :: "gotime option"

definition new_meta :: "string \<Rightarrow> string \<Rightarrow> object_meta" where
  "new_meta name ns = \<lparr>om_name = name, om_namespace = ns, om_uid = '''', om_labels = None,
     om_annotations = None, om_deletion = None\<rparr>"

type_synonym object_key = "string \<times> string"   \<comment> \<open>\<open>types.NamespacedName\<close>: namespace, name\<close>

subsection \<open>Pods and deployments\<close>

record env_var =
  ev_name :: string
  ev_value :: string

record volume_mount =
  vm_name :: string
  vm_path :: string
  vm_read_only :: bool

datatype volume_source = EmptyDir | SecretVolume string "bool option"

record volume =
  vol_name :: string
  vol_source :: volume_source

record container =
  c_name :: string
  c_image :: string
  c_pull_policy :: string
  c_command :: "string list"
  c_args :: "string list"
  c_env :: "env_var list"
  c_mounts :: "volume_mount list"

record pod_spec =
  ps_restart_policy :: string
  ps_grace_seconds :: "int option"
  ps_pull_secrets :: "string list"     \<comment> \<open>names of the local object references\<close>
  ps_containers :: "container list"
  ps_init_containers :: "container list"
  ps_volumes :: "volume list"

record deployment_spec =
  ds_replicas :: "int32 option"
  ds_strategy :: string
  ds_selector :: "go_map option"
  ds_template_labels :: "go_map option"
  ds_template_spec :: pod_spec

definition empty_container :: container where
  "empty_container = \<lparr>c_name = '''', c_image = '''', c_pull_policy = '''', c_command = [],
     c_args = [], c_env = [], c_mounts = []\<rparr>"

definition empty_pod_spec :: pod_spec where
  "empty_pod_spec = \<lparr>ps_restart_policy = '''', ps_grace_seconds = None, ps_pull_secrets = [],
     ps_containers = [], ps_init_containers = [], ps_volumes = []\<rparr>"

definition empty_deployment_spec :: deployment_spec where
  "empty_deployment_spec = \<lparr>ds_replicas = None, ds_strategy = '''', ds_selector = None,
     ds_template_labels = None, ds_template_spec = empty_pod_spec\<rparr>"

subsection \<open>Role bindings\<close>

record subject =
  sub_kind :: string
  sub_name :: string
  sub_namespace :: string

record role_ref =
  rr_group :: string
  rr_kind :: string
  rr_name :: string

subsection \<open>Objects\<close>

datatype crd_spec = CrdSpec string

datatype payload =
    Namespace
  | ServiceAccount
  | Secret "(string \<rightharpoonup> bytes) option" string
  | CustomResourceDefinition crd_spec
  | ClusterRoleBinding "subject list" role_ref
  | Deployment deployment_spec int32     \<comment> \<open>\<open>Spec\<close> and \<open>Status.ReadyReplicas\<close>\<close>

record client_object =
  meta :: object_meta
  body :: payload

definition new_object :: "string \<Rightarrow> string \<Rightarrow> payload \<Rightarrow> client_object" where
  "new_object name ns p = \<lparr>meta = new_meta name ns, body = p\<rparr>"

text \<open>\<open>reflect.TypeOf(obj).Elem().Name()\<close>\<close>

fun payload_kind :: "payload \<Rightarrow> string" where
  "payload_kind Namespace = ''Namespace''"
| "payload_kind ServiceAccount = ''ServiceAccount''"
| "payload_kind (Secret _ _) = ''Secret''"
| "payload_kind (CustomResourceDefinition _) = ''CustomResourceDefinition''"
| "payload_kind (ClusterRoleBinding _ _) = ''ClusterRoleBinding''"
| "payload_kind (Deployment _ _) = ''Deployment''"

definition kind_of :: "client_object \<Rightarrow> string" where
  "kind_of o' = payload_kind (body o')"

definition get_name :: "client_object \<Rightarrow> string" where
  "get_name o' = om_name (meta o')"

definition get_namespace :: "client_object \<Rightarrow> string" where
  "get_namespace o' = om_namespace (meta o')"

text \<open>\<open>client.ObjectKeyFromObject\<close>\<close>

definition object_key :: "client_object \<Rightarrow> object_key" where
  "object_key o' = (get_namespace o', get_name o')"

text \<open>\<open>objectutils.ObjectID\<close>\<close>

definition ObjectID :: "client_object \<Rightarrow> string" where
  "ObjectID o' = ''Kind='' @ kind_of o' @ '', Name='' @ get_name o' @ '', Namespace='' @ get_namespace o'"

lemma new_object_simps [simp]:
  "meta (new_object n ns p) = new_meta n ns" "body (new_object n ns p) = p"
  "kind_of (new_object n ns p) = payload_kind p"
  "get_name (new_object n ns p) = n" "get_namespace (new_object n ns p) = ns"
  "object_key (new_object n ns p) = (ns, n)"
  by (simp_all add: new_object_def kind_of_def get_name_def get_namespace_def object_key_def new_meta_def)

lemma new_meta_simps [simp]:
  "om_name (new_meta n ns) = n" "om_namespace (new_meta n ns) = ns" "om_uid (new_meta n ns) = ''''"
  "om_labels (new_meta n ns) = None" "om_annotations (new_meta n ns) = None"
  "om_deletion (new_meta n ns) = None"
  by (simp_all add: new_meta_def)

text \<open>The identity of an object in its cluster: its kind and its key.\<close>

definition same_identity :: "client_object \<Rightarrow> client_object \<Rightarrow> bool" where
  "same_identity a b = (kind_of a = kind_of b \<and> object_key a = object_key b)"

lemma same_identity_refl [simp]: "same_identity a a"
  by (simp add: same_identity_def)

lemma same_identity_trans: "same_identity a b \<Longrightarrow> same_identity b c \<Longrightarrow> same_identity a c"
  by (simp add: same_identity_def)

lemma same_identity_sym: "same_identity a b \<Longrightarrow> same_identity b a"
  by (simp add: same_identity_def)

end
