(* ===== verification/Velero_Api.thy ===== *)
theory Velero_Api
  imports Kube_Objects
begin

text \<open>
  The API types of \<open>api/v1alpha1\<close>: phases and locations, the \<open>Velero\<close> resource with its
  specification and status, and the \<open>ProviderConfig\<close>. Conditions are kept as an opaque
  list; the runtime library writes them.
\<close>

subsection \<open>Phases and locations\<close>

datatype instance_phase = Pending | Progressing | Ready | Failed | Terminating | Unknown

type_synonym resource_location = string

definition loc_ManagedControlPlane :: resource_location where
  "loc_ManagedControlPlane = ''ManagedControlPlane''"

definition loc_WorkloadCluster :: resource_location where
  "loc_WorkloadCluster = ''WorkloadCluster''"

subsection \<open>Velero\<close>

record velero_plugin =
  vp_name :: string
  vp_version :: string

record velero_spec =
  vs_version :: string
  vs_plugins :: "velero_plugin list"

record managed_resource =
  mr_kind :: string
  mr_name :: string
  mr_namespace :: "string option"
  mr_phase :: instance_phase
  mr_message :: string
  mr_location :: resource_location

record condition =
  cond_type :: string
  cond_status :: bool
  cond_reason :: string
  cond_message :: string

record velero_status =
  st_phase :: string
  st_observed_generation :: int
  st_conditions :: "condition list"
  st_resources :: "managed_resource list"

record velero =
  v_meta :: object_meta
  v_spec :: velero_spec
  v_status :: velero_status

definition group_name :: string where
  "group_name = ''velero.services.open-control-plane.io''"

definition Finalizer :: "velero \<Rightarrow> string" where
  "Finalizer v = group_name @ ''/finalizer''"

definition Velero_GetStatus :: "velero \<Rightarrow> velero_status" where
  "Velero_GetStatus v = v_status v"

definition GetConditions :: "velero \<Rightarrow> condition list" where
  "GetConditions v = st_conditions (v_status v)"

definition SetPhase :: "velero \<Rightarrow> string \<Rightarrow> velero" where
  "SetPhase v p = v\<lparr>v_status := (v_status v)\<lparr>st_phase := p\<rparr>\<rparr>"

definition SetObservedGeneration :: "velero \<Rightarrow> int \<Rightarrow> velero" where
  "SetObservedGeneration v g = v\<lparr>v_status := (v_status v)\<lparr>st_observed_generation := g\<rparr>\<rparr>"

definition set_resources :: "velero \<Rightarrow> managed_resource list \<Rightarrow> velero" where
  "set_resources v rs = v\<lparr>v_status := (v_status v)\<lparr>st_resources := rs\<rparr>\<rparr>"

subsection \<open>ProviderConfig\<close>

record available_images =
  ai_name :: string
  ai_versions :: "string list"
  ai_image :: string

record provider_config =
  pc_poll_interval :: "duration option"
  pc_pull_secrets :: "string list"
  pc_images :: "available_images list"

text \<open>\<open>PollInterval()\<close> dereferences the optional field: a nil pointer panics.\<close>

definition PollInterval :: "provider_config \<Rightarrow> duration option" where
  "PollInterval pc = pc_poll_interval pc"

end
