(* ===== verification/External.thy ===== *)
theory External
  imports Velero_Api
begin

text \<open>
  The boundary of the program. Everything outside \<open>src/\<close> that the code calls is a field of
  the record \<open>ext\<close>, an argument of every definition that uses it: the Kubernetes client,
  \<open>controllerutil.CreateOrUpdate\<close>, the token subresource, the file system and clock, the
  secret mutator, the semver and YAML libraries and the status helpers of the service
  provider runtime. The type \<open>'w\<close> is the outside world: all clusters and what else the
  calls read or change. Nothing is assumed of these fields here; a theorem that relies on
  their documented behaviour names it as a hypothesis.

  \<open>st\<close> is the process state: the world, the store of client objects by address (managed
  objects are pointers that the manager, the results and the dependency map share), the next
  free address, and a log of the requests issued so far with the errors they answered. The log is written by the wrappers
  below and read by no definition; safety properties speak about it.
\<close>

subsection \<open>Clusters and third-party data\<close>

record rest_config =
  rc_host :: string
  rc_ca_data :: bytes
  rc_ca_file :: string

record cluster_handle =
  ch_id :: string
  ch_rest :: "rest_config option"

record semver =
  sv_major :: nat
  sv_minor :: nat
  sv_patch :: nat
  sv_pre :: "string list"

datatype decode_result = DecodeEOF | DecodeError error | DecodeCrd string crd_spec

text \<open>\<open>controllerutil.OperationResult\<close> with the constants \<open>pkg/resources\<close> adds.\<close>

datatype operation_result =
    OpNone | OpCreated | OpUpdated
  | OpDeletionFailed | OpDeletionRequested | OpDeleted

text \<open>\<open>OperationResultOrphaned = OperationResultDeleted\<close>\<close>

definition OpOrphaned :: operation_result where
  "OpOrphaned = OpDeleted"

record 'w ext =
  x_get :: "string \<Rightarrow> object_key \<Rightarrow> client_object \<Rightarrow> 'w \<Rightarrow> client_object \<times> error option \<times> 'w"
  x_delete :: "string \<Rightarrow> client_object \<Rightarrow> 'w \<Rightarrow> error option \<times> 'w"
  x_list_secrets :: "string \<Rightarrow> string \<Rightarrow> (string \<times> string) list \<Rightarrow> 'w \<Rightarrow> client_object list \<times> error option \<times> 'w"
  x_update_velero :: "string \<Rightarrow> velero \<Rightarrow> 'w \<Rightarrow> velero \<times> error option \<times> 'w"
  x_create_token :: "string \<Rightarrow> client_object \<Rightarrow> int \<Rightarrow> 'w \<Rightarrow> (string \<times> gotime) \<times> error option \<times> 'w"
  x_cou_begin :: "string \<Rightarrow> client_object \<Rightarrow> 'w \<Rightarrow> client_object \<times> error option \<times> 'w"
  x_cou_finish :: "string \<Rightarrow> client_object \<Rightarrow> client_object \<Rightarrow> error option \<Rightarrow> 'w
                     \<Rightarrow> client_object \<times> operation_result \<times> error option \<times> 'w"
  x_read_file :: "string \<Rightarrow> 'w \<Rightarrow> bytes \<times> error option \<times> 'w"
  x_now :: "'w \<Rightarrow> gotime \<times> 'w"
  x_mutate_secret :: "string \<Rightarrow> string \<Rightarrow> (string \<rightharpoonup> bytes) option \<Rightarrow> string \<Rightarrow> client_object
                        \<Rightarrow> client_object \<times> error option"
  x_set_label :: "object_meta \<Rightarrow> string \<Rightarrow> string \<Rightarrow> object_meta"
  x_decode :: "nat \<Rightarrow> decode_result"
  x_parse_tolerant :: "string \<Rightarrow> semver option"
  x_parse_range :: "string \<Rightarrow> (semver \<Rightarrow> bool) option"
  x_status_progressing :: "velero \<Rightarrow> string \<Rightarrow> string \<Rightarrow> velero"
  x_status_ready :: "velero \<Rightarrow> velero"
  x_status_terminating :: "velero \<Rightarrow> velero"
  x_status_terminating_reason :: "velero \<Rightarrow> string \<Rightarrow> string \<Rightarrow> velero"
  x_ignore_invalid_input :: "error \<Rightarrow> error option"
  x_err_invalid_input :: error

subsection \<open>Process state and request log\<close>

datatype request =
    ReqGet string string object_key "error option"      \<comment> \<open>cluster, kind, key, answer\<close>
  | ReqDelete string string object_key "error option"
  | ReqListSecrets string string "error option"
  | ReqUpdateVelero string object_key "error option"
  | ReqCreateToken string object_key int "error option"
  | ReqFetch string string object_key        \<comment> \<open>\<open>CreateOrUpdate\<close> starts\<close>
  | ReqPersist string client_object          \<comment> \<open>its callback succeeded on this object\<close>

record 'w st =
  world :: 'w
  store :: "nat \<Rightarrow> client_object"
  next_ref :: nat
  trace :: "request list"

definition log_request :: "request \<Rightarrow> 'w st \<Rightarrow> 'w st" where
  "log_request r s = s\<lparr>trace := trace s @ [r]\<rparr>"

definition set_object :: "nat \<Rightarrow> client_object \<Rightarrow> 'w st \<Rightarrow> 'w st" where
  "set_object r o' s = s\<lparr>store := (store s)(r := o')\<rparr>"

text \<open>Allocation of a fresh object, as a Go composite literal with \<open>&\<close>.\<close>

definition alloc :: "client_object \<Rightarrow> 'w st \<Rightarrow> nat \<times> 'w st" where
  "alloc o' s = (next_ref s, s\<lparr>store := (store s)(next_ref s := o'), next_ref := Suc (next_ref s)\<rparr>)"

text \<open>
  A call that fills in the object behind a typed pointer cannot change the object's type.
\<close>

definition fill :: "client_object \<Rightarrow> client_object \<Rightarrow> client_object" where
  "fill old new = (if kind_of new = kind_of old then new else old)"

lemma kind_of_fill [simp]: "kind_of (fill old new) = kind_of old"
  by (simp add: fill_def)

subsection \<open>The calls\<close>

definition k_get :: "'w ext \<Rightarrow> cluster_handle \<Rightarrow> object_key \<Rightarrow> client_object \<Rightarrow> 'w st
    \<Rightarrow> (client_object \<times> error option) \<times> 'w st" where
  "k_get x c k o' s =
     (let (o2, e, w) = x_get x (ch_id c) k o' (world s)
      in ((fill o' o2, e), log_request (ReqGet (ch_id c) (kind_of o') k e) (s\<lparr>world := w\<rparr>)))"

definition k_delete :: "'w ext \<Rightarrow> cluster_handle \<Rightarrow> client_object \<Rightarrow> 'w st \<Rightarrow> error option \<times> 'w st" where
  "k_delete x c o' s =
     (let (e, w) = x_delete x (ch_id c) o' (world s)
      in (e, log_request (ReqDelete (ch_id c) (kind_of o') (object_key o') e) (s\<lparr>world := w\<rparr>)))"

definition k_list_secrets :: "'w ext \<Rightarrow> cluster_handle \<Rightarrow> string \<Rightarrow> (string \<times> string) list \<Rightarrow> 'w st
    \<Rightarrow> (client_object list \<times> error option) \<times> 'w st" where
  "k_list_secrets x c ns ls s =
     (let (os, e, w) = x_list_secrets x (ch_id c) ns ls (world s)
      in (([o' \<leftarrow> os. kind_of o' = ''Secret''], e),
          log_request (ReqListSecrets (ch_id c) ns e) (s\<lparr>world := w\<rparr>)))"

definition k_update_velero :: "'w ext \<Rightarrow> cluster_handle \<Rightarrow> velero \<Rightarrow> 'w st
    \<Rightarrow> (velero \<times> error option) \<times> 'w st" where
  "k_update_velero x c v s =
     (let (v2, e, w) = x_update_velero x (ch_id c) v (world s)
      in ((v2, e), log_request
            (ReqUpdateVelero (ch_id c) (om_namespace (v_meta v), om_name (v_meta v)) e) (s\<lparr>world := w\<rparr>)))"

definition k_create_token :: "'w ext \<Rightarrow> cluster_handle \<Rightarrow> client_object \<Rightarrow> int \<Rightarrow> 'w st
    \<Rightarrow> ((string \<times> gotime) \<times> error option) \<times> 'w st" where
  "k_create_token x c sa secs s =
     (let (t, e, w) = x_create_token x (ch_id c) sa secs (world s)
      in ((t, e), log_request (ReqCreateToken (ch_id c) (object_key sa) secs e) (s\<lparr>world := w\<rparr>)))"

definition os_read_file :: "'w ext \<Rightarrow> string \<Rightarrow> 'w st \<Rightarrow> (bytes \<times> error option) \<times> 'w st" where
  "os_read_file x f s = (let (b, e, w) = x_read_file x f (world s) in ((b, e), s\<lparr>world := w\<rparr>))"

definition time_now :: "'w ext \<Rightarrow> 'w st \<Rightarrow> gotime \<times> 'w st" where
  "time_now x s = (let (t, w) = x_now x (world s) in (t, s\<lparr>world := w\<rparr>))"

text \<open>
  \<open>controllerutil.CreateOrUpdate(ctx, client, obj, f)\<close> calls \<open>f\<close> at most once: first it
  reads the object (\<open>x_cou_begin\<close> gives the contents \<open>f\<close> then sees, or the error that ends
  the call before \<open>f\<close>), then \<open>f\<close> runs on it, then it writes or not (\<open>x_cou_finish\<close>, given
  the contents before and after \<open>f\<close> and \<open>f\<close>'s error). The callback may panic.
\<close>

definition CreateOrUpdate :: "'w ext \<Rightarrow> cluster_handle \<Rightarrow> client_object
    \<Rightarrow> (client_object \<Rightarrow> 'w st \<Rightarrow> ((client_object \<times> error option) \<times> 'w st) option)
    \<Rightarrow> 'w st \<Rightarrow> ((client_object \<times> operation_result \<times> error option) \<times> 'w st) option" where
  "CreateOrUpdate x c o0 f s0 =
     (let (o1, e1, w1) = x_cou_begin x (ch_id c) o0 (world s0);
          o1 = fill o0 o1;
          s1 = log_request (ReqFetch (ch_id c) (kind_of o0) (object_key o0)) (s0\<lparr>world := w1\<rparr>)
      in case e1 of
           Some e \<Rightarrow> Some ((o1, OpNone, Some e), s1)
         | None \<Rightarrow>
             do {
               ((o2, e2), s2) \<leftarrow> f o1 s1;
               (let s3 = (if e2 = None then log_request (ReqPersist (ch_id c) o2) s2 else s2);
                    (o3, r, e3, w3) = x_cou_finish x (ch_id c) o1 o2 e2 (world s3)
                in Some ((fill o2 o3, r, e3), s3\<lparr>world := w3\<rparr>)) })"

subsection \<open>Frame and log facts of the calls\<close>

lemma log_request_simps [simp]:
  "trace (log_request r s) = trace s @ [r]" "world (log_request r s) = world s"
  "store (log_request r s) = store s" "next_ref (log_request r s) = next_ref s"
  by (simp_all add: log_request_def)

lemma set_object_simps [simp]:
  "trace (set_object r o' s) = trace s" "world (set_object r o' s) = world s"
  "store (set_object r o' s) = (store s)(r := o')" "next_ref (set_object r o' s) = next_ref s"
  by (simp_all add: set_object_def)

lemma alloc_simps [simp]:
  "fst (alloc o' s) = next_ref s"
  "trace (snd (alloc o' s)) = trace s" "world (snd (alloc o' s)) = world s"
  "store (snd (alloc o' s)) = (store s)(next_ref s := o')" "next_ref (snd (alloc o' s)) = Suc (next_ref s)"
  by (simp_all add: alloc_def)

lemma k_get_frame [frame_rules]:
  assumes "k_get x c k o' s = ((o2, e), s')"
  shows "trace s' = trace s @ [ReqGet (ch_id c) (kind_of o') k e]" "store s' = store s"
    "next_ref s' = next_ref s" "kind_of o2 = kind_of o'"
  using assms by (auto simp: k_get_def split: prod.splits)

lemma k_delete_frame [frame_rules]:
  assumes "k_delete x c o' s = (e, s')"
  shows "trace s' = trace s @ [ReqDelete (ch_id c) (kind_of o') (object_key o') e]" "store s' = store s"
    "next_ref s' = next_ref s"
  using assms by (auto simp: k_delete_def split: prod.splits)

lemma k_list_frame [frame_rules]:
  assumes "k_list_secrets x c ns ls s = ((os, e), s')"
  shows "trace s' = trace s @ [ReqListSecrets (ch_id c) ns e]" "store s' = store s"
    "next_ref s' = next_ref s" "\<forall>o' \<in> set os. kind_of o' = ''Secret''"
  using assms by (auto simp: k_list_secrets_def split: prod.splits)

lemma k_update_velero_frame [frame_rules]:
  assumes "k_update_velero x c v s = ((v2, e), s')"
  shows "trace s' = trace s @ [ReqUpdateVelero (ch_id c) (om_namespace (v_meta v), om_name (v_meta v)) e]"
    "store s' = store s" "next_ref s' = next_ref s"
  using assms by (auto simp: k_update_velero_def split: prod.splits)

lemma k_create_token_frame [frame_rules]:
  assumes "k_create_token x c sa secs s = ((t, e), s')"
  shows "trace s' = trace s @ [ReqCreateToken (ch_id c) (object_key sa) secs e]"
    "store s' = store s" "next_ref s' = next_ref s"
  using assms by (auto simp: k_create_token_def split: prod.splits)

lemma os_read_file_frame [frame_rules]:
  assumes "os_read_file x f s = ((b, e), s')"
  shows "trace s' = trace s" "store s' = store s" "next_ref s' = next_ref s"
  using assms by (auto simp: os_read_file_def split: prod.splits)

lemma time_now_frame [frame_rules]:
  assumes "time_now x s = (t, s')"
  shows "trace s' = trace s" "store s' = store s" "next_ref s' = next_ref s"
  using assms by (auto simp: time_now_def split: prod.splits)

text \<open>The same facts as one conjunction each, for destruction.\<close>

lemma k_get_effect:
  "k_get x c k o' s = ((o2, e), s') \<Longrightarrow>
     trace s' = trace s @ [ReqGet (ch_id c) (kind_of o') k e] \<and> store s' = store s
     \<and> next_ref s' = next_ref s \<and> kind_of o2 = kind_of o'"
  by (intro conjI k_get_frame)

lemma k_create_token_effect:
  "k_create_token x c sa secs s = ((t, e), s') \<Longrightarrow>
     trace s' = trace s @ [ReqCreateToken (ch_id c) (object_key sa) secs e]
     \<and> store s' = store s \<and> next_ref s' = next_ref s"
  by (intro conjI k_create_token_frame)

lemma os_read_file_effect:
  "os_read_file x f s = ((b, e), s') \<Longrightarrow> trace s' = trace s \<and> store s' = store s \<and> next_ref s' = next_ref s"
  by (intro conjI os_read_file_frame)

end
