(* ===== verification/Labels.thy ===== *)
theory Labels
  imports External
begin

text \<open>
  \<open>pkg/meta/labels.go\<close>: the labels every managed object carries. \<open>GetLabels\<close> returns the
  object's own map, so writing to it writes to the object; a map created because the object
  had none reaches the object only through \<open>SetLabels\<close>.
\<close>

definition LabelManagedBy :: string where
  "LabelManagedBy = ''app.kubernetes.io/managed-by''"

definition LabelManagedByValue :: string where
  "LabelManagedByValue = ''service-provider-velero''"

definition labelInstanceID :: string where
  "labelInstanceID = ''velero.services.openmcp.cloud/instance-id''"

definition get_labels :: "client_object \<Rightarrow> go_map option" where
  "get_labels o' = om_labels (meta o')"

definition set_labels :: "client_object \<Rightarrow> go_map \<Rightarrow> client_object" where
  "set_labels o' m = o'\<lparr>meta := (meta o')\<lparr>om_labels := Some m\<rparr>\<rparr>"

definition SetManagedBy :: "client_object \<Rightarrow> client_object" where
  "SetManagedBy o' =
     (let labels = (case get_labels o' of None \<Rightarrow> Map.empty | Some m \<Rightarrow> m)
      in set_labels o' (labels(LabelManagedBy \<mapsto> LabelManagedByValue)))"

definition ManagedBy :: "(string \<times> string) list" where
  "ManagedBy = [(LabelManagedBy, LabelManagedByValue)]"

text \<open>
  \<open>SetInstanceID\<close> never calls \<open>SetLabels\<close>: with a nil label map the fresh map is dropped,
  otherwise the entry goes into the object's map.
\<close>

definition SetInstanceID :: "client_object \<Rightarrow> string \<Rightarrow> client_object" where
  "SetInstanceID o' instanceID =
     (case get_labels o' of
        None \<Rightarrow> o'
      | Some labels \<Rightarrow> set_labels o' (labels(labelInstanceID \<mapsto> instanceID)))"

lemma label_keys_distinct [simp]:
  "LabelManagedBy \<noteq> labelInstanceID" "labelInstanceID \<noteq> LabelManagedBy"
  by (simp_all add: LabelManagedBy_def labelInstanceID_def)

lemma set_labels_simps [simp]:
  "get_labels (set_labels o' m) = Some m" "body (set_labels o' m) = body o'"
  "kind_of (set_labels o' m) = kind_of o'" "object_key (set_labels o' m) = object_key o'"
  "om_annotations (meta (set_labels o' m)) = om_annotations (meta o')"
  "om_uid (meta (set_labels o' m)) = om_uid (meta o')"
  "om_deletion (meta (set_labels o' m)) = om_deletion (meta o')"
  by (simp_all add: set_labels_def get_labels_def kind_of_def object_key_def get_name_def get_namespace_def)

text \<open>An object carries the managed-by label and an instance id.\<close>

definition carries_labels :: "string \<Rightarrow> client_object \<Rightarrow> bool" where
  "carries_labels iid o' =
     (map_get (get_labels o') LabelManagedBy = LabelManagedByValue
      \<and> map_get (get_labels o') labelInstanceID = iid)"

text \<open>The order the manager uses, managed-by first, always leaves both labels on the object.\<close>

definition stamp :: "string \<Rightarrow> client_object \<Rightarrow> client_object" where
  "stamp iid o' = SetInstanceID (SetManagedBy o') iid"

lemma stamp_labels:
  "get_labels (stamp iid o') =
     Some ((case get_labels o' of None \<Rightarrow> Map.empty | Some m \<Rightarrow> m)
             (LabelManagedBy \<mapsto> LabelManagedByValue, labelInstanceID \<mapsto> iid))"
  by (simp add: stamp_def SetManagedBy_def SetInstanceID_def)

lemma stamp_frame [simp]:
  "body (stamp iid o') = body o'" "kind_of (stamp iid o') = kind_of o'"
  "object_key (stamp iid o') = object_key o'" "om_annotations (meta (stamp iid o')) = om_annotations (meta o')"
  "om_uid (meta (stamp iid o')) = om_uid (meta o')"
  "om_deletion (meta (stamp iid o')) = om_deletion (meta o')"
  by (simp_all add: stamp_def SetManagedBy_def SetInstanceID_def split: option.splits)

lemma carries_labels_stamp [simp]: "carries_labels iid (stamp iid o')"
  by (simp add: carries_labels_def stamp_labels)

lemma same_identity_stamp [simp]: "same_identity o' (stamp iid o')"
  by (simp add: same_identity_def)

lemma stamp_idem: "stamp iid (stamp iid o') = stamp iid o'"
  by (simp add: stamp_def SetManagedBy_def SetInstanceID_def set_labels_def get_labels_def
      fun_upd_twist[of LabelManagedBy labelInstanceID])

text \<open>
  C39. Labelling. Setting the managed-by label and then the instance id, as the manager does,
  leaves on the object exactly its former labels with these two entries overwritten, and
  touches nothing else of it; the instance id alone reaches an object only if it already had
  a label map.
\<close>

theorem labelling_spec:
  "SetInstanceID (SetManagedBy o') iid =
     set_labels o' ((case get_labels o' of None \<Rightarrow> Map.empty | Some m \<Rightarrow> m)
       (LabelManagedBy \<mapsto> LabelManagedByValue, labelInstanceID \<mapsto> iid))
   \<and> (SetInstanceID o' iid = o' \<longleftrightarrow> get_labels o' = None \<or> (\<exists>m. get_labels o' = Some m \<and> m labelInstanceID = Some iid))"
proof -
  have "SetInstanceID o' iid = o' \<longleftrightarrow> m labelInstanceID = Some iid" if "get_labels o' = Some m" for m
  proof
    assume "SetInstanceID o' iid = o'"
    with that have "get_labels o' = Some (m(labelInstanceID \<mapsto> iid))"
      by (metis (lifting) SetInstanceID_def option.simps(5) set_labels_simps(1))
    with that show "m labelInstanceID = Some iid" by (metis fun_upd_same option.inject)
  next
    assume "m labelInstanceID = Some iid"
    then have "m(labelInstanceID \<mapsto> iid) = m" by (simp add: fun_upd_idem)
    with that show "SetInstanceID o' iid = o'"
      by (simp add: SetInstanceID_def set_labels_def get_labels_def)
  qed
  then show ?thesis
    by (cases "get_labels o'")
      (auto simp: SetInstanceID_def SetManagedBy_def set_labels_def get_labels_def Let_def)
qed

end
