(* ===== verification/Managed_Objects.thy ===== *)
theory Managed_Objects
  imports Labels
begin

text \<open>
  \<open>pkg/resources/managedobject.go\<close> and \<open>managedcluster.go\<close>: managed objects with their
  reconcile and status closures, and the clusters that hold them. A managed object is known
  by the address of its client object (each is created together with one), which is the
  pointer identity the dependency map of the manager uses.

  Two interfaces follow. \<open>reconciler\<close> is what the manager relies on when it runs a reconcile
  closure, \<open>status_func\<close> what the controller relies on when it reports a status. Every
  component that provides a closure interprets the locale on it.
\<close>

subsection \<open>Status\<close>

record status =
  s_phase :: instance_phase
  s_message :: string
  s_location :: resource_location

datatype deletion_policy = NoPolicy | Orphan | Delete

type_synonym 'w reconcile_func =
  "client_object \<Rightarrow> 'w st \<Rightarrow> ((client_object \<times> error option) \<times> 'w st) option"

type_synonym status_fn = "client_object \<Rightarrow> resource_location \<Rightarrow> status option"

definition NoOp :: "'w reconcile_func" where
  "NoOp o' s = Some ((o', None), s)"

definition SimpleStatus :: status_fn where
  "SimpleStatus o' rl = Some
     (if \<not> time_is_zero (om_deletion (meta o'))
      then \<lparr>s_phase = Terminating, s_message = ''Resource is terminating.'', s_location = rl\<rparr>
      else if om_uid (meta o') = ''''
      then \<lparr>s_phase = Pending, s_message = ''Resource has not been created yet.'', s_location = rl\<rparr>
      else \<lparr>s_phase = Ready, s_message = ''Resource exists.'', s_location = rl\<rparr>)"

subsection \<open>Managed objects\<close>

record 'w managed_object =
  mo_ref :: nat
  mo_reconcile :: "'w reconcile_func option"
  mo_status :: "status_fn option"
  mo_deps :: "nat list"
  mo_policy :: deletion_policy

record 'w managed_object_context =
  moc_reconcile :: "'w reconcile_func option"
  moc_depends_on :: "'w managed_object list"
  moc_policy :: deletion_policy
  moc_status :: "status_fn option"

definition NewManagedObject :: "client_object \<Rightarrow> 'w managed_object_context \<Rightarrow> 'w st
    \<Rightarrow> 'w managed_object \<times> 'w st" where
  "NewManagedObject o' moc s =
     (let (r, s1) = alloc o' s
      in (\<lparr>mo_ref = r, mo_reconcile = moc_reconcile moc, mo_status = moc_status moc,
           mo_deps = map mo_ref (moc_depends_on moc),
           mo_policy = (if moc_policy moc = NoPolicy then Delete else moc_policy moc)\<rparr>, s1))"

definition GetObject :: "'w managed_object \<Rightarrow> 'w st \<Rightarrow> client_object" where
  "GetObject mo s = store s (mo_ref mo)"

definition GetStatus :: "'w managed_object \<Rightarrow> resource_location \<Rightarrow> 'w st \<Rightarrow> status option" where
  "GetStatus mo rl s =
     (case mo_status mo of
        Some f \<Rightarrow> f (GetObject mo s) rl
      | None \<Rightarrow> Some \<lparr>s_phase = Unknown, s_message = ''No status function defined.'', s_location = rl\<rparr>)"

definition GetDeletionPolicy :: "'w managed_object \<Rightarrow> deletion_policy" where
  "GetDeletionPolicy mo = mo_policy mo"

definition GetDependencies :: "'w managed_object \<Rightarrow> nat list" where
  "GetDependencies mo = mo_deps mo"

text \<open>\<open>Reconcile\<close> runs the closure on the managed object's own client object.\<close>

definition Reconcile :: "'w managed_object \<Rightarrow> 'w reconcile_func" where
  "Reconcile mo o' s =
     (case mo_reconcile mo of Some f \<Rightarrow> f o' s | None \<Rightarrow> Some ((o', None), s))"

subsection \<open>Managed clusters\<close>

datatype cluster_type = ManagedControlPlane | WorkloadCluster

text \<open>\<open>apiv1alpha1.ResourceLocation(clusterType)\<close>\<close>

fun cluster_location :: "cluster_type \<Rightarrow> resource_location" where
  "cluster_location ManagedControlPlane = ''ManagedControlPlane''"
| "cluster_location WorkloadCluster = ''WorkloadCluster''"

record 'w managed_cluster =
  mc_cluster :: cluster_handle
  mc_cfg :: "rest_config option"
  mc_objects :: "'w managed_object list"
  mc_namespace :: string
  mc_type :: cluster_type

definition NewManagedCluster :: "cluster_handle \<Rightarrow> rest_config option \<Rightarrow> string \<Rightarrow> cluster_type
    \<Rightarrow> 'w managed_cluster" where
  "NewManagedCluster c cfg ns ct =
     \<lparr>mc_cluster = c, mc_cfg = cfg, mc_objects = [], mc_namespace = ns, mc_type = ct\<rparr>"

definition AddObject :: "'w managed_object \<Rightarrow> 'w managed_cluster \<Rightarrow> 'w managed_cluster" where
  "AddObject mo mc = mc\<lparr>mc_objects := mc_objects mc @ [mo]\<rparr>"

definition GetObjects :: "'w managed_cluster \<Rightarrow> 'w managed_object list" where
  "GetObjects mc = mc_objects mc"

definition GetDefaultNamespace :: "'w managed_cluster \<Rightarrow> string" where
  "GetDefaultNamespace mc = mc_namespace mc"

definition GetCluster :: "'w managed_cluster \<Rightarrow> cluster_handle" where
  "GetCluster mc = mc_cluster mc"

text \<open>The client of a cluster issues its requests to that cluster: the handle stands for both.\<close>

definition GetClient :: "'w managed_cluster \<Rightarrow> cluster_handle" where
  "GetClient mc = mc_cluster mc"

definition GetConfig :: "'w managed_cluster \<Rightarrow> rest_config option" where
  "GetConfig mc = mc_cfg mc"

definition GetClusterType :: "'w managed_cluster \<Rightarrow> cluster_type" where
  "GetClusterType mc = mc_type mc"

text \<open>A nil REST config is dereferenced, hence the panic.\<close>

definition GetHostAndPort :: "'w managed_cluster \<Rightarrow> (string \<times> string) option" where
  "GetHostAndPort mc = do {
     cfg \<leftarrow> mc_cfg mc;
     (let input = trim_prefix ''https://'' (rc_host cfg);
          (host, port, found) = cut (CHR '':'') input
      in Some (host, if \<not> found then ''443'' else port)) }"

lemma AddObject_simps [simp]:
  "mc_objects (AddObject mo mc) = mc_objects mc @ [mo]" "mc_cluster (AddObject mo mc) = mc_cluster mc"
  "mc_cfg (AddObject mo mc) = mc_cfg mc" "mc_namespace (AddObject mo mc) = mc_namespace mc"
  "mc_type (AddObject mo mc) = mc_type mc"
  by (simp_all add: AddObject_def)

lemma NewManagedCluster_simps [simp]:
  "mc_objects (NewManagedCluster c cfg ns ct) = []" "mc_cluster (NewManagedCluster c cfg ns ct) = c"
  "mc_cfg (NewManagedCluster c cfg ns ct) = cfg" "mc_namespace (NewManagedCluster c cfg ns ct) = ns"
  "mc_type (NewManagedCluster c cfg ns ct) = ct"
  by (simp_all add: NewManagedCluster_def)

lemma GetHostAndPort_cong:
  "mc_cfg a = mc_cfg b \<Longrightarrow> GetHostAndPort a = GetHostAndPort b"
  by (simp add: GetHostAndPort_def)

lemma host_split:
  assumes "CHR '':'' \<notin> set host"
  shows "mc_cfg mc = Some cfg \<Longrightarrow> rc_host cfg = ''https://'' @ host @ '':'' @ port
           \<Longrightarrow> GetHostAndPort mc = Some (host, port)"
    and "mc_cfg mc = Some cfg \<Longrightarrow> rc_host cfg = ''https://'' @ host
           \<Longrightarrow> GetHostAndPort mc = Some (host, ''443'')"
proof -
  note t = trim_prefix_append[of "''https://''"]
  show "mc_cfg mc = Some cfg \<Longrightarrow> rc_host cfg = ''https://'' @ host @ '':'' @ port
           \<Longrightarrow> GetHostAndPort mc = Some (host, port)"
    using cut_present[OF assms, of port] t[of "host @ '':'' @ port"] by (simp add: GetHostAndPort_def)
  show "mc_cfg mc = Some cfg \<Longrightarrow> rc_host cfg = ''https://'' @ host
           \<Longrightarrow> GetHostAndPort mc = Some (host, ''443'')"
    using cut_absent[OF assms] t[of host] by (simp add: GetHostAndPort_def)
qed

text \<open>
  C26. Host and port. An address \<open>https://host:port\<close> of a host without a colon is taken apart
  into exactly this host and port, and without a port the port is 443; a cluster without a
  REST configuration panics, and nothing else does. An address whose host is an IPv6 literal
  is cut inside the literal, at its first colon.
\<close>

theorem host_and_port_spec:
  "(GetHostAndPort mc = None \<longleftrightarrow> mc_cfg mc = None)
   \<and> (\<forall>cfg host port. mc_cfg mc = Some cfg \<longrightarrow> CHR '':'' \<notin> set host \<longrightarrow>
        (rc_host cfg = ''https://'' @ host @ '':'' @ port \<longrightarrow> GetHostAndPort mc = Some (host, port))
      \<and> (rc_host cfg = ''https://'' @ host \<longrightarrow> GetHostAndPort mc = Some (host, ''443''))
      \<and> (\<forall>rest. rc_host cfg = ''https://['' @ host @ '':'' @ rest \<longrightarrow> GetHostAndPort mc = Some (''['' @ host, rest)))"
proof (intro conjI allI impI)
  show "GetHostAndPort mc = None \<longleftrightarrow> mc_cfg mc = None"
    by (cases "mc_cfg mc") (simp_all add: GetHostAndPort_def split: prod.split)
next
  fix cfg host port
  assume a: "mc_cfg mc = Some cfg" "CHR '':'' \<notin> set host"
  show "rc_host cfg = ''https://'' @ host @ '':'' @ port \<Longrightarrow> GetHostAndPort mc = Some (host, port)"
    and "rc_host cfg = ''https://'' @ host \<Longrightarrow> GetHostAndPort mc = Some (host, ''443'')"
    using host_split[OF a(2) a(1)] by blast+
  fix rest
  assume "rc_host cfg = ''https://['' @ host @ '':'' @ rest"
  then have "rc_host cfg = ''https://'' @ (''['' @ host) @ '':'' @ rest" by simp
  moreover have "CHR '':'' \<notin> set (''['' @ host)" using a(2) by simp
  ultimately show "GetHostAndPort mc = Some (''['' @ host, rest)" using host_split(1)[OF _ a(1)] by blast
qed

subsection \<open>The status interface\<close>

locale status_func =
  fixes sf :: status_fn and kinds :: "string set"
  assumes total: "kind_of o' \<in> kinds \<Longrightarrow> sf o' rl \<noteq> None"
    and location: "sf o' rl = Some st' \<Longrightarrow> s_location st' = rl"
    and terminating: "sf o' rl = Some st' \<Longrightarrow> \<not> time_is_zero (om_deletion (meta o'))
          \<Longrightarrow> s_phase st' = Terminating"
begin

lemma ready_not_deleting: "sf o' rl = Some st' \<Longrightarrow> s_phase st' = Ready \<Longrightarrow> time_is_zero (om_deletion (meta o'))"
  using terminating by fastforce

lemma defined: "kind_of o' \<in> kinds \<Longrightarrow> \<exists>st'. sf o' rl = Some st' \<and> s_location st' = rl"
  using total location by blast

end

interpretation simple: status_func SimpleStatus UNIV
  by unfold_locales (auto simp: SimpleStatus_def)

lemma simple_ready_iff:
  "SimpleStatus o' rl = Some st' \<Longrightarrow>
     s_phase st' = Ready \<longleftrightarrow> time_is_zero (om_deletion (meta o')) \<and> om_uid (meta o') \<noteq> ''''"
  by (auto simp: SimpleStatus_def split: if_splits)

subsection \<open>The reconcile interface\<close>

text \<open>
  What the manager relies on: a closure keeps the kind of its object, touches no other
  object, allocates nothing, and issues only requests of a known set. \<open>total_reconciler\<close>
  adds that it does not panic on an object of its kind, \<open>stamped_reconciler\<close> that a
  successful run keeps the object's identity and the two labels the manager put on it.
\<close>

locale reconciler =
  fixes rf :: "'w reconcile_func" and reqs :: "request set"
  assumes frame: "rf o' s = Some ((o2, e), s') \<Longrightarrow>
      kind_of o2 = kind_of o' \<and> store s' = store s \<and> next_ref s' = next_ref s"
    and logged: "rf o' s = Some ((o2, e), s') \<Longrightarrow> \<exists>rs. trace s' = trace s @ rs \<and> set rs \<subseteq> reqs"

locale total_reconciler = reconciler +
  fixes kind :: string
  assumes no_panic: "kind_of o' = kind \<Longrightarrow> rf o' s \<noteq> None"

locale stamped_reconciler = reconciler +
  assumes stamped: "rf o' s = Some ((o2, None), s') \<Longrightarrow> carries_labels iid o' \<Longrightarrow> carries_labels iid o2"
    and identity: "rf o' s = Some ((o2, None), s') \<Longrightarrow> object_key o2 = object_key o'"
begin

lemma same_object: "rf o' s = Some ((o2, None), s') \<Longrightarrow> same_identity o' o2"
  using identity frame by (metis same_identity_def)

end

context reconciler
begin

lemma trace_prefix: "rf o' s = Some ((o2, e), s') \<Longrightarrow> r \<in> set (trace s) \<Longrightarrow> r \<in> set (trace s')"
  using logged by fastforce

lemma new_requests: "rf o' s = Some ((o2, e), s') \<Longrightarrow> r \<in> set (drop (length (trace s)) (trace s')) \<Longrightarrow> r \<in> reqs"
  using logged by fastforce

end

interpretation no_op: total_reconciler NoOp "{}" k for k
  by unfold_locales (auto simp: NoOp_def)

interpretation no_op: stamped_reconciler NoOp "{}"
  by unfold_locales (auto simp: NoOp_def)

lemma reconciler_mono:
  assumes "reconciler f R" "R \<subseteq> R'"
  shows "reconciler f R'"
proof (rule reconciler.intro)
  fix o' s o2 e s'
  assume run: "f o' s = Some ((o2, e), s')"
  show "kind_of o2 = kind_of o' \<and> store s' = store s \<and> next_ref s' = next_ref s"
    by (rule reconciler.frame[OF assms(1) run])
  show "\<exists>rs. trace s' = trace s @ rs \<and> set rs \<subseteq> R'"
    using reconciler.logged[OF assms(1) run] assms(2) by blast
qed

end
