(* ===== verification/Managers.thy ===== *)
theory Managers
  imports Managed_Objects
begin

text \<open>
  \<open>pkg/resources/manager.go\<close>: the manager runs every managed object of its clusters through
  \<open>CreateOrUpdate\<close> or through deletion, in order, then its cleaners. Deletion first asks for
  every object that depends on the one to delete.
\<close>

subsection \<open>Data\<close>

record 'w dependency =
  dep_object :: "'w managed_object"
  dep_cluster :: "'w managed_cluster"

record 'w result =
  res_object :: "'w managed_object"
  res_cluster :: "'w managed_cluster"
  res_op :: operation_result
  res_error :: "error option"

type_synonym 'w cleaner = "'w st \<Rightarrow> ('w result list \<times> error option) \<times> 'w st"
type_synonym 'w dependents = "nat \<rightharpoonup> 'w dependency list"

record 'w manager =
  mgr_instance_id :: string
  mgr_clusters :: "'w managed_cluster list"
  mgr_cleaners :: "'w cleaner list"

definition NewManager :: "string \<Rightarrow> 'w manager" where
  "NewManager iid = \<lparr>mgr_instance_id = iid, mgr_clusters = [], mgr_cleaners = []\<rparr>"

definition AddCluster :: "'w managed_cluster \<Rightarrow> 'w manager \<Rightarrow> 'w manager" where
  "AddCluster mc m = m\<lparr>mgr_clusters := mgr_clusters m @ [mc]\<rparr>"

definition AddCleaner :: "'w cleaner \<Rightarrow> 'w manager \<Rightarrow> 'w manager" where
  "AddCleaner c m = m\<lparr>mgr_cleaners := mgr_cleaners m @ [c]\<rparr>"

subsection \<open>Dependents\<close>

definition add_dependent :: "'w managed_cluster \<Rightarrow> 'w managed_object \<Rightarrow> nat \<Rightarrow> 'w dependents \<Rightarrow> 'w dependents" where
  "add_dependent mc mo dep deps =
     (let deps1 = (if deps dep = None then deps(dep \<mapsto> []) else deps)
      in deps1(dep \<mapsto> (case deps1 dep of None \<Rightarrow> [] | Some l \<Rightarrow> l) @ [\<lparr>dep_object = mo, dep_cluster = mc\<rparr>]))"

definition getDependents :: "'w manager \<Rightarrow> 'w dependents" where
  "getDependents m =
     fold (\<lambda>mc. fold (\<lambda>mo. fold (add_dependent mc mo) (GetDependencies mo)) (GetObjects mc))
       (mgr_clusters m) Map.empty"

text \<open>\<open>dependents[mo]\<close>: a missing key gives the nil slice.\<close>

definition dependents_at :: "'w dependents \<Rightarrow> nat \<Rightarrow> 'w dependency list" where
  "dependents_at deps r = (case deps r of None \<Rightarrow> [] | Some l \<Rightarrow> l)"

fun check_loop :: "'w ext \<Rightarrow> 'w dependency list \<Rightarrow> 'w st \<Rightarrow> error list \<times> 'w st" where
  "check_loop x [] s = ([], s)"
| "check_loop x (dep # deps) s =
     (let o' = GetObject (dep_object dep) s;
          ((o2, err), s1) = k_get x (mc_cluster (dep_cluster dep)) (object_key o') o' s;
          s2 = set_object (mo_ref (dep_object dep)) o2 s1;
          (errs, s3) = check_loop x deps s2
      in if is_not_found err then (errs, s3)
         else case err of
                Some e \<Rightarrow> (e # errs, s3)
              | None \<Rightarrow> (Errorf (''dependent object still exists: '' @ ObjectID o2) [] # errs, s3))"

definition checkForDependents :: "'w ext \<Rightarrow> 'w dependency list \<Rightarrow> 'w st \<Rightarrow> error option \<times> 'w st" where
  "checkForDependents x deps s = (let (errs, s1) = check_loop x deps s in (errors_join errs, s1))"

subsection \<open>Reconciliation\<close>

definition reconcileObject :: "'w ext \<Rightarrow> string \<Rightarrow> 'w managed_cluster \<Rightarrow> 'w managed_object
    \<Rightarrow> 'w dependents \<Rightarrow> bool \<Rightarrow> 'w st \<Rightarrow> ('w result \<times> 'w st) option" where
  "reconcileObject x iid mc mo deps isDeletion s =
     (let result = (\<lambda>r e. \<lparr>res_object = mo, res_cluster = mc, res_op = r, res_error = e\<rparr>)
      in if isDeletion then
           (case checkForDependents x (dependents_at deps (mo_ref mo)) s of
              (Some err, s1) \<Rightarrow> Some (result OpNone (Some err), s1)
            | (None, s1) \<Rightarrow>
                if GetDeletionPolicy mo = Orphan then Some (result OpOrphaned None, s1)
                else (case k_delete x (mc_cluster mc) (GetObject mo s1) s1 of
                        (err, s2) \<Rightarrow>
                          if is_not_found err then Some (result OpDeleted None, s2)
                          else Some (result OpDeletionRequested err, s2)))
         else do {
           ((o2, r, err), s1) \<leftarrow>
             CreateOrUpdate x (mc_cluster mc) (GetObject mo s)
               (\<lambda>o'. Reconcile mo (SetInstanceID (SetManagedBy o') iid)) s;
           Some (result r err, set_object (mo_ref mo) o2 s1) })"

fun reconcile_cluster :: "'w ext \<Rightarrow> string \<Rightarrow> 'w managed_cluster \<Rightarrow> 'w dependents \<Rightarrow> bool
    \<Rightarrow> 'w managed_object list \<Rightarrow> 'w st \<Rightarrow> ('w result list \<times> 'w st) option" where
  "reconcile_cluster x iid mc deps isDeletion [] s = Some ([], s)"
| "reconcile_cluster x iid mc deps isDeletion (mo # mos) s = do {
     (r, s1) \<leftarrow> reconcileObject x iid mc mo deps isDeletion s;
     (rs, s2) \<leftarrow> reconcile_cluster x iid mc deps isDeletion mos s1;
     Some (r # rs, s2) }"

fun reconcile_clusters :: "'w ext \<Rightarrow> string \<Rightarrow> 'w dependents \<Rightarrow> bool
    \<Rightarrow> 'w managed_cluster list \<Rightarrow> 'w st \<Rightarrow> ('w result list \<times> 'w st) option" where
  "reconcile_clusters x iid deps isDeletion [] s = Some ([], s)"
| "reconcile_clusters x iid deps isDeletion (mc # mcs) s = do {
     (rs1, s1) \<leftarrow> reconcile_cluster x iid mc deps isDeletion (GetObjects mc) s;
     (rs2, s2) \<leftarrow> reconcile_clusters x iid deps isDeletion mcs s1;
     Some (rs1 @ rs2, s2) }"

fun run_cleaners :: "'w cleaner list \<Rightarrow> 'w result list \<Rightarrow> 'w st \<Rightarrow> ('w result list \<times> error option) \<times> 'w st" where
  "run_cleaners [] results s = ((results, None), s)"
| "run_cleaners (c # cs) results s =
     (case c s of
        ((_, Some err), s1) \<Rightarrow> ((results, Some err), s1)
      | ((rs, None), s1) \<Rightarrow> run_cleaners cs (results @ rs) s1)"

definition reconcileObjects :: "'w ext \<Rightarrow> 'w manager \<Rightarrow> bool \<Rightarrow> 'w st
    \<Rightarrow> (('w result list \<times> error option) \<times> 'w st) option" where
  "reconcileObjects x m isDeletion s = do {
     (results, s1) \<leftarrow>
       reconcile_clusters x (mgr_instance_id m) (getDependents m) isDeletion (mgr_clusters m) s;
     Some (run_cleaners (mgr_cleaners m) results s1) }"

definition Apply :: "'w ext \<Rightarrow> 'w manager \<Rightarrow> 'w st \<Rightarrow> (('w result list \<times> error option) \<times> 'w st) option" where
  "Apply x m = reconcileObjects x m False"

definition DeleteAll :: "'w ext \<Rightarrow> 'w manager \<Rightarrow> 'w st \<Rightarrow> (('w result list \<times> error option) \<times> 'w st) option" where
  "DeleteAll x m = reconcileObjects x m True"

fun AllDeleted :: "'w result list \<Rightarrow> bool" where
  "AllDeleted [] = True"
| "AllDeleted (r # rs) = (if res_op r \<noteq> OpDeleted then False else AllDeleted rs)"

subsection \<open>The dependency map\<close>

lemma dependents_at_empty [simp]: "dependents_at Map.empty r = []"
  by (simp add: dependents_at_def)

lemma dependents_at_add [simp]:
  "dependents_at (add_dependent mc mo d D) r =
     dependents_at D r @ (if d = r then [\<lparr>dep_object = mo, dep_cluster = mc\<rparr>] else [])"
  by (auto simp: dependents_at_def add_dependent_def Let_def split: option.splits)

lemma dependents_at_fold_deps:
  "dependents_at (fold (add_dependent mc mo) ds D) r =
     dependents_at D r @ [\<lparr>dep_object = mo, dep_cluster = mc\<rparr>. d \<leftarrow> ds, d = r]"
  by (induction ds arbitrary: D) auto

lemma dependents_at_fold_objects:
  "dependents_at (fold (\<lambda>mo. fold (add_dependent mc mo) (GetDependencies mo)) mos D) r =
     dependents_at D r @ [\<lparr>dep_object = mo, dep_cluster = mc\<rparr>. mo \<leftarrow> mos, d \<leftarrow> GetDependencies mo, d = r]"
  by (induction mos arbitrary: D)
    (simp_all add: dependents_at_fold_deps)

lemma dependents_at_fold_clusters:
  "dependents_at (fold (\<lambda>mc. fold (\<lambda>mo. fold (add_dependent mc mo) (GetDependencies mo)) (GetObjects mc)) mcs D) r =
     dependents_at D r @
       [\<lparr>dep_object = mo, dep_cluster = mc\<rparr>. mc \<leftarrow> mcs, mo \<leftarrow> GetObjects mc, d \<leftarrow> GetDependencies mo, d = r]"
  by (induction mcs arbitrary: D) (simp_all add: dependents_at_fold_objects)

lemma getDependents_list:
  "dependents_at (getDependents m) r =
     [\<lparr>dep_object = mo, dep_cluster = mc\<rparr>.
        mc \<leftarrow> mgr_clusters m, mo \<leftarrow> GetObjects mc, d \<leftarrow> GetDependencies mo, d = r]"
  by (simp add: getDependents_def dependents_at_fold_clusters)

subsection \<open>The manager as one pass over its targets\<close>

type_synonym 'w target = "'w managed_cluster \<times> 'w managed_object"

definition targets :: "'w manager \<Rightarrow> 'w target list" where
  "targets m = concat (map (\<lambda>mc. map (Pair mc) (GetObjects mc)) (mgr_clusters m))"

fun run_targets :: "'w ext \<Rightarrow> string \<Rightarrow> 'w dependents \<Rightarrow> bool \<Rightarrow> 'w target list \<Rightarrow> 'w st
    \<Rightarrow> ('w result list \<times> 'w st) option" where
  "run_targets x iid D del [] s = Some ([], s)"
| "run_targets x iid D del ((mc, mo) # ts) s = do {
     (r, s1) \<leftarrow> reconcileObject x iid mc mo D del s;
     (rs, s2) \<leftarrow> run_targets x iid D del ts s1;
     Some (r # rs, s2) }"

lemma run_targets_append:
  "run_targets x iid D del (ts @ us) s = do {
     (rs1, s1) \<leftarrow> run_targets x iid D del ts s;
     (rs2, s2) \<leftarrow> run_targets x iid D del us s1;
     Some (rs1 @ rs2, s2) }"
  by (induction ts arbitrary: s) (auto simp: split_beta bind_assoc intro!: Option.bind_cong)

lemma reconcile_cluster_targets:
  "reconcile_cluster x iid mc D del mos s = run_targets x iid D del (map (Pair mc) mos) s"
  by (induction mos arbitrary: s) (auto intro!: Option.bind_cong)

lemma reconcile_clusters_targets:
  "reconcile_clusters x iid D del mcs s =
     run_targets x iid D del (concat (map (\<lambda>mc. map (Pair mc) (GetObjects mc)) mcs)) s"
  by (induction mcs arbitrary: s)
    (simp_all add: run_targets_append reconcile_cluster_targets split_beta)

lemma reconcileObjects_targets:
  "reconcileObjects x m del s = do {
     (rs, s1) \<leftarrow> run_targets x (mgr_instance_id m) (getDependents m) del (targets m) s;
     Some (run_cleaners (mgr_cleaners m) rs s1) }"
  by (simp add: reconcileObjects_def reconcile_clusters_targets targets_def)

lemma mem_dependents:
  "d \<in> set (dependents_at (getDependents m) r) \<longleftrightarrow>
     (dep_cluster d, dep_object d) \<in> set (targets m) \<and> r \<in> set (mo_deps (dep_object d))"
  by (cases d) (auto simp: getDependents_list targets_def GetDependencies_def)

subsection \<open>Looking up the dependents\<close>

definition same_kinds :: "'w st \<Rightarrow> 'w st \<Rightarrow> bool" where
  "same_kinds s s' = (\<forall>r. kind_of (store s' r) = kind_of (store s r))"

lemma same_kinds_refl [simp]: "same_kinds s s"
  by (simp add: same_kinds_def)

lemma same_kinds_trans: "same_kinds s t \<Longrightarrow> same_kinds t u \<Longrightarrow> same_kinds s u"
  by (simp add: same_kinds_def)

lemma same_kinds_set: "kind_of o2 = kind_of (store s r) \<Longrightarrow> store s' = store s \<Longrightarrow> same_kinds s (set_object r o2 s')"
  by (simp add: same_kinds_def)

lemma same_kinds_GetObject: "same_kinds s s' \<Longrightarrow> kind_of (GetObject mo s') = kind_of (GetObject mo s)"
  by (simp add: same_kinds_def GetObject_def)

fun answered_missing :: "request \<Rightarrow> bool" where
  "answered_missing (ReqGet _ _ _ e) = is_not_found e"
| "answered_missing _ = False"

text \<open>
  What a managed object stands for on its cluster, and the target a dependency names. Calls
  that keep the identity of every object in the store keep all items.
\<close>

type_synonym item = "string \<times> string \<times> object_key"

definition item_of :: "'w st \<Rightarrow> 'w target \<Rightarrow> item" where
  "item_of s t = (ch_id (mc_cluster (fst t)), kind_of (GetObject (snd t) s), object_key (GetObject (snd t) s))"

definition dep_target :: "'w dependency \<Rightarrow> 'w target" where
  "dep_target d = (dep_cluster d, dep_object d)"

definition same_ids :: "'w st \<Rightarrow> 'w st \<Rightarrow> bool" where
  "same_ids s s' = (\<forall>r. same_identity (store s r) (store s' r))"

lemma same_ids_refl [simp]: "same_ids s s"
  by (simp add: same_ids_def)

lemma same_ids_trans: "same_ids s t \<Longrightarrow> same_ids t u \<Longrightarrow> same_ids s u"
  by (metis same_ids_def same_identity_trans)

lemma same_ids_item: "same_ids s s' \<Longrightarrow> item_of s' t = item_of s t"
  by (simp add: same_ids_def item_of_def GetObject_def same_identity_def)

text \<open>The lookup and the deletion of a target, under its own cluster, kind and key.\<close>

definition get_item :: "'w st \<Rightarrow> 'w target \<Rightarrow> error option \<Rightarrow> request" where
  "get_item s t e = (case item_of s t of (c, k, key) \<Rightarrow> ReqGet c k key e)"

definition delete_item :: "'w st \<Rightarrow> 'w target \<Rightarrow> error option \<Rightarrow> request" where
  "delete_item s t e = (case item_of s t of (c, k, key) \<Rightarrow> ReqDelete c k key e)"

lemma items_same_ids: "same_ids s s' \<Longrightarrow> get_item s' t e = get_item s t e \<and> delete_item s' t e = delete_item s t e"
  by (simp add: get_item_def delete_item_def same_ids_item)

lemma get_item_simps [simp]: "answered_missing (get_item s t e) = is_not_found e" "get_item s t e \<noteq> ReqDelete c k key a"
  by (simp_all add: get_item_def split: prod.splits)

text \<open>\<open>Get\<close> fills in the object of the key it is asked for.\<close>

definition gets_own_key :: "'w ext \<Rightarrow> bool" where
  "gets_own_key x = (\<forall>c o' w o2 e w'. x_get x c (object_key o') o' w = (o2, e, w') \<longrightarrow>
     object_key (fill o' o2) = object_key o')"

lemma k_get_own:
  assumes "gets_own_key x" "k_get x c (object_key o') o' s = ((o2, e), s')"
  shows "same_identity o' o2"
proof -
  obtain o3 e3 w where "x_get x (ch_id c) (object_key o') o' (world s) = (o3, e3, w)" by (metis prod.exhaust)
  moreover from this have "object_key (fill o' o3) = object_key o'"
    using assms(1) unfolding gets_own_key_def by blast
  ultimately show ?thesis using assms(2) by (auto simp: k_get_def same_identity_def)
qed

text \<open>The request is the lookup of this dependent.\<close>

definition lookup_of :: "'w st \<Rightarrow> 'w dependency \<Rightarrow> request \<Rightarrow> bool" where
  "lookup_of s d q = (\<exists>e. q = get_item s (dep_target d) e)"

lemma lookup_of_same_ids: "same_ids s s' \<Longrightarrow> lookup_of s' = lookup_of s"
  by (intro ext) (simp add: lookup_of_def items_same_ids)

lemma check_loop_frame:
  assumes "check_loop x deps s = (errs, s')"
  shows "same_kinds s s' \<and> next_ref s' = next_ref s"
  using assms
proof (induction deps arbitrary: s errs)
  case Nil
  then show ?case by simp
next
  case (Cons d deps)
  define ob where "ob = GetObject (dep_object d) s"
  obtain o2 err s1 where g: "k_get x (mc_cluster (dep_cluster d)) (object_key ob) ob s = ((o2, err), s1)"
    by (metis prod.exhaust)
  obtain errs2 where l: "check_loop x deps (set_object (mo_ref (dep_object d)) o2 s1) = (errs2, s')"
    using Cons.prems g by (auto simp: ob_def Let_def split: if_splits option.splits prod.splits)
  note f = k_get_frame[OF g]
  have "same_kinds s (set_object (mo_ref (dep_object d)) o2 s1)"
    using f by (intro same_kinds_set) (simp_all add: ob_def GetObject_def)
  with Cons.IH[OF l] f(3) show ?case using same_kinds_trans by auto
qed

text \<open>Every dependent is looked up, in order and under its own key; no error if all are gone.\<close>

lemma check_loop_spec:
  assumes "gets_own_key x" "check_loop x deps s = (errs, s')"
  shows "same_ids s s' \<and> (\<exists>gets. trace s' = trace s @ gets \<and> list_all2 (lookup_of s) deps gets
     \<and> (errs = [] \<longleftrightarrow> list_all answered_missing gets))"
  using assms(2)
proof (induction deps arbitrary: s errs)
  case Nil
  then show ?case by simp
next
  case (Cons d deps)
  define ob where "ob = GetObject (dep_object d) s"
  obtain o2 err s1 where g: "k_get x (mc_cluster (dep_cluster d)) (object_key ob) ob s = ((o2, err), s1)"
    by (metis prod.exhaust)
  define s2 where "s2 = set_object (mo_ref (dep_object d)) o2 s1"
  obtain errs2 where l: "check_loop x deps s2 = (errs2, s')" and r: "errs = [] \<longleftrightarrow> is_not_found err \<and> errs2 = []"
    using Cons.prems g by (auto simp: s2_def ob_def Let_def split: if_splits option.splits prod.splits)
  have ids: "same_ids s s2"
    using k_get_own[OF assms(1) g] k_get_frame(2)[OF g] by (auto simp: s2_def same_ids_def ob_def GetObject_def)
  have tr: "trace s2 = trace s @ [get_item s (dep_target d) err]"
    using k_get_frame(1)[OF g] by (simp add: s2_def get_item_def item_of_def dep_target_def ob_def)
  from Cons.IH[OF l] obtain gets where ih: "same_ids s2 s'" "trace s' = trace s2 @ gets"
    "list_all2 (lookup_of s) deps gets" "errs2 = [] \<longleftrightarrow> list_all answered_missing gets"
    unfolding lookup_of_same_ids[OF ids] by blast
  have "lookup_of s d (get_item s (dep_target d) err)" unfolding lookup_of_def by (rule exI) (rule refl)
  with ih r tr same_ids_trans[OF ids ih(1)] show ?case
    by (intro conjI exI[of _ "get_item s (dep_target d) err # gets"]) simp_all
qed

lemma checkForDependents_spec:
  assumes "gets_own_key x" "checkForDependents x deps s = (e, s')"
  shows "same_ids s s' \<and> (\<exists>gets. trace s' = trace s @ gets \<and> list_all2 (lookup_of s) deps gets
     \<and> (e = None \<longleftrightarrow> list_all answered_missing gets))"
  using assms(2) check_loop_spec[OF assms(1), of deps s]
  by (auto simp: checkForDependents_def split: prod.splits)

subsection \<open>Deleting one object\<close>

lemma delete_never_panics: "reconcileObject x iid mc mo D True s \<noteq> None"
  by (auto simp: reconcileObject_def Let_def split: prod.splits option.splits)

text \<open>
  What one step of a deletion pass appends to the log and reports. Every dependent is looked
  up, in order. If one lookup was not answered "not found", the object is left alone and the
  result carries an error; otherwise an orphaned object is reported deleted without a request,
  and any other object gets exactly one delete request, for itself, whose "not found" answer
  alone is reported as deleted.
\<close>

definition delete_step :: "'w st \<Rightarrow> 'w dependents \<Rightarrow> 'w target \<Rightarrow> 'w result \<Rightarrow> request list \<Rightarrow> bool" where
  "delete_step s D t r seg =
     ((res_cluster r, res_object r) = t \<and>
     (\<exists>gets. list_all2 (lookup_of s) (dependents_at D (mo_ref (snd t))) gets \<and>
      (if \<not> list_all answered_missing gets
       then seg = gets \<and> res_op r = OpNone \<and> res_error r \<noteq> None
       else if mo_policy (snd t) = Orphan
       then seg = gets \<and> res_op r = OpDeleted \<and> res_error r = None
       else \<exists>e. seg = gets @ [delete_item s t e]
            \<and> (if is_not_found e then res_op r = OpDeleted \<and> res_error r = None
               else res_op r = OpDeletionRequested \<and> res_error r = e))))"

lemma delete_step_same_ids: "same_ids s s' \<Longrightarrow> delete_step s' = delete_step s"
  by (intro ext) (simp only: delete_step_def lookup_of_same_ids items_same_ids)

lemma delete_object_frame:
  assumes "reconcileObject x iid mc mo D True s = Some (r, s')"
  shows "same_kinds s s'" "next_ref s' = next_ref s" "(res_cluster r, res_object r) = (mc, mo)"
proof -
  obtain errs s1 where c: "check_loop x (dependents_at D (mo_ref mo)) s = (errs, s1)" by force
  obtain e2 s2 where d: "k_delete x (mc_cluster mc) (GetObject mo s1) s1 = (e2, s2)" by force
  have "s' = s1 \<or> s' = s2"
    using assms c d by (auto simp: reconcileObject_def checkForDependents_def Let_def split: option.splits if_splits)
  moreover note check_loop_frame[OF c]
  moreover have "same_kinds s1 s2" "next_ref s2 = next_ref s1"
    using k_delete_frame[OF d] by (simp_all add: same_kinds_def)
  ultimately show "same_kinds s s'" "next_ref s' = next_ref s" using same_kinds_trans by auto
  show "(res_cluster r, res_object r) = (mc, mo)"
    using assms c d by (auto simp: reconcileObject_def checkForDependents_def Let_def split: option.splits if_splits)
qed

lemma delete_object_step:
  assumes "gets_own_key x" "reconcileObject x iid mc mo D True s = Some (r, s')"
  shows "same_ids s s' \<and> (\<exists>seg. trace s' = trace s @ seg \<and> delete_step s D (mc, mo) r seg)"
proof -
  obtain e s1 where c: "checkForDependents x (dependents_at D (mo_ref mo)) s = (e, s1)" by force
  from checkForDependents_spec[OF assms(1) c] obtain gets where g: "same_ids s s1" "trace s1 = trace s @ gets"
    "list_all2 (lookup_of s) (dependents_at D (mo_ref mo)) gets" "e = None \<longleftrightarrow> list_all answered_missing gets" by blast
  obtain e2 s2 where d: "k_delete x (mc_cluster mc) (GetObject mo s1) s1 = (e2, s2)" by force
  have t: "trace s2 = trace s1 @ [delete_item s (mc, mo) e2]" "same_ids s s2"
    using k_delete_frame(1,2)[OF d] items_same_ids[OF g(1), of "(mc, mo)" e2] g(1)
    by (simp_all add: delete_item_def item_of_def same_ids_def)
  note own = delete_object_frame(3)[OF assms(2)]
  consider (blocked) "e \<noteq> None" | (orphan) "e = None" "mo_policy mo = Orphan" | (deleted) "e = None" "mo_policy mo \<noteq> Orphan"
    by blast
  then show ?thesis
  proof cases
    case blocked
    then have "s' = s1 \<and> res_op r = OpNone \<and> res_error r \<noteq> None"
      using assms(2) c by (auto simp: reconcileObject_def Let_def)
    with blocked g own show ?thesis by (auto simp: delete_step_def)
  next
    case orphan
    then have "s' = s1 \<and> res_op r = OpDeleted \<and> res_error r = None"
      using assms(2) c by (auto simp: reconcileObject_def GetDeletionPolicy_def OpOrphaned_def Let_def)
    with orphan g own show ?thesis by (auto simp: delete_step_def)
  next
    case deleted
    then have "s' = s2 \<and> (if is_not_found e2 then res_op r = OpDeleted \<and> res_error r = None
        else res_op r = OpDeletionRequested \<and> res_error r = e2)"
      using assms(2) c d by (auto simp: reconcileObject_def GetDeletionPolicy_def Let_def split: if_splits)
    then have "delete_step s D (mc, mo) r (gets @ [delete_item s (mc, mo) e2])"
      using deleted g(3,4) own unfolding delete_step_def snd_conv by (metis (full_types))
    with \<open>s' = s2 \<and> _\<close> g(2) t show ?thesis by auto
  qed
qed

subsection \<open>A deletion pass\<close>

lemma run_delete_total: "run_targets x iid D True ts s \<noteq> None"
proof (induction ts arbitrary: s)
  case Nil
  then show ?case by simp
next
  case (Cons t ts)
  obtain mc mo where t: "t = (mc, mo)" by force
  obtain r s1 where "reconcileObject x iid mc mo D True s = Some (r, s1)"
    using delete_never_panics[of x iid mc mo D s] by auto
  moreover obtain rs s2 where "run_targets x iid D True ts s1 = Some (rs, s2)"
    using Cons[of s1] by auto
  ultimately show ?case by (simp add: t)
qed

lemma run_delete_frame:
  assumes "run_targets x iid D True ts s = Some (rs, s')"
  shows "same_kinds s s' \<and> next_ref s' = next_ref s \<and> map (\<lambda>r. (res_cluster r, res_object r)) rs = ts"
  using assms
proof (induction ts arbitrary: s rs)
  case Nil
  then show ?case by simp
next
  case (Cons t ts)
  obtain mc mo where t: "t = (mc, mo)" by force
  from Cons.prems t obtain r s1 rs1 where r: "reconcileObject x iid mc mo D True s = Some (r, s1)"
    and rs: "run_targets x iid D True ts s1 = Some (rs1, s')" "rs = r # rs1" by auto
  from delete_object_frame[OF r] Cons.IH[OF rs(1)] rs(2) t show ?case using same_kinds_trans by auto
qed

lemma run_delete_steps:
  assumes "gets_own_key x" "run_targets x iid D True ts s = Some (rs, s')"
  shows "same_ids s s' \<and> (\<exists>segs. trace s' = trace s @ concat segs \<and> length rs = length ts \<and> length segs = length ts
    \<and> (\<forall>i < length ts. delete_step s D (ts ! i) (rs ! i) (segs ! i)))"
  using assms(2)
proof (induction ts arbitrary: s rs)
  case Nil
  then show ?case by simp
next
  case (Cons t ts)
  obtain mc mo where t: "t = (mc, mo)" by force
  from Cons.prems t obtain r s1 rs1 where r: "reconcileObject x iid mc mo D True s = Some (r, s1)"
    and rs: "run_targets x iid D True ts s1 = Some (rs1, s')" "rs = r # rs1" by auto
  from delete_object_step[OF assms(1) r] obtain seg where seg: "same_ids s s1" "trace s1 = trace s @ seg" "delete_step s D t r seg"
    unfolding t by blast
  from Cons.IH[OF rs(1)] obtain segs where ih: "same_ids s1 s'" "trace s' = trace s1 @ concat segs"
    "length rs1 = length ts" "length segs = length ts"
    "\<forall>i < length ts. delete_step s D (ts ! i) (rs1 ! i) (segs ! i)"
    unfolding delete_step_same_ids[OF seg(1)] by blast
  have "\<forall>i < length (t # ts). delete_step s D ((t # ts) ! i) (rs ! i) ((seg # segs) ! i)"
    using seg(3) ih(5) rs(2) by (auto simp: nth_Cons split: nat.split)
  with seg ih rs(2) show ?case
    by (intro conjI exI[of _ "seg # segs"]) (auto intro: same_ids_trans)
qed

subsection \<open>The cleaner interface\<close>

text \<open>
  \<open>OrphanCleaner\<close>: a cleaner issues requests of a known set, leaves the managed objects
  alone, and its results are cleanup errors only.
\<close>

locale orphan_cleaner =
  fixes cl :: "'w cleaner" and creqs :: "request set"
  assumes logged: "cl s = ((rs, e), s') \<Longrightarrow> \<exists>q. trace s' = trace s @ q \<and> set q \<subseteq> creqs"
    and keeps_objects: "cl s = ((rs, e), s') \<Longrightarrow>
          next_ref s \<le> next_ref s' \<and> (\<forall>r < next_ref s. store s' r = store s r)"
    and failures: "cl s = ((rs, e), s') \<Longrightarrow> r \<in> set rs \<Longrightarrow> res_error r \<noteq> None \<and> res_op r = OpDeletionFailed"
begin

lemma not_all_deleted: "cl s = ((rs, e), s') \<Longrightarrow> AllDeleted rs \<Longrightarrow> rs = []"
  using failures by (cases rs) (fastforce split: if_splits)+

end

lemma AllDeleted_iff: "AllDeleted rs \<longleftrightarrow> (\<forall>r \<in> set rs. res_op r = OpDeleted)"
  by (induction rs) auto

lemma run_cleaners_spec:
  assumes "run_cleaners cs rs0 s = ((rs, e), s')" and "\<forall>c \<in> set cs. orphan_cleaner c R"
  shows "\<exists>q extra. trace s' = trace s @ q \<and> set q \<subseteq> R \<and> rs = rs0 @ extra
     \<and> (\<forall>r \<in> set extra. res_error r \<noteq> None \<and> res_op r = OpDeletionFailed)
     \<and> next_ref s \<le> next_ref s' \<and> (\<forall>r < next_ref s. store s' r = store s r)"
  using assms
proof (induction cs arbitrary: rs0 s)
  case Nil
  then show ?case by simp
next
  case (Cons c cs)
  obtain rs1 e1 s1 where c: "c s = ((rs1, e1), s1)" by (metis prod.exhaust)
  have oc: "orphan_cleaner c R" using Cons.prems(2) by simp
  note logged = orphan_cleaner.logged[OF oc] and keeps_objects = orphan_cleaner.keeps_objects[OF oc]
    and failures = orphan_cleaner.failures[OF oc]
  from logged[OF c] obtain q1 where q1: "trace s1 = trace s @ q1" "set q1 \<subseteq> R" by blast
  note k = keeps_objects[OF c]
  show ?case
  proof (cases e1)
    case (Some err)
    with Cons.prems(1) c have "rs = rs0" "s' = s1" by auto
    with q1 k show ?thesis by auto
  next
    case None
    with Cons.prems(1) c have "run_cleaners cs (rs0 @ rs1) s1 = ((rs, e), s')" by simp
    from Cons.IH[OF this] Cons.prems(2) obtain q extra where
      "trace s' = trace s1 @ q" "set q \<subseteq> R" "rs = (rs0 @ rs1) @ extra"
      "\<forall>r \<in> set extra. res_error r \<noteq> None \<and> res_op r = OpDeletionFailed"
      "next_ref s1 \<le> next_ref s'" "\<forall>r < next_ref s1. store s' r = store s1 r" by auto
    with q1 k failures[OF c] show ?thesis
      by (intro exI[of _ "q1 @ q"] exI[of _ "rs1 @ extra"]) auto
  qed
qed

subsection \<open>Deletion passes are safe\<close>

definition depends_on :: "'w manager \<Rightarrow> 'w dependency \<Rightarrow> 'w managed_object \<Rightarrow> bool" where
  "depends_on m d mo =
     ((dep_cluster d, dep_object d) \<in> set (targets m) \<and> mo_ref mo \<in> set (mo_deps (dep_object d)))"

lemma dependents_set: "d \<in> set (dependents_at (getDependents m) (mo_ref mo)) \<longleftrightarrow> depends_on m d mo"
  by (simp add: mem_dependents depends_on_def)

lemma lookups_complete:
  assumes "list_all2 (lookup_of s) ds gets" "list_all answered_missing gets" "d \<in> set ds"
  shows "\<exists>q \<in> set gets. lookup_of s d q \<and> answered_missing q"
  using assms by (induction rule: list_all2_induct) auto

lemma lookup_no_delete: "\<not> lookup_of s d (ReqDelete c k key e)"
  unfolding lookup_of_def using get_item_simps(2) by metis

lemma lookups_no_delete: "list_all2 (lookup_of s) ds gets \<Longrightarrow> ReqDelete c k key e \<notin> set gets"
  by (induction rule: list_all2_induct) (auto simp: lookup_no_delete)

text \<open>
  A log position with a delete request: the managed object it is for, by cluster, kind and
  key, and that all its dependents were seen gone before.
\<close>

definition delete_justified :: "'w st \<Rightarrow> 'w manager \<Rightarrow> request list \<Rightarrow> item \<Rightarrow> bool" where
  "delete_justified s m before i =
     (\<exists>t \<in> set (targets m). mo_policy (snd t) \<noteq> Orphan \<and> item_of s t = i
        \<and> (\<forall>d. depends_on m d (snd t) \<longrightarrow> (\<exists>q \<in> set before. lookup_of s d q \<and> answered_missing q)))"

lemma delete_justified_mono: "delete_justified s m b i \<Longrightarrow> set b \<subseteq> set b' \<Longrightarrow> delete_justified s m b' i"
  unfolding delete_justified_def by blast

lemma step_justified:
  assumes "delete_step s (getDependents m) t r seg" "t \<in> set (targets m)"
    "seg = pre @ ReqDelete c k key ans # post"
  shows "delete_justified s m pre (c, k, key)"
proof -
  from assms(1) obtain gets where g: "list_all2 (lookup_of s) (dependents_at (getDependents m) (mo_ref (snd t))) gets"
    and sg: "seg = gets \<or> (list_all answered_missing gets \<and> mo_policy (snd t) \<noteq> Orphan \<and> (\<exists>e. seg = gets @ [delete_item s t e]))"
    unfolding delete_step_def by (auto split: if_splits)
  have "ReqDelete c k key ans \<in> set seg" using assms(3) by simp
  then have "seg \<noteq> gets" using lookups_no_delete[OF g, of c k key ans] by blast
  with sg obtain e where all: "list_all answered_missing gets" "mo_policy (snd t) \<noteq> Orphan"
    and sg: "seg = gets @ [delete_item s t e]" by blast
  have "post = []"
  proof (rule ccontr)
    assume "post \<noteq> []"
    then obtain us u where "post = us @ [u]" by (cases post rule: rev_cases) auto
    with sg assms(3) have "gets = pre @ ReqDelete c k key ans # us" by simp
    then have "ReqDelete c k key ans \<in> set gets" by simp
    with lookups_no_delete[OF g] show False by blast
  qed
  with sg assms(3) have "pre = gets" "delete_item s t e = ReqDelete c k key ans" by auto
  moreover from this(2) have "item_of s t = (c, k, key)" by (auto simp: delete_item_def split: prod.splits)
  ultimately show ?thesis
    unfolding delete_justified_def using assms(2) all lookups_complete[OF g all(1)] dependents_set by metis
qed

lemma concat_split_at:
  assumes "concat segs = pre @ x # post"
  shows "\<exists>i < length segs. \<exists>a b. segs ! i = a @ x # b \<and> set a \<subseteq> set pre"
  using assms
proof (induction segs arbitrary: pre)
  case Nil
  then show ?case by simp
next
  case (Cons seg segs)
  show ?case
  proof (cases "length pre < length seg")
    case True
    with Cons.prems obtain us where us: "seg = pre @ us" "us @ concat segs = x # post"
      by (auto simp: append_eq_append_conv2)
    with True obtain b where "us = x # b" by (cases us) auto
    with us show ?thesis by (intro exI[of _ 0]) auto
  next
    case False
    with Cons.prems obtain pre' where "pre = seg @ pre'" "concat segs = pre' @ x # post"
      by (auto simp: append_eq_append_conv2)
    with Cons.IH[of pre'] show ?thesis by (metis Suc_less_eq Un_iff length_Cons nth_Cons_Suc set_append subset_iff)
  qed
qed

lemma DeleteAll_run:
  assumes "DeleteAll x m s = Some ((rs, e), s')" "\<forall>c \<in> set (mgr_cleaners m). orphan_cleaner c R" "gets_own_key x"
  obtains segs rs1 extra q where
    "trace s' = trace s @ concat segs @ q" "set q \<subseteq> R" "rs = rs1 @ extra"
    "length rs1 = length (targets m)" "length segs = length (targets m)"
    "\<forall>i < length (targets m). delete_step s (getDependents m) (targets m ! i) (rs1 ! i) (segs ! i)"
    "\<forall>r \<in> set extra. res_error r \<noteq> None \<and> res_op r = OpDeletionFailed"
proof -
  from assms(1) obtain rs1 s1 where r: "run_targets x (mgr_instance_id m) (getDependents m) True (targets m) s = Some (rs1, s1)"
    and c: "run_cleaners (mgr_cleaners m) rs1 s1 = ((rs, e), s')"
    by (auto simp: DeleteAll_def reconcileObjects_targets)
  from run_delete_steps[OF assms(3) r] run_cleaners_spec[OF c assms(2)] show ?thesis using that
    by (elim exE conjE) (metis append.assoc)
qed

lemma deletion_pass_log:
  assumes "DeleteAll x m s = Some ((rs, e), s')" "\<forall>c \<in> set (mgr_cleaners m). orphan_cleaner c R" "gets_own_key x"
  shows "\<exists>log clean. trace s' = trace s @ log @ clean \<and> set clean \<subseteq> R \<and>
    (\<forall>pre c k key ans post. log = pre @ ReqDelete c k key ans # post \<longrightarrow> delete_justified s m pre (c, k, key))"
proof -
  from DeleteAll_run[OF assms] obtain segs rs1 q where
    tr: "trace s' = trace s @ concat segs @ q" "set q \<subseteq> R" "length segs = length (targets m)"
    and st: "\<forall>i < length (targets m). delete_step s (getDependents m) (targets m ! i) (rs1 ! i) (segs ! i)"
    by metis
  have "delete_justified s m pre (c, k, key)" if "concat segs = pre @ ReqDelete c k key ans # post" for pre c k key ans post
  proof -
    from concat_split_at[OF that] obtain i a b where i: "i < length segs"
      "segs ! i = a @ ReqDelete c k key ans # b" "set a \<subseteq> set pre" by blast
    with st tr(3) have "delete_justified s m a (c, k, key)"
      by (metis nth_mem step_justified)
    with i(3) show ?thesis by (rule delete_justified_mono[rotated])
  qed
  with tr show ?thesis by blast
qed

text \<open>
  C3. Deletion is safe. On servers whose lookups answer for the key they were asked for, and
  whatever else they answer, a deletion pass of a manager issues a delete request only under
  the cluster, kind and key of a managed object whose policy is not to orphan it, and only
  after every managed object that depends on it was looked up, under its own cluster, kind and
  key, and answered "not found". What follows in the log comes from the cleaners.
\<close>

theorem deletion_pass_safe:
  assumes "DeleteAll x m s = Some ((rs, e), s')" "\<forall>c \<in> set (mgr_cleaners m). orphan_cleaner c R" "gets_own_key x"
  shows "\<exists>log clean. trace s' = trace s @ log @ clean \<and> set clean \<subseteq> R \<and>
    (\<forall>pre c k key ans post. log = pre @ ReqDelete c k key ans # post \<longrightarrow> delete_justified s m pre (c, k, key))"
  using assms by (rule deletion_pass_log)

text \<open>What a log shows of a managed object that is gone: its own deletion and the lookups of its dependents.\<close>

definition seen_gone :: "'w st \<Rightarrow> 'w manager \<Rightarrow> request set \<Rightarrow> 'w target \<Rightarrow> bool" where
  "seen_gone s m new t =
     ((mo_policy (snd t) \<noteq> Orphan \<longrightarrow> (\<exists>ans. is_not_found ans \<and> delete_item s t ans \<in> new))
     \<and> (\<forall>d. depends_on m d (snd t) \<longrightarrow> (\<exists>q \<in> new. lookup_of s d q \<and> answered_missing q)))"

lemma seen_gone_mono: "seen_gone s m new t \<Longrightarrow> new \<subseteq> new' \<Longrightarrow> seen_gone s m new' t"
  unfolding seen_gone_def by blast

lemma step_seen_gone:
  assumes "delete_step s (getDependents m) t r seg" "res_op r = OpDeleted"
  shows "seen_gone s m (set seg) t"
proof -
  from assms obtain gets where g: "list_all2 (lookup_of s) (dependents_at (getDependents m) (mo_ref (snd t))) gets"
    and all: "list_all answered_missing gets" and sub: "set gets \<subseteq> set seg"
    and del: "mo_policy (snd t) \<noteq> Orphan \<longrightarrow> (\<exists>ans. is_not_found ans \<and> delete_item s t ans \<in> set seg)"
    unfolding delete_step_def by (auto split: if_splits)
  show ?thesis
    unfolding seen_gone_def
    using del sub lookups_complete[OF g all] by (meson dependents_set subsetD)
qed

lemma all_deleted_gone:
  assumes "DeleteAll x m s = Some ((rs, None), s')" "AllDeleted rs"
    and "\<forall>c \<in> set (mgr_cleaners m). orphan_cleaner c R" "gets_own_key x"
  shows "length rs = length (targets m) \<and>
    (\<exists>new. trace s' = trace s @ new \<and> (\<forall>t \<in> set (targets m). seen_gone s m (set new) t))"
proof -
  from DeleteAll_run[OF assms(1,3,4)] obtain segs rs1 extra q where
    tr: "trace s' = trace s @ concat segs @ q" "rs = rs1 @ extra" "length rs1 = length (targets m)"
      "length segs = length (targets m)"
    and st: "\<forall>i < length (targets m). delete_step s (getDependents m) (targets m ! i) (rs1 ! i) (segs ! i)"
    and ex: "\<forall>r \<in> set extra. res_error r \<noteq> None \<and> res_op r = OpDeletionFailed" by metis
  have "extra = []" using assms(2) ex tr(2) by (cases extra) (auto simp: AllDeleted_iff)
  moreover have "seen_gone s m (set (concat segs @ q)) t" if "t \<in> set (targets m)" for t
  proof -
    from that obtain i where i: "i < length (targets m)" "targets m ! i = t" by (metis in_set_conv_nth)
    have "res_op (rs1 ! i) = OpDeleted" using i assms(2) tr(2,3) by (simp add: AllDeleted_iff)
    with st i have "seen_gone s m (set (segs ! i)) t" using step_seen_gone by metis
    moreover have "segs ! i \<in> set segs" using i tr(4) by simp
    then have "set (segs ! i) \<subseteq> set (concat segs @ q)" by auto
    ultimately show ?thesis by (rule seen_gone_mono)
  qed
  ultimately show ?thesis using tr by auto
qed

subsection \<open>An apply pass\<close>

definition well_behaved :: "request set \<Rightarrow> 'w managed_object \<Rightarrow> bool" where
  "well_behaved R mo = (case mo_reconcile mo of None \<Rightarrow> True | Some f \<Rightarrow> stamped_reconciler f R)"

lemma well_behaved_Reconcile: "well_behaved R mo \<Longrightarrow> stamped_reconciler (Reconcile mo) R"
proof (cases "mo_reconcile mo")
  case None
  then have "Reconcile mo = NoOp" by (intro ext) (simp add: Reconcile_def NoOp_def)
  moreover have "stamped_reconciler NoOp R"
    by unfold_locales (auto simp: NoOp_def)
  ultimately show ?thesis by simp
next
  case (Some f)
  then have "Reconcile mo = f" by (intro ext) (simp add: Reconcile_def)
  with Some show "well_behaved R mo \<Longrightarrow> ?thesis" by (simp add: well_behaved_def)
qed

text \<open>
  What one step of an apply pass appends to the log: the fetch, requests of the reconcile
  closure, and at most one write, of the same object with both labels.
\<close>

definition fetch_of :: "'w st \<Rightarrow> 'w target \<Rightarrow> request" where
  "fetch_of s t = (case t of (mc, mo) \<Rightarrow>
     ReqFetch (ch_id (mc_cluster mc)) (kind_of (GetObject mo s)) (object_key (GetObject mo s)))"

definition apply_log :: "'w st \<Rightarrow> string \<Rightarrow> request set \<Rightarrow> 'w target \<Rightarrow> request list \<Rightarrow> bool" where
  "apply_log s iid R t seg =
     (\<exists>own wr. seg = fetch_of s t # own @ wr \<and> set own \<subseteq> R \<and>
        (wr = [] \<or> (\<exists>o2. wr = [ReqPersist (ch_id (mc_cluster (fst t))) o2] \<and> carries_labels iid o2
                      \<and> kind_of o2 = kind_of (GetObject (snd t) s))))"

text \<open>The states inside one step, and the step itself: no fetch, or a run of the closure.\<close>

definition fetched :: "'w managed_cluster \<Rightarrow> client_object \<Rightarrow> 'w \<Rightarrow> 'w st \<Rightarrow> 'w st" where
  "fetched mc o0 w s = log_request (ReqFetch (ch_id (mc_cluster mc)) (kind_of o0) (object_key o0)) (s\<lparr>world := w\<rparr>)"

definition persisted :: "'w managed_cluster \<Rightarrow> client_object \<Rightarrow> error option \<Rightarrow> 'w st \<Rightarrow> 'w st" where
  "persisted mc o2 e s = (if e = None then log_request (ReqPersist (ch_id (mc_cluster mc)) o2) s else s)"

lemma fetched_simps [simp]:
  "trace (fetched mc o0 w s) = trace s @ [ReqFetch (ch_id (mc_cluster mc)) (kind_of o0) (object_key o0)]"
  "world (fetched mc o0 w s) = w" "store (fetched mc o0 w s) = store s" "next_ref (fetched mc o0 w s) = next_ref s"
  by (simp_all add: fetched_def)

lemma persisted_simps [simp]:
  "trace (persisted mc o2 e s) = trace s @ (if e = None then [ReqPersist (ch_id (mc_cluster mc)) o2] else [])"
  "world (persisted mc o2 e s) = world s" "store (persisted mc o2 e s) = store s"
  "next_ref (persisted mc o2 e s) = next_ref s"
  by (simp_all add: persisted_def)

lemma apply_object_cases:
  assumes "reconcileObject x iid mc mo D False s = Some (r, s')"
  obtains (not_fetched) o1 e w1 where
      "x_cou_begin x (ch_id (mc_cluster mc)) (GetObject mo s) (world s) = (o1, Some e, w1)"
      "r = \<lparr>res_object = mo, res_cluster = mc, res_op = OpNone, res_error = Some e\<rparr>"
      "s' = set_object (mo_ref mo) (fill (GetObject mo s) o1) (fetched mc (GetObject mo s) w1 s)"
  | (ran) o1 w1 o2 e2 s2 o3 r3 e3 w3 where
      "x_cou_begin x (ch_id (mc_cluster mc)) (GetObject mo s) (world s) = (o1, None, w1)"
      "Reconcile mo (stamp iid (fill (GetObject mo s) o1)) (fetched mc (GetObject mo s) w1 s) = Some ((o2, e2), s2)"
      "x_cou_finish x (ch_id (mc_cluster mc)) (fill (GetObject mo s) o1) o2 e2 (world s2) = (o3, r3, e3, w3)"
      "r = \<lparr>res_object = mo, res_cluster = mc, res_op = r3, res_error = e3\<rparr>"
      "s' = set_object (mo_ref mo) (fill o2 o3) (persisted mc o2 e2 s2\<lparr>world := w3\<rparr>)"
proof -
  define o0 where "o0 = GetObject mo s"
  obtain o1 e1 w1 where b: "x_cou_begin x (ch_id (mc_cluster mc)) o0 (world s) = (o1, e1, w1)"
    by (metis prod.exhaust)
  show thesis
  proof (cases e1)
    case (Some e)
    with assms b show thesis
      by (intro not_fetched[of o1 e w1])
        (auto simp: reconcileObject_def CreateOrUpdate_def o0_def fetched_def Let_def)
  next
    case None
    define oc where "oc = stamp iid (fill o0 o1)"
    obtain o2 e2 s2 where f: "Reconcile mo oc (fetched mc o0 w1 s) = Some ((o2, e2), s2)"
      using assms b None by (cases "Reconcile mo oc (fetched mc o0 w1 s)")
        (auto simp: reconcileObject_def CreateOrUpdate_def o0_def fetched_def oc_def stamp_def Let_def)
    obtain o3 r3 e3 w3 where fin: "x_cou_finish x (ch_id (mc_cluster mc)) (fill o0 o1) o2 e2
        (world (persisted mc o2 e2 s2)) = (o3, r3, e3, w3)"
      by (metis prod.exhaust)
    have "r = \<lparr>res_object = mo, res_cluster = mc, res_op = r3, res_error = e3\<rparr>"
      "s' = set_object (mo_ref mo) (fill o2 o3) (persisted mc o2 e2 s2\<lparr>world := w3\<rparr>)"
      using assms b None f fin by (auto simp: reconcileObject_def CreateOrUpdate_def o0_def[symmetric]
          fetched_def[symmetric] stamp_def[symmetric] oc_def[symmetric] persisted_def[symmetric] Let_def)
    with b None f fin show thesis
      by (intro ran[of o1 w1 o2 e2 s2 o3 r3 e3 w3]) (simp_all add: o0_def oc_def)
  qed
qed

lemma apply_object_spec:
  assumes run: "reconcileObject x iid mc mo D False s = Some (r, s')" and wb: "well_behaved R mo"
  shows "res_object r = mo \<and> res_cluster r = mc"
    and "\<exists>seg. trace s' = trace s @ seg \<and> apply_log s iid R (mc, mo) seg"
    and "kind_of (GetObject mo s') = kind_of (GetObject mo s)"
    and "\<And>p. p \<noteq> mo_ref mo \<Longrightarrow> store s' p = store s p"
    and "next_ref s' = next_ref s"
proof -
  note st = well_behaved_Reconcile[OF wb]
  note rc = stamped_reconciler.axioms(1)[OF st]
  have "res_object r = mo \<and> res_cluster r = mc \<and>
    (\<exists>seg. trace s' = trace s @ seg \<and> apply_log s iid R (mc, mo) seg) \<and>
    kind_of (GetObject mo s') = kind_of (GetObject mo s) \<and>
    (\<forall>p. p \<noteq> mo_ref mo \<longrightarrow> store s' p = store s p) \<and> next_ref s' = next_ref s"
    using run
  proof (cases rule: apply_object_cases)
    case (not_fetched o1 e w1)
    have "apply_log s iid R (mc, mo) [fetch_of s (mc, mo)]" by (simp add: apply_log_def)
    with not_fetched(2,3) show ?thesis by (auto simp: GetObject_def fetch_of_def)
  next
    case (ran o1 w1 o2 e2 s2 o3 r3 e3 w3)
    note fr = reconciler.frame[OF rc ran(2)]
    from reconciler.logged[OF rc ran(2)] obtain own where
      own: "trace s2 = trace (fetched mc (GetObject mo s) w1 s) @ own" "set own \<subseteq> R" by blast
    have kind: "kind_of o2 = kind_of (GetObject mo s)" using fr by simp
    have lab: "e2 = None \<Longrightarrow> carries_labels iid o2"
      using stamped_reconciler.stamped[OF st] ran(2) carries_labels_stamp by blast
    define wr where "wr = (if e2 = None then [ReqPersist (ch_id (mc_cluster mc)) o2] else [])"
    have "trace s' = trace s @ fetch_of s (mc, mo) # own @ wr"
      using ran(5) own(1) by (simp add: wr_def fetch_of_def)
    moreover have "apply_log s iid R (mc, mo) (fetch_of s (mc, mo) # own @ wr)"
      unfolding apply_log_def using own(2) lab kind
      by (intro exI[of _ own] exI[of _ wr]) (auto simp: wr_def)
    ultimately show ?thesis using ran(4,5) kind fr by (auto simp: GetObject_def)
  qed
  then show "res_object r = mo \<and> res_cluster r = mc"
    and "\<exists>seg. trace s' = trace s @ seg \<and> apply_log s iid R (mc, mo) seg"
    and "kind_of (GetObject mo s') = kind_of (GetObject mo s)"
    and "\<And>p. p \<noteq> mo_ref mo \<Longrightarrow> store s' p = store s p"
    and "next_ref s' = next_ref s" by blast+
qed

lemma run_apply_steps:
  assumes "run_targets x iid D False ts s = Some (rs, s')" "\<forall>t \<in> set ts. well_behaved R (snd t)"
    and "distinct (map (mo_ref \<circ> snd) ts)"
  shows "\<exists>segs. trace s' = trace s @ concat segs \<and> length rs = length ts
    \<and> map (\<lambda>r. (res_cluster r, res_object r)) rs = ts
    \<and> list_all2 (apply_log s iid R) ts segs
    \<and> same_kinds s s' \<and> next_ref s' = next_ref s
    \<and> (\<forall>p. p \<notin> (mo_ref \<circ> snd) ` set ts \<longrightarrow> store s' p = store s p)"
  using assms
proof (induction ts arbitrary: s rs)
  case Nil
  then show ?case by simp
next
  case (Cons t ts)
  obtain mc mo where t: "t = (mc, mo)" by force
  from Cons.prems t obtain r s1 rs1 where r: "reconcileObject x iid mc mo D False s = Some (r, s1)"
    and rs: "run_targets x iid D False ts s1 = Some (rs1, s')" "rs = r # rs1" by auto
  have wb: "well_behaved R mo" using Cons.prems(2) t by simp
  note f = apply_object_spec[OF r wb]
  obtain seg where seg: "trace s1 = trace s @ seg" "apply_log s iid R t seg" using f(2) t by blast
  have k1: "same_kinds s s1" unfolding same_kinds_def using f(3,4) by (metis GetObject_def)
  from Cons.IH[OF rs(1)] Cons.prems(2,3) obtain segs where ih: "trace s' = trace s1 @ concat segs"
    "length rs1 = length ts" "map (\<lambda>r. (res_cluster r, res_object r)) rs1 = ts"
    "list_all2 (apply_log s1 iid R) ts segs" "same_kinds s1 s'" "next_ref s' = next_ref s1"
    "\<forall>p. p \<notin> (mo_ref \<circ> snd) ` set ts \<longrightarrow> store s' p = store s1 p" by auto
  have "apply_log s1 iid R u = apply_log s iid R u" if "u \<in> set ts" for u
  proof -
    have "mo_ref mo \<notin> (\<lambda>a. mo_ref (snd a)) ` set ts" using Cons.prems(3) t by (simp add: comp_def)
    with that have "mo_ref (snd u) \<noteq> mo_ref mo" by (metis imageI)
    with f(4) have "GetObject (snd u) s1 = GetObject (snd u) s" by (simp add: GetObject_def)
    then show ?thesis by (cases u) (simp add: apply_log_def fetch_of_def fun_eq_iff)
  qed
  with ih(4) have "list_all2 (apply_log s iid R) ts segs"
    by (simp add: list_all2_conv_all_nth)
  with seg ih f k1 rs(2) t show ?case
    by (intro exI[of _ "seg # segs"]) (auto intro: same_kinds_trans)
qed

fun is_fetch :: "request \<Rightarrow> bool" where
  "is_fetch (ReqFetch _ _ _) = True"
| "is_fetch _ = False"

fun is_delete :: "request \<Rightarrow> bool" where
  "is_delete (ReqDelete _ _ _ _) = True"
| "is_delete _ = False"

fun is_persist :: "request \<Rightarrow> bool" where
  "is_persist (ReqPersist _ _) = True"
| "is_persist _ = False"

text \<open>Reconcile closures never issue requests of these three kinds themselves.\<close>

definition reads_only :: "request set \<Rightarrow> bool" where
  "reads_only R = (\<forall>q \<in> R. \<not> is_fetch q \<and> \<not> is_delete q \<and> \<not> is_persist q)"

lemma is_fetch_fetch_of [simp]: "is_fetch (fetch_of s t)" "\<not> is_delete (fetch_of s t)" "\<not> is_persist (fetch_of s t)"
  by (simp_all add: fetch_of_def split: prod.splits)

lemma apply_log_fetches:
  assumes "list_all2 (apply_log s iid R) ts segs" "reads_only R"
  shows "filter is_fetch (concat segs) = map (fetch_of s) ts"
  using assms(1)
proof (induction rule: list_all2_induct)
  case Nil
  then show ?case by simp
next
  case (Cons t ts seg segs)
  from Cons(1) obtain own wr where seg: "seg = fetch_of s t # own @ wr" "set own \<subseteq> R"
    "wr = [] \<or> (\<exists>o2. wr = [ReqPersist (ch_id (mc_cluster (fst t))) o2])" unfolding apply_log_def by blast
  have "filter is_fetch own = []" using seg(2) assms(2) by (auto simp: filter_empty_conv reads_only_def)
  moreover have "filter is_fetch wr = []" using seg(3) by auto
  ultimately show ?case using Cons(3) seg(1) by simp
qed

lemma apply_log_persists:
  assumes "list_all2 (apply_log s iid R) ts segs" "reads_only R" "ReqPersist c o2 \<in> set (concat segs)"
  shows "carries_labels iid o2 \<and> (\<exists>t \<in> set ts. c = ch_id (mc_cluster (fst t)) \<and> kind_of o2 = kind_of (GetObject (snd t) s))"
  using assms(1,3)
proof (induction rule: list_all2_induct)
  case Nil
  then show ?case by simp
next
  case (Cons t ts seg segs)
  show ?case
  proof (cases "ReqPersist c o2 \<in> set (concat segs)")
    case True
    with Cons(3) show ?thesis by auto
  next
    case False
    with Cons.prems have "ReqPersist c o2 \<in> set seg" by simp
    moreover have "ReqPersist c o2 \<notin> R" using assms(2) is_persist.simps(1) unfolding reads_only_def by blast
    ultimately show ?thesis
      using Cons(1) unfolding apply_log_def by (auto simp: fetch_of_def split: prod.splits)
  qed
qed

lemma apply_log_no_delete:
  assumes "list_all2 (apply_log s iid R) ts segs" "reads_only R"
  shows "filter is_delete (concat segs) = []"
  using assms(1)
proof (induction rule: list_all2_induct)
  case Nil
  then show ?case by simp
next
  case (Cons t ts seg segs)
  from Cons(1) obtain own wr where seg: "seg = fetch_of s t # own @ wr" "set own \<subseteq> R"
    "wr = [] \<or> (\<exists>o2. wr = [ReqPersist (ch_id (mc_cluster (fst t))) o2])" unfolding apply_log_def by blast
  have "filter is_delete own = []" using seg(2) assms(2) by (auto simp: filter_empty_conv reads_only_def)
  moreover have "filter is_delete wr = []" using seg(3) by auto
  ultimately show ?case using Cons(3) seg(1) by simp
qed

text \<open>
  A whole apply pass: the results report every managed object in order, followed by cleanup
  failures only; the log before the cleaners has one fetch per managed object and no deletion.
\<close>

lemma apply_pass_log:
  assumes "Apply x m s = Some ((rs, e), s')"
    and "\<forall>t \<in> set (targets m). well_behaved R (snd t)" "reads_only R"
    and "distinct (map (mo_ref \<circ> snd) (targets m))"
    and "\<forall>c \<in> set (mgr_cleaners m). orphan_cleaner c C"
  shows "map (\<lambda>r. (res_cluster r, res_object r)) (take (length (targets m)) rs) = targets m
    \<and> (\<forall>r \<in> set (drop (length (targets m)) rs). res_op r = OpDeletionFailed \<and> res_error r \<noteq> None)
    \<and> (\<exists>log clean. trace s' = trace s @ log @ clean \<and> set clean \<subseteq> C
        \<and> filter is_fetch log = map (fetch_of s) (targets m)
        \<and> filter is_delete log = []
        \<and> (\<forall>c o2. ReqPersist c o2 \<in> set log \<longrightarrow> carries_labels (mgr_instance_id m) o2
             \<and> (\<exists>t \<in> set (targets m). c = ch_id (mc_cluster (fst t)) \<and> kind_of o2 = kind_of (GetObject (snd t) s))))"
proof -
  from assms(1) obtain rs1 s1 where
    r: "run_targets x (mgr_instance_id m) (getDependents m) False (targets m) s = Some (rs1, s1)"
    and c: "run_cleaners (mgr_cleaners m) rs1 s1 = ((rs, e), s')"
    by (auto simp: Apply_def reconcileObjects_targets)
  from run_apply_steps[OF r assms(2,4)] obtain segs where
    tr: "trace s1 = trace s @ concat segs" "length rs1 = length (targets m)"
    "map (\<lambda>r. (res_cluster r, res_object r)) rs1 = targets m"
    and lg: "list_all2 (apply_log s (mgr_instance_id m) R) (targets m) segs" by blast
  from run_cleaners_spec[OF c assms(5)] obtain q extra where
    cl: "trace s' = trace s1 @ q" "set q \<subseteq> C" "rs = rs1 @ extra"
    "\<forall>r \<in> set extra. res_error r \<noteq> None \<and> res_op r = OpDeletionFailed" by blast
  with tr apply_log_no_delete[OF lg assms(3)] apply_log_fetches[OF lg assms(3)] apply_log_persists[OF lg assms(3)] show ?thesis
    by (intro conjI exI[of _ "concat segs"] exI[of _ q]) auto
qed

subsection \<open>Deletion converges\<close>

text \<open>
  An API server on which deletions take effect at once, without finalizers and without the
  asynchronous end of a namespace. This is an idealisation: only the convergence, refinement and
  liveness properties, and one attack, assume it. \<open>live\<close>
  is what exists; \<open>Get\<close> and \<open>Delete\<close> answer "not found" exactly for what does not exist,
  \<open>Get\<close> changes nothing and fills in the object of the key it was asked for, \<open>Delete\<close>
  removes the object.
\<close>

definition deletes_at_once :: "'w ext \<Rightarrow> ('w \<Rightarrow> item set) \<Rightarrow> bool" where
  "deletes_at_once x live =
     ((\<forall>c o' w. case x_get x c (object_key o') o' w of (o2, e, w') \<Rightarrow>
         live w' = live w \<and> (is_not_found e \<longleftrightarrow> (c, kind_of o', object_key o') \<notin> live w)
         \<and> object_key (fill o' o2) = object_key o')
    \<and> (\<forall>c o' w. case x_delete x c o' w of (e, w') \<Rightarrow>
         live w' = live w - {(c, kind_of o', object_key o')}
         \<and> (is_not_found e \<longleftrightarrow> (c, kind_of o', object_key o') \<notin> live w)))"

lemma k_get_live:
  assumes "deletes_at_once x live" "k_get x c (object_key o') o' s = ((o2, e), s')"
  shows "live (world s') = live (world s)" "is_not_found e \<longleftrightarrow> (ch_id c, kind_of o', object_key o') \<notin> live (world s)"
    "same_identity o' o2" "store s' = store s"
proof -
  obtain o3 e3 w3 where eq: "x_get x (ch_id c) (object_key o') o' (world s) = (o3, e3, w3)"
    by (metis prod.exhaust)
  then have r: "o2 = fill o' o3" "e = e3"
    "s' = log_request (ReqGet (ch_id c) (kind_of o') (object_key o') e3) (s\<lparr>world := w3\<rparr>)"
    using assms(2) by (auto simp: k_get_def)
  have law: "live w3 = live (world s)" "is_not_found e3 \<longleftrightarrow> (ch_id c, kind_of o', object_key o') \<notin> live (world s)"
    "object_key (fill o' o3) = object_key o'"
    using assms(1)[unfolded deletes_at_once_def, THEN conjunct1, rule_format,
        of "world s" "ch_id c" o'] unfolding eq prod.case by blast+
  show "live (world s') = live (world s)"
    "is_not_found e \<longleftrightarrow> (ch_id c, kind_of o', object_key o') \<notin> live (world s)"
    "same_identity o' o2" "store s' = store s"
    using law by (simp_all add: r same_identity_def)
qed

lemma k_delete_live:
  assumes "deletes_at_once x live" "k_delete x c o' s = (e, s')"
  shows "live (world s') = live (world s) - {(ch_id c, kind_of o', object_key o')}"
    "is_not_found e \<longleftrightarrow> (ch_id c, kind_of o', object_key o') \<notin> live (world s)" "store s' = store s"
proof -
  obtain e3 w3 where eq: "x_delete x (ch_id c) o' (world s) = (e3, w3)"
    by (metis prod.exhaust)
  then have r: "e = e3"
    "s' = log_request (ReqDelete (ch_id c) (kind_of o') (object_key o') e3) (s\<lparr>world := w3\<rparr>)"
    using assms(2) by (auto simp: k_delete_def)
  have law: "live w3 = live (world s) - {(ch_id c, kind_of o', object_key o')}"
    "is_not_found e3 \<longleftrightarrow> (ch_id c, kind_of o', object_key o') \<notin> live (world s)"
    using assms(1)[unfolded deletes_at_once_def, THEN conjunct2, rule_format,
        of "world s" "ch_id c" o'] unfolding eq prod.case by blast+
  show "live (world s') = live (world s) - {(ch_id c, kind_of o', object_key o')}"
    "is_not_found e \<longleftrightarrow> (ch_id c, kind_of o', object_key o') \<notin> live (world s)" "store s' = store s"
    using law by (simp_all add: r)
qed

lemma check_loop_live:
  assumes "deletes_at_once x live" "check_loop x deps s = (errs, s')"
  shows "live (world s') = live (world s) \<and> same_ids s s' \<and>
    (errs = [] \<longleftrightarrow> (\<forall>d \<in> set deps. item_of s (dep_target d) \<notin> live (world s)))"
  using assms(2)
proof (induction deps arbitrary: s errs s')
  case Nil
  then show ?case by simp
next
  case (Cons d deps)
  define ob where "ob = GetObject (dep_object d) s"
  obtain o2 err s1 where g: "k_get x (mc_cluster (dep_cluster d)) (object_key ob) ob s = ((o2, err), s1)"
    by (metis prod.exhaust)
  define s2 where "s2 = set_object (mo_ref (dep_object d)) o2 s1"
  obtain errs2 s3 where l: "check_loop x deps s2 = (errs2, s3)" by force
  note kl = k_get_live[OF assms(1) g]
  have ids: "same_ids s s2" using kl(3,4) by (auto simp: s2_def same_ids_def ob_def GetObject_def)
  have r: "s' = s3" "errs = [] \<longleftrightarrow> is_not_found err \<and> errs2 = []"
    using Cons.prems g l
    by (auto simp: s2_def ob_def Let_def split: if_splits option.splits prod.splits)
  have "is_not_found err \<longleftrightarrow> item_of s (dep_target d) \<notin> live (world s)"
    using kl(2) by (simp add: item_of_def dep_target_def ob_def)
  moreover have "live (world s2) = live (world s)" using kl(1) by (simp add: s2_def)
  ultimately show ?case using Cons.IH[OF l] r same_ids_item[OF ids] same_ids_trans[OF ids] by auto
qed

lemma delete_object_live:
  assumes live: "deletes_at_once x live" and run: "reconcileObject x iid mc mo D True s = Some (r, s')"
  defines "blocked \<equiv> \<exists>d \<in> set (dependents_at D (mo_ref mo)). item_of s (dep_target d) \<in> live (world s)"
  shows "same_ids s s'"
    and "live (world s') = (if blocked \<or> mo_policy mo = Orphan then live (world s)
           else live (world s) - {item_of s (mc, mo)})"
    and "\<not> blocked \<Longrightarrow> mo_policy mo = Orphan \<or> item_of s (mc, mo) \<notin> live (world s)
           \<Longrightarrow> res_op r = OpDeleted \<and> res_error r = None"
proof -
  obtain errs s1 where c: "check_loop x (dependents_at D (mo_ref mo)) s = (errs, s1)" by force
  note cl = check_loop_live[OF live c]
  obtain e2 s2 where d: "k_delete x (mc_cluster mc) (GetObject mo s1) s1 = (e2, s2)" by force
  note dl = k_delete_live[OF live d]
  have ids: "same_ids s s1" using cl by simp
  have it: "(ch_id (mc_cluster mc), kind_of (GetObject mo s1), object_key (GetObject mo s1)) = item_of s (mc, mo)"
    using same_ids_item[OF ids, of "(mc, mo)"] by (simp add: item_of_def)
  have b: "errs = [] \<longleftrightarrow> \<not> blocked" using cl unfolding blocked_def by blast
  have ids2: "same_ids s s2" using ids dl(3) by (simp add: same_ids_def)
  have cf: "checkForDependents x (dependents_at D (mo_ref mo)) s = (errors_join errs, s1)"
    by (simp add: checkForDependents_def c)
  have "blocked \<Longrightarrow> s' = s1"
    using run cf b by (auto simp: reconcileObject_def errors_join_def Let_def)
  moreover have "\<not> blocked \<Longrightarrow> mo_policy mo = Orphan \<Longrightarrow> s' = s1 \<and> res_op r = OpDeleted \<and> res_error r = None"
    using run cf b by (auto simp: reconcileObject_def errors_join_def GetDeletionPolicy_def OpOrphaned_def Let_def)
  moreover have "\<not> blocked \<Longrightarrow> mo_policy mo \<noteq> Orphan \<Longrightarrow> s' = s2 \<and>
      (is_not_found e2 \<longrightarrow> res_op r = OpDeleted \<and> res_error r = None)"
    using run cf b d by (auto simp: reconcileObject_def errors_join_def GetDeletionPolicy_def Let_def split: if_splits)
  ultimately show "same_ids s s'"
    and "live (world s') = (if blocked \<or> mo_policy mo = Orphan then live (world s)
           else live (world s) - {item_of s (mc, mo)})"
    and "\<not> blocked \<Longrightarrow> mo_policy mo = Orphan \<or> item_of s (mc, mo) \<notin> live (world s)
           \<Longrightarrow> res_op r = OpDeleted \<and> res_error r = None"
    using ids ids2 cl dl it by auto
qed

lemma run_delete_live:
  assumes live: "deletes_at_once x live" and run: "run_targets x iid D True ts s = Some (rs, s')"
  shows "same_ids s s' \<and> live (world s') \<subseteq> live (world s) \<and>
    (\<forall>t \<in> set ts. mo_policy (snd t) \<noteq> Orphan
       \<longrightarrow> (\<forall>d \<in> set (dependents_at D (mo_ref (snd t))). item_of s (dep_target d) \<notin> live (world s))
       \<longrightarrow> item_of s t \<notin> live (world s'))
    \<and> ((\<forall>t \<in> set ts. (mo_policy (snd t) = Orphan \<or> item_of s t \<notin> live (world s))
        \<and> (\<forall>d \<in> set (dependents_at D (mo_ref (snd t))). item_of s (dep_target d) \<notin> live (world s)))
       \<longrightarrow> (\<forall>r \<in> set rs. res_op r = OpDeleted \<and> res_error r = None))"
  using run
proof (induction ts arbitrary: s rs)
  case Nil
  then show ?case by simp
next
  case (Cons t ts)
  obtain mc mo where t: "t = (mc, mo)" by force
  from Cons.prems t obtain r s1 rs1 where r: "reconcileObject x iid mc mo D True s = Some (r, s1)"
    and rs: "run_targets x iid D True ts s1 = Some (rs1, s')" "rs = r # rs1" by auto
  note dl = delete_object_live[OF live r]
  note ih = Cons.IH[OF rs(1)]
  note it = same_ids_item[OF dl(1)]
  have sub: "live (world s1) \<subseteq> live (world s)" using dl(2) by auto
  show ?case
    using ih dl(2,3) sub rs(2) unfolding it t
    by (auto intro: same_ids_trans[OF dl(1)])
qed

definition quiet_cleaner :: "('w \<Rightarrow> item set) \<Rightarrow> 'w cleaner \<Rightarrow> bool" where
  "quiet_cleaner live c =
     (\<forall>s. \<exists>s'. c s = (([], None), s') \<and> store s' = store s \<and> live (world s') \<subseteq> live (world s))"

lemma run_quiet_cleaners:
  assumes "\<forall>c \<in> set cs. quiet_cleaner live c"
  shows "\<exists>s'. run_cleaners cs rs s = ((rs, None), s') \<and> store s' = store s \<and> live (world s') \<subseteq> live (world s)"
  using assms
proof (induction cs arbitrary: s)
  case Nil
  then show ?case by simp
next
  case (Cons c cs)
  have "quiet_cleaner live c" using Cons.prems by simp
  then obtain s1 where c: "c s = (([], None), s1)" "store s1 = store s" "live (world s1) \<subseteq> live (world s)"
    unfolding quiet_cleaner_def by meson
  have "\<forall>c \<in> set cs. quiet_cleaner live c" using Cons.prems by simp
  from Cons.IH[of s1, OF this] obtain s2 where
    "run_cleaners cs rs s1 = ((rs, None), s2)" "store s2 = store s1" "live (world s2) \<subseteq> live (world s1)" by blast
  with c show ?case by (intro exI[of _ s2]) auto
qed

lemma DeleteAll_live:
  assumes live: "deletes_at_once x live" and quiet: "\<forall>c \<in> set (mgr_cleaners m). quiet_cleaner live c"
  obtains rs s' where "DeleteAll x m s = Some ((rs, None), s')" "same_ids s s'"
    "live (world s') \<subseteq> live (world s)"
    "\<And>t. t \<in> set (targets m) \<Longrightarrow> mo_policy (snd t) \<noteq> Orphan \<Longrightarrow>
       (\<And>d. depends_on m d (snd t) \<Longrightarrow> item_of s (dep_target d) \<notin> live (world s)) \<Longrightarrow>
       item_of s t \<notin> live (world s')"
    "(\<And>t. t \<in> set (targets m) \<Longrightarrow> mo_policy (snd t) = Orphan \<or> item_of s t \<notin> live (world s)) \<Longrightarrow>
     (\<And>t d. t \<in> set (targets m) \<Longrightarrow> depends_on m d (snd t) \<Longrightarrow> item_of s (dep_target d) \<notin> live (world s)) \<Longrightarrow>
     \<forall>r \<in> set rs. res_op r = OpDeleted \<and> res_error r = None"
proof -
  obtain rs s1 where r: "run_targets x (mgr_instance_id m) (getDependents m) True (targets m) s = Some (rs, s1)"
    using run_delete_total by (metis not_None_eq surj_pair)
  note rl = run_delete_live[OF live r, unfolded dependents_set[symmetric, THEN eq_reflection]]
  obtain s2 where c: "run_cleaners (mgr_cleaners m) rs s1 = ((rs, None), s2)" "store s2 = store s1"
    "live (world s2) \<subseteq> live (world s1)" using run_quiet_cleaners[OF quiet] by metis
  have ds: "d \<in> set (dependents_at (getDependents m) (mo_ref mo)) \<longleftrightarrow> depends_on m d mo" for d mo
    by (rule dependents_set)
  show ?thesis
  proof (rule that[of rs s2])
    show "DeleteAll x m s = Some ((rs, None), s2)"
      using r c(1) by (simp add: DeleteAll_def reconcileObjects_targets)
    show "same_ids s s2" using rl c(2) by (simp add: same_ids_def)
    show "live (world s2) \<subseteq> live (world s)" using rl c(3) by blast
  next
    fix t assume "t \<in> set (targets m)" "mo_policy (snd t) \<noteq> Orphan"
      "\<And>d. depends_on m d (snd t) \<Longrightarrow> item_of s (dep_target d) \<notin> live (world s)"
    with rl ds c(3) show "item_of s t \<notin> live (world s2)" by blast
  next
    assume "\<And>t. t \<in> set (targets m) \<Longrightarrow> mo_policy (snd t) = Orphan \<or> item_of s t \<notin> live (world s)"
      "\<And>t d. t \<in> set (targets m) \<Longrightarrow> depends_on m d (snd t) \<Longrightarrow> item_of s (dep_target d) \<notin> live (world s)"
    with rl ds show "\<forall>r \<in> set rs. res_op r = OpDeleted \<and> res_error r = None" by blast
  qed
qed

fun delete_passes :: "'w ext \<Rightarrow> 'w manager \<Rightarrow> nat \<Rightarrow> 'w st \<Rightarrow> 'w st option" where
  "delete_passes x m 0 s = Some s"
| "delete_passes x m (Suc n) s = do { (_, s1) \<leftarrow> delete_passes x m n s \<bind> DeleteAll x m; Some s1 }"

text \<open>A ranking of the managed objects in which dependents come first, and none is orphaned.\<close>

definition ranked :: "'w manager \<Rightarrow> (nat \<Rightarrow> nat) \<Rightarrow> nat \<Rightarrow> bool" where
  "ranked m rk N =
     (\<forall>t \<in> set (targets m). rk (mo_ref (snd t)) \<le> N \<and>
        (\<forall>d. depends_on m d (snd t) \<longrightarrow>
           rk (mo_ref (dep_object d)) < rk (mo_ref (snd t)) \<and> mo_policy (dep_object d) \<noteq> Orphan))"

lemma delete_passes_progress:
  assumes live: "deletes_at_once x live" and quiet: "\<forall>c \<in> set (mgr_cleaners m). quiet_cleaner live c"
    and rk: "ranked m rk N"
  shows "\<exists>s'. delete_passes x m n s = Some s' \<and> same_ids s s' \<and>
    (\<forall>t \<in> set (targets m). mo_policy (snd t) \<noteq> Orphan \<longrightarrow> rk (mo_ref (snd t)) < n \<longrightarrow> item_of s t \<notin> live (world s'))"
proof (induction n)
  case 0
  show ?case by simp
next
  case (Suc n)
  then obtain s1 where s1: "delete_passes x m n s = Some s1" "same_ids s s1"
    "\<forall>t \<in> set (targets m). mo_policy (snd t) \<noteq> Orphan \<longrightarrow> rk (mo_ref (snd t)) < n \<longrightarrow> item_of s t \<notin> live (world s1)"
    by blast
  obtain rs s2 where p: "DeleteAll x m s1 = Some ((rs, None), s2)" "same_ids s1 s2"
    "live (world s2) \<subseteq> live (world s1)"
    and q: "\<And>t. t \<in> set (targets m) \<Longrightarrow> mo_policy (snd t) \<noteq> Orphan \<Longrightarrow>
       (\<And>d. depends_on m d (snd t) \<Longrightarrow> item_of s1 (dep_target d) \<notin> live (world s1)) \<Longrightarrow>
       item_of s1 t \<notin> live (world s2)"
    by (rule DeleteAll_live[OF live quiet, of s1]) blast
  note it = same_ids_item[OF s1(2)]
  have "item_of s t \<notin> live (world s2)"
    if t: "t \<in> set (targets m)" "mo_policy (snd t) \<noteq> Orphan" "rk (mo_ref (snd t)) < Suc n" for t
  proof -
    have "item_of s1 (dep_target d) \<notin> live (world s1)" if d: "depends_on m d (snd t)" for d
    proof -
      from d have "dep_target d \<in> set (targets m)" by (simp add: depends_on_def dep_target_def)
      moreover from rk t(1) d have "rk (mo_ref (dep_object d)) < rk (mo_ref (snd t))"
        "mo_policy (dep_object d) \<noteq> Orphan" unfolding ranked_def by blast+
      ultimately show ?thesis using s1(3) t(3) it by (fastforce simp: dep_target_def)
    qed
    from q[OF t(1,2) this] it show ?thesis by simp
  qed
  with s1(1,2) p(1,2) show ?case by (auto intro: same_ids_trans)
qed

lemma passes_converge:
  assumes "deletes_at_once x live" "\<forall>c \<in> set (mgr_cleaners m). quiet_cleaner live c" "ranked m rk N"
  shows "\<exists>s1 rs s2. delete_passes x m (Suc N) s = Some s1
    \<and> (\<forall>t \<in> set (targets m). mo_policy (snd t) \<noteq> Orphan \<longrightarrow> item_of s t \<notin> live (world s1))
    \<and> DeleteAll x m s1 = Some ((rs, None), s2)
    \<and> AllDeleted rs \<and> (\<forall>r \<in> set rs. res_error r = None)"
proof -
  obtain s1 where s1: "delete_passes x m (Suc N) s = Some s1" "same_ids s s1"
    "\<forall>t \<in> set (targets m). mo_policy (snd t) \<noteq> Orphan \<longrightarrow> rk (mo_ref (snd t)) < Suc N \<longrightarrow> item_of s t \<notin> live (world s1)"
    using delete_passes_progress[OF assms] by blast
  have gone: "item_of s t \<notin> live (world s1)" if "t \<in> set (targets m)" "mo_policy (snd t) \<noteq> Orphan" for t
    using s1(3) that assms(3) unfolding ranked_def by (simp add: le_imp_less_Suc)
  note it = same_ids_item[OF s1(2)]
  have deps: "item_of s (dep_target d) \<notin> live (world s1)" if "t \<in> set (targets m)" "depends_on m d (snd t)" for t d
    using gone[of "dep_target d"] that assms(3) unfolding ranked_def
    by (auto simp: depends_on_def dep_target_def)
  obtain rs s2 where "DeleteAll x m s1 = Some ((rs, None), s2)"
    and q: "(\<And>t. t \<in> set (targets m) \<Longrightarrow> mo_policy (snd t) = Orphan \<or> item_of s1 t \<notin> live (world s1)) \<Longrightarrow>
     (\<And>t d. t \<in> set (targets m) \<Longrightarrow> depends_on m d (snd t) \<Longrightarrow> item_of s1 (dep_target d) \<notin> live (world s1)) \<Longrightarrow>
     \<forall>r \<in> set rs. res_op r = OpDeleted \<and> res_error r = None"
    by (rule DeleteAll_live[OF assms(1,2), of s1]) blast
  moreover have "\<forall>r \<in> set rs. res_op r = OpDeleted \<and> res_error r = None"
    using q gone deps it by metis
  ultimately show ?thesis using s1(1) gone by (auto simp: AllDeleted_iff)
qed

text \<open>
  C12. Deletion converges, under four conditions: the API server's deletions take effect at
  once and its answers are true (\<open>deletes_at_once\<close>), the cleaners succeed and bring nothing back,
  dependencies have depth at most \<open>N\<close>, and no orphaned object depends on a managed one. Then \<open>N + 1\<close>
  deletion passes remove every managed object whose policy is not to orphan it, orphaned ones
  staying where they are, and the next pass returns without error and reports every object
  deleted, on which the finalizer goes.
\<close>

theorem deletion_converges:
  assumes "deletes_at_once x live" "\<forall>c \<in> set (mgr_cleaners m). quiet_cleaner live c" "ranked m rk N"
  shows "\<exists>s1 rs s2. delete_passes x m (Suc N) s = Some s1
    \<and> (\<forall>t \<in> set (targets m). mo_policy (snd t) \<noteq> Orphan \<longrightarrow> item_of s t \<notin> live (world s1))
    \<and> DeleteAll x m s1 = Some ((rs, None), s2)
    \<and> AllDeleted rs \<and> (\<forall>r \<in> set rs. res_error r = None)"
  using assms by (rule passes_converge)

end
