(* ===== verification/Namespaces.thy ===== *)
theory Namespaces
  imports Managed_Objects
begin

text \<open>
  \<open>pkg/namespace/namespace.go\<close>: the managed Namespace of a cluster. Also the pattern all
  \<open>Configure\<close> functions share: create a managed object, then add it to a cluster, here
  with the facts about the store and the cluster that their proofs use.
\<close>

definition add_managed :: "client_object \<Rightarrow> 'w managed_object_context \<Rightarrow> 'w managed_cluster \<Rightarrow> 'w st
    \<Rightarrow> 'w managed_object \<times> 'w managed_cluster \<times> 'w st" where
  "add_managed o' moc mc s =
     (let (mo, s1) = NewManagedObject o' moc s in (mo, AddObject mo mc, s1))"

definition configure_namespace :: "'w managed_cluster \<Rightarrow> deletion_policy \<Rightarrow> 'w st
    \<Rightarrow> 'w managed_cluster \<times> 'w st" where
  "configure_namespace cluster deletionPolicy s =
     (let (ns, cluster1, s1) = add_managed
            (new_object (GetDefaultNamespace cluster) '''' Namespace)
            \<lparr>moc_reconcile = Some NoOp, moc_depends_on = [], moc_policy = deletionPolicy,
             moc_status = Some SimpleStatus\<rparr> cluster s
      in (cluster1, s1))"

text \<open>What \<open>NewManagedObject\<close> builds from a context, at the next free address.\<close>

definition managed_of :: "'w managed_object_context \<Rightarrow> nat \<Rightarrow> 'w managed_object" where
  "managed_of moc r = \<lparr>mo_ref = r, mo_reconcile = moc_reconcile moc, mo_status = moc_status moc,
     mo_deps = map mo_ref (moc_depends_on moc),
     mo_policy = (if moc_policy moc = NoPolicy then Delete else moc_policy moc)\<rparr>"

lemma managed_of_simps [simp]:
  "mo_ref (managed_of moc r) = r" "mo_reconcile (managed_of moc r) = moc_reconcile moc"
  "mo_status (managed_of moc r) = moc_status moc" "mo_deps (managed_of moc r) = map mo_ref (moc_depends_on moc)"
  "mo_policy (managed_of moc r) = (if moc_policy moc = NoPolicy then Delete else moc_policy moc)"
  by (simp_all add: managed_of_def)

lemma add_managed_eq [go_run]:
  "add_managed o' moc mc s = (managed_of moc (next_ref s), AddObject (managed_of moc (next_ref s)) mc, snd (alloc o' s))"
  by (simp add: add_managed_def NewManagedObject_def managed_of_def alloc_def)

subsection \<open>Adding a sequence of managed objects\<close>

text \<open>Allocation only extends the store.\<close>

definition extends_store :: "'w st \<Rightarrow> 'w st \<Rightarrow> bool" where
  "extends_store s s' = (next_ref s \<le> next_ref s' \<and> (\<forall>r < next_ref s. store s' r = store s r))"

lemma extends_store_trans: "extends_store s t \<Longrightarrow> extends_store t u \<Longrightarrow> extends_store s u"
  by (simp add: extends_store_def)

lemma extends_store_same: "store s' = store s \<Longrightarrow> next_ref s' = next_ref s \<Longrightarrow> extends_store s s'"
  by (simp add: extends_store_def)

lemma extends_store_refl [simp]: "extends_store s s"
  by (simp add: extends_store_def)

lemma extends_store_GetObject: "extends_store s s' \<Longrightarrow> mo_ref mo < next_ref s \<Longrightarrow> GetObject mo s' = GetObject mo s"
  by (simp add: extends_store_def GetObject_def)

text \<open>An entry is the client object and the context a \<open>Configure\<close> function creates.\<close>

type_synonym 'w entry = "client_object \<times> 'w managed_object_context"

fun adds :: "'w managed_cluster \<Rightarrow> 'w st \<Rightarrow> 'w entry list \<Rightarrow> 'w managed_cluster \<times> 'w st" where
  "adds mc s [] = (mc, s)"
| "adds mc s ((o', moc) # es) = (let (mo, mc1, s1) = add_managed o' moc mc s in adds mc1 s1 es)"

lemma adds_append: "adds mc s (es @ fs) = (let (mc1, s1) = adds mc s es in adds mc1 s1 fs)"
  by (induction es arbitrary: mc s) (auto simp: add_managed_eq)

definition entry_objects :: "nat \<Rightarrow> 'w entry list \<Rightarrow> 'w managed_object list" where
  "entry_objects n es = map2 (\<lambda>e. managed_of (snd e)) es [n..<n + length es]"

lemma entry_objects_simps [simp]:
  "entry_objects n [] = []" "entry_objects n (e # es) = managed_of (snd e) n # entry_objects (Suc n) es"
proof -
  show "entry_objects n [] = []" by (simp add: entry_objects_def)
  have "[n..<n + length (e # es)] = n # [Suc n..<Suc n + length es]"
    using upt_conv_Cons[of n "n + length (e # es)"] by simp
  then show "entry_objects n (e # es) = managed_of (snd e) n # entry_objects (Suc n) es"
    by (simp add: entry_objects_def)
qed

lemma entry_objects_append:
  "entry_objects n (es @ fs) = entry_objects n es @ entry_objects (n + length es) fs"
  by (induction es arbitrary: n) simp_all

lemma length_entry_objects [simp]: "length (entry_objects n es) = length es"
  by (simp add: entry_objects_def)

lemma entry_objects_refs: "map mo_ref (entry_objects n es) = [n..<n + length es]"
  by (rule nth_equalityI) (simp_all add: entry_objects_def)

lemma adds_cluster: "fst (adds mc s es) = mc\<lparr>mc_objects := mc_objects mc @ entry_objects (next_ref s) es\<rparr>"
  by (induction es arbitrary: mc s) (auto simp: add_managed_eq AddObject_def)

lemma adds_state:
  "next_ref (snd (adds mc s es)) = next_ref s + length es \<and> trace (snd (adds mc s es)) = trace s
   \<and> world (snd (adds mc s es)) = world s \<and> extends_store s (snd (adds mc s es))"
  by (induction es arbitrary: mc s) (auto simp: add_managed_eq extends_store_def)

text \<open>The managed objects stand for their entries' objects in any state that extends the store.\<close>

definition stands_for :: "'w st \<Rightarrow> 'w managed_object \<Rightarrow> 'w entry \<Rightarrow> bool" where
  "stands_for s mo e = (GetObject mo s = fst e \<and> mo_ref mo < next_ref s \<and> mo = managed_of (snd e) (mo_ref mo))"

lemma stands_for_extends: "extends_store s s' \<Longrightarrow> stands_for s mo e \<Longrightarrow> stands_for s' mo e"
  by (auto simp: stands_for_def extends_store_def GetObject_def)

lemma adds_stands_for: "list_all2 (stands_for (snd (adds mc s es))) (entry_objects (next_ref s) es) es"
proof (induction es arbitrary: mc s)
  case Nil
  then show ?case by simp
next
  case (Cons e es)
  define mc1 where "mc1 = AddObject (managed_of (snd e) (next_ref s)) mc"
  define s1 where "s1 = snd (alloc (fst e) s)"
  have a: "adds mc s (e # es) = adds mc1 s1 es"
    by (cases e) (simp add: add_managed_eq mc1_def s1_def)
  have "stands_for s1 (managed_of (snd e) (next_ref s)) e"
    by (simp add: stands_for_def s1_def GetObject_def)
  then have "stands_for (snd (adds mc1 s1 es)) (managed_of (snd e) (next_ref s)) e"
    using adds_state[of mc1 s1 es] stands_for_extends by blast
  then show ?case using Cons[of mc1 s1] by (simp add: a) (simp add: s1_def)
qed

text \<open>The entry of a namespace.\<close>

definition namespace_entry :: "string \<Rightarrow> deletion_policy \<Rightarrow> 'w entry" where
  "namespace_entry ns p = (new_object ns '''' Namespace,
     \<lparr>moc_reconcile = Some NoOp, moc_depends_on = [], moc_policy = p, moc_status = Some SimpleStatus\<rparr>)"

lemma configure_namespace_adds: "configure_namespace mc p s = adds mc s [namespace_entry (mc_namespace mc) p]"
  by (simp add: configure_namespace_def namespace_entry_def GetDefaultNamespace_def)

end
