(* ===== verification/Secrets.thy ===== *)
theory Secrets
  imports Managers Namespaces
begin

text \<open>
  \<open>pkg/secret/secret.go\<close>: copies of the image pull secrets in the instance namespace, and the
  cleaner that deletes managed secrets of that namespace which are no longer wanted. The
  cleaner interprets the manager's interface \<open>orphan_cleaner\<close>.
\<close>

subsection \<open>Pull secrets\<close>

definition ErrSecretCleanup :: error where
  "ErrSecretCleanup = ErrorVar ''ErrSecretCleanup'' ''secret cleanup failed''"

definition SecretTypeDockerConfigJson :: string where
  "SecretTypeDockerConfigJson = ''kubernetes.io/dockerconfigjson''"

definition secret_data :: "client_object \<Rightarrow> (string \<rightharpoonup> bytes) option" where
  "secret_data o' = (case body o' of Secret data ty \<Rightarrow> data | _ \<Rightarrow> None)"

definition pull_secret_reconcile :: "'w ext \<Rightarrow> cluster_handle \<Rightarrow> string \<Rightarrow> string \<Rightarrow> string \<Rightarrow> 'w reconcile_func" where
  "pull_secret_reconcile x platformCluster name targetNamespace sourceNamespace o' s =
     (case body o' of
        Secret data ty \<Rightarrow>
          (let sourceSecret = new_object name sourceNamespace (Secret None '''')
           in case k_get x platformCluster (object_key sourceSecret) sourceSecret s of
                ((src, Some err), s1) \<Rightarrow> Some ((o', Some err), s1)
              | ((src, None), s1) \<Rightarrow>
                  (let (o2, err) = x_mutate_secret x name targetNamespace (secret_data src)
                                     SecretTypeDockerConfigJson o'
                   in Some ((fill o' o2, err), s1)))
      | _ \<Rightarrow> None)"

fun configure_secrets :: "'w ext \<Rightarrow> cluster_handle \<Rightarrow> string list \<Rightarrow> string \<Rightarrow> 'w managed_cluster \<Rightarrow> 'w st
    \<Rightarrow> 'w managed_cluster \<times> 'w st" where
  "configure_secrets x platformCluster [] sourceNamespace cluster s = (cluster, s)"
| "configure_secrets x platformCluster (pullSecret # pullSecrets) sourceNamespace cluster s =
     (let (secret, cluster1, s1) = add_managed
            (new_object pullSecret (GetDefaultNamespace cluster) (Secret None ''''))
            \<lparr>moc_reconcile = Some (pull_secret_reconcile x platformCluster pullSecret
                                     (GetDefaultNamespace cluster) sourceNamespace),
             moc_depends_on = [], moc_policy = NoPolicy, moc_status = Some SimpleStatus\<rparr> cluster s
      in configure_secrets x platformCluster pullSecrets sourceNamespace cluster1 s1)"

subsection \<open>The cleaner\<close>

definition cleanupErrorStatus :: status_fn where
  "cleanupErrorStatus o' rl =
     Some \<lparr>s_phase = Terminating, s_message = ''Secret cleanup failed'', s_location = rl\<rparr>"

definition cleanupErrorResult :: "'w managed_cluster \<Rightarrow> client_object \<Rightarrow> error option \<Rightarrow> 'w st
    \<Rightarrow> 'w result \<times> 'w st" where
  "cleanupErrorResult cluster o' err s =
     (let (mo, s1) = NewManagedObject o'
            \<lparr>moc_reconcile = None, moc_depends_on = [], moc_policy = Delete, moc_status = Some cleanupErrorStatus\<rparr> s
      in (\<lparr>res_object = mo, res_cluster = cluster, res_op = OpDeletionFailed, res_error = err\<rparr>, s1))"

fun cleanup_loop :: "'w ext \<Rightarrow> 'w managed_cluster \<Rightarrow> string list \<Rightarrow> client_object list \<Rightarrow> 'w result list
    \<Rightarrow> 'w st \<Rightarrow> 'w result list \<times> 'w st" where
  "cleanup_loop x cluster keep [] results s = (results, s)"
| "cleanup_loop x cluster keep (secret # items) results s =
     (if \<not> list_ex (\<lambda>ref. get_name secret = ref) keep then
        (let (err, s1) = k_delete x (mc_cluster cluster) secret s
         in if ignore_not_found err \<noteq> None then
              (let (r, s2) = cleanupErrorResult cluster secret err s1
               in cleanup_loop x cluster keep items (results @ [r]) s2)
            else cleanup_loop x cluster keep items results s1)
      else cleanup_loop x cluster keep items results s)"

definition secretCleaner_Cleanup :: "'w ext \<Rightarrow> 'w managed_cluster \<Rightarrow> string \<Rightarrow> string list \<Rightarrow> 'w cleaner" where
  "secretCleaner_Cleanup x cluster namespace secretsToKeep s =
     (case k_list_secrets x (mc_cluster cluster) namespace ManagedBy s of
        ((items, Some err), s1) \<Rightarrow> (([], Some ErrSecretCleanup), s1)
      | ((items, None), s1) \<Rightarrow>
          (let (results, s2) = cleanup_loop x cluster secretsToKeep items [] s1 in ((results, None), s2)))"

text \<open>\<open>NewSecretCleaner\<close> keeps its arguments for \<open>Cleanup\<close>.\<close>

record 'w secretCleaner =
  sc_cluster :: "'w managed_cluster"
  sc_namespace :: string
  sc_keep :: "string list"

definition NewSecretCleaner :: "'w managed_cluster \<Rightarrow> string \<Rightarrow> string list \<Rightarrow> 'w secretCleaner" where
  "NewSecretCleaner cluster namespace secretsToKeep =
     \<lparr>sc_cluster = cluster, sc_namespace = namespace, sc_keep = secretsToKeep\<rparr>"

definition Cleanup :: "'w ext \<Rightarrow> 'w secretCleaner \<Rightarrow> 'w cleaner" where
  "Cleanup x c = secretCleaner_Cleanup x (sc_cluster c) (sc_namespace c) (sc_keep c)"

lemma Cleanup_new [simp]: "Cleanup x (NewSecretCleaner mc ns keep) = secretCleaner_Cleanup x mc ns keep"
  by (simp add: Cleanup_def NewSecretCleaner_def)

subsection \<open>The reconcile closure of a pull secret\<close>

definition pull_requests :: "string \<Rightarrow> string \<Rightarrow> string \<Rightarrow> request set" where
  "pull_requests c name ns = {ReqGet c ''Secret'' (ns, name) e |e. True}"

lemma pull_secret_reconciler:
  "reconciler (pull_secret_reconcile x c name tns sns) (pull_requests (ch_id c) name sns)"
  by unfold_locales
    (auto simp: pull_secret_reconcile_def pull_requests_def Let_def
      split: payload.splits prod.splits option.splits dest!: k_get_effect)

interpretation pull_secret: total_reconciler "pull_secret_reconcile x c name tns sns"
    "pull_requests (ch_id c) name sns" "''Secret''" for x c name tns sns
  by (rule total_reconciler.intro[OF pull_secret_reconciler], unfold_locales)
    (auto simp: pull_secret_reconcile_def kind_of_def Let_def split: payload.splits prod.splits option.splits)

text \<open>
  The documented behaviour of the secret mutator: it sets the data and the type and leaves
  the labels and the identity of the secret as they are.
\<close>

definition mutates_secret :: "'w ext \<Rightarrow> bool" where
  "mutates_secret x = (\<forall>name ns data ty o' o2. x_mutate_secret x name ns data ty o' = (o2, None) \<longrightarrow>
     body o2 = Secret data ty \<and> get_labels o2 = get_labels o' \<and> object_key o2 = object_key o')"

lemma pull_secret_runs:
  assumes "mutates_secret x" "pull_secret_reconcile x c name tns sns o' s = Some ((o2, None), s')"
  shows "\<exists>src. k_get x c (sns, name) (new_object name sns (Secret None [])) s = ((src, None), s')
     \<and> body o2 = Secret (secret_data src) SecretTypeDockerConfigJson
     \<and> get_labels o2 = get_labels o' \<and> object_key o2 = object_key o'"
proof -
  from assms(2) obtain d ty src o3 where b: "body o' = Secret d ty"
    "k_get x c (sns, name) (new_object name sns (Secret None [])) s = ((src, None), s')"
    and m: "x_mutate_secret x name tns (secret_data src) SecretTypeDockerConfigJson o' = (o3, None)" "o2 = fill o' o3"
    by (auto simp: pull_secret_reconcile_def Let_def split: payload.splits prod.splits option.splits)
  have "body o3 = Secret (secret_data src) SecretTypeDockerConfigJson" "get_labels o3 = get_labels o'"
    "object_key o3 = object_key o'"
    using assms(1)[unfolded mutates_secret_def, rule_format, OF m(1)] by blast+
  with b m(2) show ?thesis by (auto simp: fill_def kind_of_def)
qed

lemma pull_secret_stamped:
  assumes "mutates_secret x"
  shows "stamped_reconciler (pull_secret_reconcile x c name tns sns) (pull_requests (ch_id c) name sns)"
proof (rule stamped_reconciler.intro[OF pull_secret_reconciler], unfold_locales)
  fix o' s o2 s' iid
  assume run: "pull_secret_reconcile x c name tns sns o' s = Some ((o2, None), s')"
  note r = pull_secret_runs[OF assms run]
  show "carries_labels iid o' \<Longrightarrow> carries_labels iid o2" using r by (auto simp: carries_labels_def)
  show "object_key o2 = object_key o'" using r by auto
qed

subsection \<open>What the cleaner does\<close>

definition victims :: "string list \<Rightarrow> client_object list \<Rightarrow> client_object list" where
  "victims keep items = [o' \<leftarrow> items. get_name o' \<notin> set keep]"

definition delete_request :: "string \<Rightarrow> client_object \<times> error option \<Rightarrow> request" where
  "delete_request c = (\<lambda>(o', e). ReqDelete c (kind_of o') (object_key o') e)"

definition deletion_failed :: "client_object \<times> error option \<Rightarrow> bool" where
  "deletion_failed = (\<lambda>(o', e). ignore_not_found e \<noteq> None)"

text \<open>The failure result of a victim, as it stands in the final state.\<close>

definition failure_result :: "'w managed_cluster \<Rightarrow> 'w st \<Rightarrow> client_object \<times> error option \<Rightarrow> 'w result \<Rightarrow> bool" where
  "failure_result mc s' v r = (GetObject (res_object r) s' = fst v \<and> res_error r = snd v
     \<and> res_op r = OpDeletionFailed \<and> res_cluster r = mc
     \<and> mo_status (res_object r) = Some cleanupErrorStatus \<and> mo_ref (res_object r) < next_ref s')"

lemma failure_result_extends: "extends_store s s' \<Longrightarrow> failure_result mc s v r \<Longrightarrow> failure_result mc s' v r"
  by (auto simp: extends_store_def failure_result_def GetObject_def)

lemma cleanupErrorResult_spec:
  assumes "cleanupErrorResult mc o' e s = (r, s')"
  shows "failure_result mc s' (o', e) r \<and> extends_store s s' \<and> trace s' = trace s"
  using assms by (auto simp: cleanupErrorResult_def NewManagedObject_def alloc_def failure_result_def
      extends_store_def GetObject_def Let_def)

lemma k_delete_effect:
  "k_delete x c o' s = (e, s') \<Longrightarrow> trace s' = trace s @ [delete_request (ch_id c) (o', e)] \<and> extends_store s s'"
  using k_delete_frame[of x c o' s e s'] by (simp add: delete_request_def extends_store_same)

lemma cleanup_loop_spec:
  assumes "cleanup_loop x mc keep items results s = (rs, s')"
  shows "\<exists>answered extra. map fst answered = victims keep items
    \<and> trace s' = trace s @ map (delete_request (ch_id (mc_cluster mc))) answered
    \<and> rs = results @ extra
    \<and> list_all2 (failure_result mc s') (filter deletion_failed answered) extra
    \<and> extends_store s s'"
  using assms
proof (induction items arbitrary: results s)
  case Nil
  then show ?case by (simp add: victims_def extends_store_def)
next
  case (Cons v items)
  have keep: "list_ex (\<lambda>ref. get_name v = ref) keep \<longleftrightarrow> get_name v \<in> set keep"
    by (auto simp: list_ex_iff)
  show ?case
  proof (cases "get_name v \<in> set keep")
    case True
    with Cons show ?thesis by (simp add: keep victims_def)
  next
    case False
    obtain e s1 where d: "k_delete x (mc_cluster mc) v s = (e, s1)" by force
    note de = k_delete_effect[OF d]
    show ?thesis
    proof (cases "deletion_failed (v, e)")
      case failed: True
      obtain r s2 where c: "cleanupErrorResult mc v e s1 = (r, s2)" by force
      note ce = cleanupErrorResult_spec[OF c]
      have "cleanup_loop x mc keep items (results @ [r]) s2 = (rs, s')"
        using Cons.prems False failed d c by (simp add: keep deletion_failed_def)
      from Cons.IH[OF this] obtain ans extra where ih: "map fst ans = victims keep items"
        "trace s' = trace s2 @ map (delete_request (ch_id (mc_cluster mc))) ans" "rs = (results @ [r]) @ extra"
        "list_all2 (failure_result mc s') (filter deletion_failed ans) extra" "extends_store s2 s'" by blast
      have "failure_result mc s' (v, e) r" using ce ih(5) failure_result_extends by blast
      moreover have "extends_store s s'" using de ce ih(5) extends_store_trans by blast
      ultimately show ?thesis
        using ih(1-4) de ce False failed
        by (intro exI[of _ "(v, e) # ans"] exI[of _ "r # extra"]) (auto simp: victims_def)
    next
      case ok: False
      then have "cleanup_loop x mc keep items results s1 = (rs, s')"
        using Cons.prems False d by (simp add: keep deletion_failed_def)
      from Cons.IH[OF this] obtain ans extra where ih: "map fst ans = victims keep items"
        "trace s' = trace s1 @ map (delete_request (ch_id (mc_cluster mc))) ans" "rs = results @ extra"
        "list_all2 (failure_result mc s') (filter deletion_failed ans) extra" "extends_store s1 s'" by blast
      moreover have "extends_store s s'" using de ih(5) extends_store_trans by blast
      ultimately show ?thesis
        using de False ok
        by (intro exI[of _ "(v, e) # ans"] exI[of _ extra]) (auto simp: victims_def)
    qed
  qed
qed

text \<open>
  The documented behaviour of a listing restricted to a namespace and to labels, without
  error: exactly the secrets it shows lie in that namespace and carry those labels.
\<close>

definition lists_matching :: "'w ext \<Rightarrow> bool" where
  "lists_matching x = (\<forall>c ns ls w os w'. x_list_secrets x c ns ls w = (os, None, w') \<longrightarrow>
     (\<forall>o' \<in> set os. get_namespace o' = ns \<and> (\<forall>(k, v) \<in> set ls. map_get (get_labels o') k = v)))"

text \<open>
  The requests of the cleaner: on servers that list what they are asked for, it deletes in
  its own namespace only.
\<close>

definition cleaner_requests :: "'w ext \<Rightarrow> string \<Rightarrow> string \<Rightarrow> string list \<Rightarrow> request set" where
  "cleaner_requests x c ns keep = {ReqListSecrets c ns e |e. True}
     \<union> {ReqDelete c ''Secret'' k e |k e. snd k \<notin> set keep \<and> (lists_matching x \<longrightarrow> fst k = ns)}"

lemma k_list_matching:
  assumes "k_list_secrets x c ns ls s = ((os, None), s')" "lists_matching x"
  shows "\<forall>o' \<in> set os. get_namespace o' = ns"
proof -
  obtain os2 w where "x_list_secrets x (ch_id c) ns ls (world s) = (os2, None, w)" "set os \<subseteq> set os2"
    using assms(1) by (auto simp: k_list_secrets_def split: prod.splits)
  then show ?thesis using assms(2) unfolding lists_matching_def by blast
qed

text \<open>A run of the cleaner, by cases.\<close>

lemma cleaner_cases:
  assumes "secretCleaner_Cleanup x mc ns keep s = ((rs, e), s')"
  obtains (listing_failed) err where "e = Some ErrSecretCleanup" "rs = []" "extends_store s s'"
      "trace s' = trace s @ [ReqListSecrets (ch_id (mc_cluster mc)) ns (Some err)]"
  | (cleaned) items answered s1 where "e = None"
      "k_list_secrets x (mc_cluster mc) ns ManagedBy s = ((items, None), s1)"
      "map fst answered = victims keep items" "\<forall>o' \<in> set items. kind_of o' = ''Secret''"
      "trace s' = trace s @ ReqListSecrets (ch_id (mc_cluster mc)) ns None
          # map (delete_request (ch_id (mc_cluster mc))) answered"
      "list_all2 (failure_result mc s') (filter deletion_failed answered) rs" "extends_store s s'"
proof -
  obtain items e1 s1 where l: "k_list_secrets x (mc_cluster mc) ns ManagedBy s = ((items, e1), s1)"
    by (metis prod.exhaust)
  note lf = k_list_frame[OF l]
  have ex: "extends_store s s1" using lf by (simp add: extends_store_same)
  show thesis
  proof (cases e1)
    case (Some err)
    with assms l lf ex show thesis by (intro listing_failed[of err]) (auto simp: secretCleaner_Cleanup_def)
  next
    case None
    obtain rs2 s2 where c: "cleanup_loop x mc keep items [] s1 = (rs2, s2)" by force
    from cleanup_loop_spec[OF c] obtain ans where "map fst ans = victims keep items"
      "trace s2 = trace s1 @ map (delete_request (ch_id (mc_cluster mc))) ans"
      "list_all2 (failure_result mc s2) (filter deletion_failed ans) rs2" "extends_store s1 s2" by auto
    moreover have r: "e = None" "rs = rs2" "s' = s2" using assms l c None by (auto simp: secretCleaner_Cleanup_def)
    moreover have "extends_store s s2" using ex calculation(4) extends_store_trans by blast
    ultimately show thesis using l lf None
      by (intro cleaned[of items s1 ans]) simp_all
  qed
qed

lemma delete_requests_of:
  assumes "map fst ans = victims keep items" "\<forall>o' \<in> set items. kind_of o' = ''Secret''"
    "lists_matching x \<longrightarrow> (\<forall>o' \<in> set items. get_namespace o' = ns)"
  shows "set (map (delete_request c) ans) \<subseteq> cleaner_requests x c ns keep"
proof
  fix q assume "q \<in> set (map (delete_request c) ans)"
  then obtain o' e where "(o', e) \<in> set ans" "q = ReqDelete c (kind_of o') (object_key o') e"
    by (auto simp: delete_request_def)
  moreover then have "o' \<in> set (victims keep items)" using assms(1) by (metis fst_conv image_eqI list.set_map)
  ultimately show "q \<in> cleaner_requests x c ns keep"
    using assms(2,3) by (auto simp: victims_def cleaner_requests_def object_key_def)
qed

lemma secret_cleaner: "orphan_cleaner (secretCleaner_Cleanup x mc ns keep) (cleaner_requests x (ch_id (mc_cluster mc)) ns keep)"
proof
  fix s rs e s'
  assume run: "secretCleaner_Cleanup x mc ns keep s = ((rs, e), s')"
  from run show "\<exists>q. trace s' = trace s @ q \<and> set q \<subseteq> cleaner_requests x (ch_id (mc_cluster mc)) ns keep"
  proof (cases rule: cleaner_cases)
    case listing_failed
    then show ?thesis by (simp add: cleaner_requests_def)
  next
    case (cleaned items ans s1)
    have "lists_matching x \<longrightarrow> (\<forall>o' \<in> set items. get_namespace o' = ns)"
      using k_list_matching[OF cleaned(2)] by blast
    from delete_requests_of[OF cleaned(3,4) this, of "ch_id (mc_cluster mc)"] cleaned(5) show ?thesis
      by (simp add: cleaner_requests_def)
  qed
  from run show "next_ref s \<le> next_ref s' \<and> (\<forall>r < next_ref s. store s' r = store s r)"
    by (cases rule: cleaner_cases) (simp_all add: extends_store_def)
  fix r assume "r \<in> set rs"
  with run show "res_error r \<noteq> None \<and> res_op r = OpDeletionFailed"
  proof (cases rule: cleaner_cases)
    case (cleaned items ans s1)
    with \<open>r \<in> set rs\<close> obtain v where "v \<in> set (filter deletion_failed ans)" "failure_result mc s' v r"
      by (metis in_set_conv_nth list_all2_conv_all_nth)
    then have "ignore_not_found (res_error r) \<noteq> None" "res_op r = OpDeletionFailed"
      by (auto simp: failure_result_def deletion_failed_def split_beta)
    then show ?thesis by (auto simp: ignore_not_found_def split: if_splits)
  qed simp
qed

interpretation secret_cleaner: orphan_cleaner "secretCleaner_Cleanup x mc ns keep"
    "cleaner_requests x (ch_id (mc_cluster mc)) ns keep" for x mc ns keep
  by (rule secret_cleaner)

text \<open>
  C29. Orphaned secrets. A cleanup that could not list the secrets deletes nothing and gives
  the cleanup error. Otherwise it deletes, in the listed order and once each, exactly the
  listed secrets whose name is not to be kept; against a server that lists what it was asked
  for, all of them lie in the instance namespace and carry the managed-by label. Its results
  are, in order, the failed deletions other than "not found", each with its secret, its error
  and the cleanup failure status; everything that existed in the store is left alone.
\<close>

theorem cleaner_exact:
  assumes "secretCleaner_Cleanup x mc ns keep s = ((rs, e), s')" "lists_matching x"
  shows "(e \<noteq> None \<longrightarrow> e = Some ErrSecretCleanup \<and> rs = []
           \<and> (\<exists>err. trace s' = trace s @ [ReqListSecrets (ch_id (mc_cluster mc)) ns (Some err)]))
    \<and> (e = None \<longrightarrow>
        (\<exists>items s1 answered. k_list_secrets x (mc_cluster mc) ns ManagedBy s = ((items, None), s1)
           \<and> map fst answered = [o' \<leftarrow> items. get_name o' \<notin> set keep]
           \<and> trace s' = trace s @ ReqListSecrets (ch_id (mc_cluster mc)) ns None
                 # map (\<lambda>(o', a). ReqDelete (ch_id (mc_cluster mc)) ''Secret'' (ns, get_name o') a) answered
           \<and> (\<forall>o' \<in> set items. map_get (get_labels o') LabelManagedBy = LabelManagedByValue)
           \<and> list_all2 (failure_result mc s') [v \<leftarrow> answered. ignore_not_found (snd v) \<noteq> None] rs))
    \<and> (\<forall>r < next_ref s. store s' r = store s r)"
  using assms(1)
proof (cases rule: cleaner_cases)
  case (listing_failed err)
  then show ?thesis by (auto simp: extends_store_def)
next
  case (cleaned items ans s1)
  obtain os w where "x_list_secrets x (ch_id (mc_cluster mc)) ns ManagedBy (world s) = (os, None, w)"
    "set items \<subseteq> set os" using cleaned(2) by (auto simp: k_list_secrets_def split: prod.splits)
  with assms(2) have it: "\<forall>o' \<in> set items. get_namespace o' = ns \<and> map_get (get_labels o') LabelManagedBy = LabelManagedByValue"
    unfolding lists_matching_def ManagedBy_def by fastforce
  have mem: "o' \<in> set items" if "(o', a) \<in> set ans" for o' a
    using that cleaned(3) by (force simp: victims_def dest: arg_cong[of _ _ set])
  have req: "map (delete_request c) ans = map (\<lambda>(o', a). ReqDelete c ''Secret'' (ns, get_name o') a) ans" for c
    using it cleaned(4) mem by (auto simp: delete_request_def object_key_def)
  have "deletion_failed = (\<lambda>v. ignore_not_found (snd v) \<noteq> None)"
    by (auto simp: deletion_failed_def)
  with cleaned it show ?thesis
    by (auto simp: extends_store_def req victims_def intro!: exI[of _ ans])
qed

subsection \<open>The managed pull secrets\<close>

definition pull_secret_entry :: "'w ext \<Rightarrow> cluster_handle \<Rightarrow> string \<Rightarrow> string \<Rightarrow> string \<Rightarrow> 'w entry" where
  "pull_secret_entry x c tns sns name = (new_object name tns (Secret None ''''),
     \<lparr>moc_reconcile = Some (pull_secret_reconcile x c name tns sns), moc_depends_on = [], moc_policy = NoPolicy,
      moc_status = Some SimpleStatus\<rparr>)"

lemma configure_secrets_adds:
  "configure_secrets x c pulls sns mc s = adds mc s (map (pull_secret_entry x c (mc_namespace mc) sns) pulls)"
  by (induction x c pulls sns mc s rule: configure_secrets.induct)
    (simp_all add: pull_secret_entry_def GetDefaultNamespace_def add_managed_eq)

end
