(* ===== verification/Go_Float.thy ===== *)
theory Go_Float
  imports Go_Time
begin

text \<open>
  The part of IEEE 754 double precision (Go's \<open>float64\<close>) that \<open>time.Duration.Seconds\<close> needs:
  the quotient and the sum of nonnegative numbers below 2^52, rounded to 53 significant bits,
  the nearest and of two nearest the even one. A float is a dyadic fraction: \<open>(m, k)\<close> stands
  for \<open>m / 2 ^ k\<close>. The magnitudes that occur, from 1e-9 to below 2^34, are neither subnormal
  nor near the overflow.
\<close>

subsection \<open>Rounding\<close>

type_synonym dyadic = "nat \<times> nat"

fun bits_len :: "nat \<Rightarrow> nat" where
  "bits_len n = (if n = 0 then 0 else Suc (bits_len (n div 2)))"

declare bits_len.simps [simp del]

text \<open>The integer nearest to \<open>n / d\<close>, of two the even one.\<close>

definition nearest_even :: "nat \<Rightarrow> nat \<Rightarrow> nat" where
  "nearest_even n d = (let q = n div d; r = n mod d in
     if 2 * r < d then q else if 2 * r > d then q + 1 else if even q then q else q + 1)"

text \<open>
  The float nearest to \<open>n / d\<close>: the scale \<open>k\<close> is the one that brings \<open>n / d * 2 ^ k\<close> between
  2^52 and 2^53, so that 53 bits are left.
\<close>

definition float64_of :: "nat \<Rightarrow> nat \<Rightarrow> dyadic" where
  "float64_of n d = (let k0 = 52 + bits_len d - bits_len n;
                         k = (if n * 2 ^ k0 < 2 ^ 52 * d then k0 + 1 else k0)
                     in (nearest_even (n * 2 ^ k) d, k))"

text \<open>\<open>float64(i) + f\<close> for a small integer \<open>i\<close>, which is itself a float.\<close>

definition float64_add :: "nat \<Rightarrow> dyadic \<Rightarrow> dyadic" where
  "float64_add i f = float64_of (i * 2 ^ snd f + fst f) (2 ^ snd f)"

text \<open>\<open>int64(f)\<close> drops the fraction.\<close>

definition dyadic_floor :: "dyadic \<Rightarrow> nat" where
  "dyadic_floor f = fst f div 2 ^ snd f"

text \<open>
  \<open>int64(d.Seconds())\<close>: \<open>Seconds\<close> is \<open>float64(d / Second) + float64(d % Second) / 1e9\<close>, where
  Go's division goes towards zero, and every operation commutes with the sign.
\<close>

definition seconds_of :: "nat \<Rightarrow> nat" where
  "seconds_of n = dyadic_floor (float64_add (n div 1000000000) (float64_of (n mod 1000000000) 1000000000))"

definition duration_seconds :: "duration \<Rightarrow> int" where
  "duration_seconds d = sgn d * int (seconds_of (nat \<bar>d\<bar>))"

subsection \<open>How far the rounding can go\<close>

lemma nearest_even_exact: "0 < d \<Longrightarrow> nearest_even (q * d) d = q"
  by (simp add: nearest_even_def)

lemma nearest_even_ge:
  assumes "a * d \<le> n" "0 < d"
  shows "a \<le> nearest_even n d"
proof -
  have "a \<le> n div d" using assms by (simp add: less_eq_div_iff_mult_less_eq)
  then show ?thesis by (auto simp: nearest_even_def Let_def)
qed

lemma nearest_even_le:
  assumes "n \<le> a * d" "0 < d"
  shows "nearest_even n d \<le> a"
proof (cases "n = a * d")
  case True
  then show ?thesis using nearest_even_exact assms(2) by simp
next
  case False
  then have "n div d < a" using assms by (simp add: div_less_iff_less_mult)
  then show ?thesis by (auto simp: nearest_even_def Let_def)
qed

text \<open>Rounding keeps an integer below and an integer above.\<close>

lemma float64_of_between:
  assumes "a * d \<le> n" "n \<le> b * d" "0 < d"
  shows "a * 2 ^ snd (float64_of n d) \<le> fst (float64_of n d)" "fst (float64_of n d) \<le> b * 2 ^ snd (float64_of n d)"
proof -
  define k where "k = snd (float64_of n d)"
  have f: "fst (float64_of n d) = nearest_even (n * 2 ^ k) d" by (simp add: k_def float64_of_def Let_def)
  have "a * 2 ^ k * d \<le> n * 2 ^ k" "n * 2 ^ k \<le> b * 2 ^ k * d"
    using assms(1,2) mult_le_mono1[of _ _ "2 ^ k"] by (simp_all add: ac_simps)
  then show "a * 2 ^ snd (float64_of n d) \<le> fst (float64_of n d)" "fst (float64_of n d) \<le> b * 2 ^ snd (float64_of n d)"
    using nearest_even_ge nearest_even_le assms(3) unfolding f k_def[symmetric] by blast+
qed

lemma float64_add_between:
  assumes "fst f \<le> 2 ^ snd f"
  shows "dyadic_floor (float64_add i f) \<in> {i, i + 1}"
proof -
  define g where "g = float64_add i f"
  have "i * 2 ^ snd g \<le> fst g \<and> fst g \<le> (i + 1) * 2 ^ snd g"
    unfolding g_def float64_add_def
    using float64_of_between[of i "2 ^ snd f" "i * 2 ^ snd f + fst f" "i + 1"] assms by simp
  then have "i \<le> fst g div 2 ^ snd g" "fst g div 2 ^ snd g \<le> i + 1"
    by (simp_all add: less_eq_div_iff_mult_less_eq div_le_mono[of _ "(i + 1) * 2 ^ snd g" "2 ^ snd g", simplified])
  then show ?thesis unfolding dyadic_floor_def g_def[symmetric] by auto
qed

lemma float64_of_zero [simp]: "fst (float64_of 0 d) = 0"
  by (simp add: float64_of_def Let_def nearest_even_def)

lemma float64_add_zero: "fst f = 0 \<Longrightarrow> dyadic_floor (float64_add i f) = i"
proof -
  assume f: "fst f = 0"
  define g where "g = float64_of (i * 2 ^ snd f) (2 ^ snd f)"
  have "fst g = i * 2 ^ snd g"
    unfolding g_def using float64_of_between[of i "2 ^ snd f" "i * 2 ^ snd f" i] by simp
  with f show ?thesis by (simp add: float64_add_def dyadic_floor_def flip: g_def)
qed

text \<open>
  Whole seconds are exact; otherwise the result is the whole seconds or, when the rounding
  crosses the next second, one more.
\<close>

lemma seconds_of_between: "seconds_of n \<in> {n div 1000000000, n div 1000000000 + 1}"
proof -
  let ?f = "float64_of (n mod 1000000000) 1000000000"
  have "fst ?f \<le> 1 * 2 ^ snd ?f"
    by (rule float64_of_between(2)[of 0]) (simp_all add: less_imp_le)
  then show ?thesis unfolding seconds_of_def by (intro float64_add_between) simp
qed

lemma seconds_of_whole: "seconds_of (k * 1000000000) = k"
  by (simp add: seconds_of_def float64_add_zero)

lemma duration_seconds_whole:
  assumes "0 \<le> d" "second dvd d"
  shows "duration_seconds d = d div second"
proof -
  obtain k where d: "d = second * k" using assms(2) by (rule dvdE)
  with assms(1) have k: "0 \<le> k" by (simp add: second_def zero_le_mult_iff)
  have "nat \<bar>d\<bar> = nat k * 1000000000" using d k by (simp add: second_def nat_mult_distrib)
  then have "seconds_of (nat \<bar>d\<bar>) = nat k" by (simp only: seconds_of_whole)
  with d k show ?thesis by (cases "k = 0") (simp_all add: duration_seconds_def second_def sgn_if)
qed

lemma duration_seconds_between:
  assumes "0 < d"
  shows "duration_seconds d \<in> {d div second, d div second + 1}"
proof -
  have n: "int (nat \<bar>d\<bar> div 1000000000) = d div second"
    using assms by (simp add: second_def zdiv_int)
  from seconds_of_between[of "nat \<bar>d\<bar>"] have "seconds_of (nat \<bar>d\<bar>) = nat \<bar>d\<bar> div 1000000000
    \<or> seconds_of (nat \<bar>d\<bar>) = nat \<bar>d\<bar> div 1000000000 + 1" by blast
  with n assms show ?thesis by (auto simp: duration_seconds_def)
qed

lemma duration_seconds_hour [simp]: "duration_seconds hour = 3600"
  using duration_seconds_whole[of hour] by (simp add: hour_def second_def)

text \<open>The rounding does cross: 2^24 seconds and 999999999 nanoseconds give one second more.\<close>

lemma duration_seconds_crosses: "duration_seconds (16777216 * second + 999999999) = 16777217"
  by (simp add: duration_seconds_def seconds_of_def second_def float64_add_def float64_of_def nearest_even_def
      dyadic_floor_def bits_len.simps Let_def)

end
