(* ===== verification/Service_Accounts.thy ===== *)
theory Service_Accounts
  imports Namespaces Go_Float
begin

text \<open>
  \<open>pkg/authn/serviceaccount.go\<close>: the service account of the Velero server on the managed
  control plane, its token, the workload-cluster secret that holds the token and is refreshed
  in time, and the function that mounts it into a pod. The three "add or replace" loops share
  one interface, \<open>upsert_by_name\<close>.
\<close>

subsection \<open>Constants and data\<close>

definition serviceAccountMountPath :: string where
  "serviceAccountMountPath = ''/var/run/secrets/kubernetes.io/serviceaccount''"

definition serviceAccountVolume :: string where
  "serviceAccountVolume = ''kube-api-access''"

definition annotationTokenExpirationTime :: string where
  "annotationTokenExpirationTime = ''velero.services.openmcp.cloud/token-expiration-time''"

definition errSANameOrNamespaceEmpty :: error where
  "errSANameOrNamespaceEmpty = ErrorVar ''errSANameOrNamespaceEmpty''
     ''name or namespace in service account reference must not be empty''"

definition errRestConfigNil :: error where
  "errRestConfigNil = ErrorVar ''errRestConfigNil'' ''rest config must not be nil''"

definition errExpirationInvalid :: error where
  "errExpirationInvalid = ErrorVar ''errExpirationInvalid'' ''must not specify a duration less than 10 minutes''"

record service_account_token =
  tok_ca :: bytes
  tok_token :: string
  tok_expiry :: gotime

record managed_service_account =
  msa_name :: string
  msa_namespace :: string

definition kubeAPIAccess :: "managed_service_account \<Rightarrow> string" where
  "kubeAPIAccess m = ''kube-api-access-'' @ msa_name m"

definition SecretRef :: "managed_service_account \<Rightarrow> string" where
  "SecretRef m = kubeAPIAccess m"

subsection \<open>Token generation\<close>

definition generateToken :: "'w ext \<Rightarrow> cluster_handle \<Rightarrow> rest_config option \<Rightarrow> managed_service_account
    \<Rightarrow> duration \<Rightarrow> 'w st \<Rightarrow> (error + service_account_token) \<times> 'w st" where
  "generateToken x mcp cfg svcAccRef expiration s =
     (if msa_name svcAccRef = '''' \<or> msa_namespace svcAccRef = '''' then (Inl errSANameOrNamespaceEmpty, s)
      else case cfg of
        None \<Rightarrow> (Inl errRestConfigNil, s)
      | Some c \<Rightarrow>
          if expiration < 10 * minute then (Inl errExpirationInvalid, s)
          else (case k_get x mcp (msa_namespace svcAccRef, msa_name svcAccRef) (new_object '''' '''' ServiceAccount) s of
            ((sa, Some err), s1) \<Rightarrow> (Inl err, s1)
          | ((sa, None), s1) \<Rightarrow>
              (case k_create_token x mcp sa (duration_seconds expiration) s1 of
                 ((_, Some err), s2) \<Rightarrow> (Inl err, s2)
               | (((token, expiry), None), s2) \<Rightarrow>
                   if rc_ca_file c \<noteq> '''' then
                     (case os_read_file x (rc_ca_file c) s2 of
                        ((_, Some err), s3) \<Rightarrow> (Inl err, s3)
                      | ((caBytes, None), s3) \<Rightarrow>
                          (Inr \<lparr>tok_ca = caBytes, tok_token = token, tok_expiry = expiry\<rparr>, s3))
                   else (Inr \<lparr>tok_ca = rc_ca_data c, tok_token = token, tok_expiry = expiry\<rparr>, s2))))"

text \<open>
  \<open>getTokenExpirationTime\<close>; \<open>None\<close> stands for either of its errors, which its caller only
  tests for presence. \<open>setTokenExpirationTime\<close> writes to the annotation map.
\<close>

definition getTokenExpirationTime :: "client_object \<Rightarrow> gotime option" where
  "getTokenExpirationTime o' =
     (case om_annotations (meta o') of
        None \<Rightarrow> None
      | Some as \<Rightarrow> time_parse_rfc3339 (map_get (Some as) annotationTokenExpirationTime))"

definition setTokenExpirationTime :: "client_object \<Rightarrow> gotime \<Rightarrow> client_object" where
  "setTokenExpirationTime o' expTime =
     (let as = (case om_annotations (meta o') of None \<Rightarrow> Map.empty | Some m \<Rightarrow> m)
      in o'\<lparr>meta := (meta o')\<lparr>om_annotations :=
             Some (as(annotationTokenExpirationTime \<mapsto> time_format_rfc3339 expTime))\<rparr>\<rparr>)"

definition token_data :: "service_account_token \<Rightarrow> string \<Rightarrow> (string \<rightharpoonup> bytes) option" where
  "token_data rc ns = Some [''token'' \<mapsto> tok_token rc, ''namespace'' \<mapsto> ns, ''ca.crt'' \<mapsto> tok_ca rc]"

text \<open>
  The refresh condition: no readable expiration time, or one before the next reconcile with
  a safeguard of a minute.
\<close>

definition token_due :: "client_object \<Rightarrow> gotime \<Rightarrow> duration \<Rightarrow> bool" where
  "token_due o' now pollInterval =
     (let nextReconcile = time_add (time_add now pollInterval) minute
      in case getTokenExpirationTime o' of
           None \<Rightarrow> True
         | Some expirationTime \<Rightarrow> time_before expirationTime nextReconcile)"

text \<open>The reconcile closure of the token secret. It refreshes the token before it can expire.\<close>

definition token_reconcile :: "'w ext \<Rightarrow> managed_service_account \<Rightarrow> 'w managed_cluster \<Rightarrow> duration
    \<Rightarrow> 'w reconcile_func" where
  "token_reconcile x m mcpCluster pollInterval o' s =
     (case body o' of
        Secret data ty \<Rightarrow>
          (let (now, s1) = time_now x s
           in if token_due o' now pollInterval then
                (case generateToken x (mc_cluster mcpCluster) (mc_cfg mcpCluster) m hour s1 of
                   (Inl err, s2) \<Rightarrow> Some ((o', Some err), s2)
                 | (Inr rc, s2) \<Rightarrow>
                     Some ((setTokenExpirationTime
                             (o'\<lparr>body := Secret (token_data rc (GetDefaultNamespace mcpCluster)) ty\<rparr>)
                             (tok_expiry rc), None), s2))
              else Some ((o', None), s1))
      | _ \<Rightarrow> None)"

subsection \<open>Mounting the token\<close>

type_synonym token_apply_func = "pod_spec \<Rightarrow> pod_spec option"

fun upsert_volume :: "volume \<Rightarrow> volume list \<Rightarrow> volume list" where
  "upsert_volume vol [] = [vol]"
| "upsert_volume vol (v # vs) = (if vol_name v = vol_name vol then vol # vs else v # upsert_volume vol vs)"

fun upsert_env :: "env_var \<Rightarrow> env_var list \<Rightarrow> env_var list" where
  "upsert_env env [] = [env]"
| "upsert_env env (e # es) = (if ev_name e = ev_name env then env # es else e # upsert_env env es)"

fun upsert_mount :: "volume_mount \<Rightarrow> volume_mount list \<Rightarrow> volume_mount list" where
  "upsert_mount vm [] = [vm]"
| "upsert_mount vm (m # ms) = (if vm_name m = vm_name vm then vm # ms else m # upsert_mount vm ms)"

definition addOrReplaceVolume :: "volume \<Rightarrow> pod_spec \<Rightarrow> pod_spec" where
  "addOrReplaceVolume vol ps = ps\<lparr>ps_volumes := upsert_volume vol (ps_volumes ps)\<rparr>"

definition addOrReplaceEnv :: "env_var \<Rightarrow> container \<Rightarrow> container" where
  "addOrReplaceEnv env c = c\<lparr>c_env := upsert_env env (c_env c)\<rparr>"

definition addOrReplaceVolumeMount :: "volume_mount \<Rightarrow> container \<Rightarrow> container" where
  "addOrReplaceVolumeMount vm c = c\<lparr>c_mounts := upsert_mount vm (c_mounts c)\<rparr>"

definition applyToContainer :: "'w managed_cluster \<Rightarrow> container \<Rightarrow> container option" where
  "applyToContainer remoteCluster c = do {
     (remoteHost, remotePort) \<leftarrow> GetHostAndPort remoteCluster;
     Some
       (addOrReplaceEnv \<lparr>ev_name = ''KUBERNETES_SERVICE_PORT'', ev_value = remotePort\<rparr>
         (addOrReplaceEnv \<lparr>ev_name = ''KUBERNETES_SERVICE_HOST'', ev_value = remoteHost\<rparr>
           (addOrReplaceVolumeMount
             \<lparr>vm_name = serviceAccountVolume, vm_path = serviceAccountMountPath, vm_read_only = True\<rparr> c))) }"

definition token_apply :: "managed_service_account \<Rightarrow> 'w managed_cluster \<Rightarrow> token_apply_func" where
  "token_apply m mcpCluster ps = do {
     let ps1 = addOrReplaceVolume
       \<lparr>vol_name = serviceAccountVolume, vol_source = SecretVolume (kubeAPIAccess m) (Some False)\<rparr> ps;
     cs \<leftarrow> those (map (applyToContainer mcpCluster) (ps_containers ps1));
     ics \<leftarrow> those (map (applyToContainer mcpCluster) (ps_init_containers ps1));
     Some (ps1\<lparr>ps_containers := cs, ps_init_containers := ics\<rparr>) }"

text \<open>
  \<open>Configure\<close>: the service account goes to the control plane, the token secret, which
  depends on it, to the workload cluster. Returns the two clusters and the mount function.
\<close>

definition configure_service_account :: "'w ext \<Rightarrow> managed_service_account \<Rightarrow> 'w managed_cluster
    \<Rightarrow> 'w managed_cluster \<Rightarrow> duration \<Rightarrow> 'w st
    \<Rightarrow> (token_apply_func \<times> 'w managed_cluster \<times> 'w managed_cluster) \<times> 'w st" where
  "configure_service_account x m workloadCluster mcpCluster pollInterval s =
     (let (msa, mcpCluster1, s1) = add_managed
            (new_object (msa_name m) (msa_namespace m) ServiceAccount)
            \<lparr>moc_reconcile = Some NoOp, moc_depends_on = [], moc_policy = NoPolicy,
             moc_status = Some SimpleStatus\<rparr> mcpCluster s;
          (secret, workloadCluster1, s2) = add_managed
            (new_object (kubeAPIAccess m) (GetDefaultNamespace workloadCluster) (Secret None ''''))
            \<lparr>moc_reconcile = Some (token_reconcile x m mcpCluster1 pollInterval), moc_depends_on = [msa],
             moc_policy = NoPolicy, moc_status = Some SimpleStatus\<rparr> workloadCluster s1
      in ((token_apply m mcpCluster1, workloadCluster1, mcpCluster1), s2))"

subsection \<open>Adding or replacing by name\<close>

text \<open>
  The contract of the three loops: the first entry of the same name is replaced, or the new
  one is appended.
\<close>

locale upsert_by_name =
  fixes name_of :: "'a \<Rightarrow> string" and put :: "'a \<Rightarrow> 'a list \<Rightarrow> 'a list"
  assumes put_Nil: "put v [] = [v]"
    and put_Cons: "put v (a # as) = (if name_of a = name_of v then v # as else a # put v as)"
begin

lemma names: "map name_of (put v as) =
    (if name_of v \<in> name_of ` set as then map name_of as else map name_of as @ [name_of v])"
  by (induction as) (auto simp: put_Nil put_Cons)

lemma name_set: "name_of ` set (put v as) = insert (name_of v) (name_of ` set as)"
  by (induction as) (auto simp: put_Nil put_Cons)

lemma mem: "v \<in> set (put v as)"
  by (induction as) (auto simp: put_Nil put_Cons)

lemma idem: "put v (put v as) = put v as"
  by (induction as) (auto simp: put_Nil put_Cons)

lemma others: "name_of v = n \<Longrightarrow> filter (\<lambda>a. name_of a \<noteq> n) (put v as) = filter (\<lambda>a. name_of a \<noteq> n) as"
  by (induction as) (auto simp: put_Nil put_Cons)

lemma others_of: "name_of v \<in> N \<Longrightarrow> filter (\<lambda>a. name_of a \<notin> N) (put v as) = filter (\<lambda>a. name_of a \<notin> N) as"
  by (induction as) (auto simp: put_Nil put_Cons)

lemma keeps_distinct: "distinct (map name_of as) \<Longrightarrow> distinct (map name_of (put v as))"
  by (simp add: names image_iff)

lemma only_one: "distinct (map name_of as) \<Longrightarrow> a \<in> set (put v as) \<Longrightarrow> name_of a = name_of v \<Longrightarrow> a = v"
  using keeps_distinct[of as v] mem[of v as] unfolding distinct_map inj_on_def by blast

lemma settled: "put v as = as \<Longrightarrow> name_of u \<noteq> name_of v \<Longrightarrow> put v (put u as) = put u as"
proof (induction as)
  case Nil
  then show ?case by (simp add: put_Nil)
next
  case (Cons a as)
  show ?case
  proof (cases "name_of a = name_of v")
    case True
    have "put v (a # as) = v # as" using True by (subst put_Cons) (rule if_P)
    with Cons.prems(1) have "v = a" by (metis list.inject)
    with Cons.prems(2) show ?thesis by (simp add: put_Cons)
  next
    case False
    with Cons.prems have "put v as = as" by (simp add: put_Cons)
    with Cons False show ?thesis by (simp add: put_Cons)
  qed
qed

lemma keeps_other: "a \<in> set as \<Longrightarrow> name_of a \<noteq> name_of v \<Longrightarrow> a \<in> set (put v as)"
  by (induction as) (auto simp: put_Nil put_Cons)

end

interpretation volumes: upsert_by_name vol_name upsert_volume
  by unfold_locales simp_all

interpretation envs: upsert_by_name ev_name upsert_env
  by unfold_locales simp_all

interpretation mounts: upsert_by_name vm_name upsert_mount
  by unfold_locales simp_all

subsection \<open>The mounted pod\<close>

definition host_env :: "string \<Rightarrow> env_var" where
  "host_env h = \<lparr>ev_name = ''KUBERNETES_SERVICE_HOST'', ev_value = h\<rparr>"

definition port_env :: "string \<Rightarrow> env_var" where
  "port_env p = \<lparr>ev_name = ''KUBERNETES_SERVICE_PORT'', ev_value = p\<rparr>"

definition token_mount :: volume_mount where
  "token_mount = \<lparr>vm_name = serviceAccountVolume, vm_path = serviceAccountMountPath, vm_read_only = True\<rparr>"

definition token_volume :: "managed_service_account \<Rightarrow> volume" where
  "token_volume m = \<lparr>vol_name = serviceAccountVolume, vol_source = SecretVolume (kubeAPIAccess m) (Some False)\<rparr>"

definition with_access :: "string \<Rightarrow> string \<Rightarrow> container \<Rightarrow> container" where
  "with_access h p c = c\<lparr>c_env := upsert_env (port_env p) (upsert_env (host_env h) (c_env c)),
     c_mounts := upsert_mount token_mount (c_mounts c)\<rparr>"

lemma env_names [simp]:
  "ev_name (host_env h) = ''KUBERNETES_SERVICE_HOST''" "ev_name (port_env p) = ''KUBERNETES_SERVICE_PORT''"
  "vm_name token_mount = serviceAccountVolume" "vol_name (token_volume m) = serviceAccountVolume"
  by (simp_all add: host_env_def port_env_def token_mount_def token_volume_def)

lemma with_access_idem: "with_access h p (with_access h p c) = with_access h p c"
proof -
  have "upsert_env (host_env h) (upsert_env (port_env p) (upsert_env (host_env h) es)) =
      upsert_env (port_env p) (upsert_env (host_env h) es)" for es
    by (rule envs.settled) (simp_all add: envs.idem)
  then show ?thesis by (simp add: with_access_def envs.idem mounts.idem)
qed

lemma applyToContainer_eq [go_run]:
  "applyToContainer mc = (\<lambda>c. case GetHostAndPort mc of None \<Rightarrow> None | Some (h, p) \<Rightarrow> Some (with_access h p c))"
  by (intro ext) (auto simp: applyToContainer_def with_access_def addOrReplaceEnv_def addOrReplaceVolumeMount_def
      host_env_def port_env_def token_mount_def split: option.splits)

lemma those_map_Some: "those (map (\<lambda>a. Some (f a)) as) = Some (map f as)"
  by (induction as) auto

lemma those_map_None: "those (map (\<lambda>a. None) as) = (if as = [] then Some [] else None)"
  by (cases as) auto

lemma token_apply_eq [go_run]:
  "token_apply m mc ps =
     (let ps1 = ps\<lparr>ps_volumes := upsert_volume (token_volume m) (ps_volumes ps)\<rparr>
      in case GetHostAndPort mc of
           None \<Rightarrow> if ps_containers ps = [] \<and> ps_init_containers ps = [] then Some ps1 else None
         | Some (h, p) \<Rightarrow> Some (ps1\<lparr>ps_containers := map (with_access h p) (ps_containers ps),
                                 ps_init_containers := map (with_access h p) (ps_init_containers ps)\<rparr>))"
  by (cases "GetHostAndPort mc")
    (auto simp: token_apply_def applyToContainer_eq addOrReplaceVolume_def token_volume_def
      those_map_Some those_map_None Let_def split: prod.splits)

text \<open>
  A container that was given access to the remote API server and is otherwise as before.
\<close>

definition access_only :: "string \<Rightarrow> string \<Rightarrow> container \<Rightarrow> container \<Rightarrow> bool" where
  "access_only h p c c' =
     (c'\<lparr>c_env := c_env c, c_mounts := c_mounts c\<rparr> = c
      \<and> host_env h \<in> set (c_env c') \<and> port_env p \<in> set (c_env c') \<and> token_mount \<in> set (c_mounts c')
      \<and> [e \<leftarrow> c_env c'. ev_name e \<notin> {''KUBERNETES_SERVICE_HOST'', ''KUBERNETES_SERVICE_PORT''}]
        = [e \<leftarrow> c_env c. ev_name e \<notin> {''KUBERNETES_SERVICE_HOST'', ''KUBERNETES_SERVICE_PORT''}]
      \<and> [v \<leftarrow> c_mounts c'. vm_name v \<noteq> serviceAccountVolume] = [v \<leftarrow> c_mounts c. vm_name v \<noteq> serviceAccountVolume]
      \<and> (distinct (map ev_name (c_env c)) \<longrightarrow> distinct (map ev_name (c_env c'))))"

lemma with_access_only: "access_only h p c (with_access h p c)"
proof -
  have env: "filter (\<lambda>e. ev_name e \<notin> {''KUBERNETES_SERVICE_HOST'', ''KUBERNETES_SERVICE_PORT''})
        (upsert_env (port_env p) (upsert_env (host_env h) es))
      = filter (\<lambda>e. ev_name e \<notin> {''KUBERNETES_SERVICE_HOST'', ''KUBERNETES_SERVICE_PORT''}) es" for es
    by (rule trans[OF envs.others_of envs.others_of]) simp_all
  have "host_env h \<in> set (upsert_env (port_env p) (upsert_env (host_env h) es))" for es
    by (rule envs.keeps_other[OF envs.mem]) simp
  then show ?thesis
    unfolding access_only_def with_access_def
    using env by (simp add: envs.mem mounts.mem mounts.others envs.keeps_distinct)
qed

lemma ex2I: "P a b \<Longrightarrow> \<exists>a b. P a b"
  by blast

lemma list_all2_with_access: "list_all2 (access_only h p) cs (map (with_access h p) cs)"
  by (simp add: list_all2_conv_all_nth with_access_only)

text \<open>
  C24. Mounting the token. The function \<open>Configure\<close> returns panics exactly on a pod with
  containers when the control plane has no REST configuration. Otherwise applying it twice
  is applying it once; every container and init container gets the API host and port of the
  control plane and the read-only token mount, and nothing else of it changes; the pod gets
  the volume of the token secret and keeps its other volumes and fields.
\<close>

theorem token_mount_spec:
  "(token_apply m mc ps = None \<longleftrightarrow> mc_cfg mc = None \<and> ps_containers ps @ ps_init_containers ps \<noteq> [])
   \<and> (\<forall>ps'. token_apply m mc ps = Some ps' \<longrightarrow>
        token_apply m mc ps' = Some ps'
        \<and> (\<exists>h p. list_all2 (access_only h p) (ps_containers ps @ ps_init_containers ps)
                    (ps_containers ps' @ ps_init_containers ps')
              \<and> (ps_containers ps @ ps_init_containers ps = [] \<or> GetHostAndPort mc = Some (h, p)))
        \<and> token_volume m \<in> set (ps_volumes ps')
        \<and> [v \<leftarrow> ps_volumes ps'. vol_name v \<noteq> serviceAccountVolume] = [v \<leftarrow> ps_volumes ps. vol_name v \<noteq> serviceAccountVolume]
        \<and> ps'\<lparr>ps_volumes := ps_volumes ps, ps_containers := ps_containers ps,
              ps_init_containers := ps_init_containers ps\<rparr> = ps)"
proof (cases "GetHostAndPort mc")
  case None
  then have "mc_cfg mc = None" by (cases "mc_cfg mc") (auto simp: GetHostAndPort_def split: prod.splits)
  with None show ?thesis
    by (auto simp: token_apply_eq Let_def volumes.mem volumes.others volumes.idem split: if_splits)
next
  case (Some hp)
  obtain h p where hp: "hp = (h, p)" by force
  have "mc_cfg mc \<noteq> None" using Some by (cases "mc_cfg mc") (auto simp: GetHostAndPort_def)
  then show ?thesis using Some hp
    by (auto simp: token_apply_eq Let_def volumes.mem volumes.others volumes.idem comp_def with_access_idem
        list_all2_with_access intro!: list_all2_appendI ex2I[of _ h p])
qed

subsection \<open>Generating and refreshing the token\<close>

text \<open>The requests a token generation may issue, and a guard that none passes.\<close>

definition token_requests :: "string \<Rightarrow> managed_service_account \<Rightarrow> request set" where
  "token_requests c m = {ReqGet c ''ServiceAccount'' (msa_namespace m, msa_name m) e |e. True}
     \<union> {ReqCreateToken c k 3600 e |k e. True}"

lemma generateToken_frame:
  assumes "generateToken x c cfg m hour s = (r, s')"
  shows "store s' = store s \<and> next_ref s' = next_ref s
    \<and> (\<exists>rs. trace s' = trace s @ rs \<and> set rs \<subseteq> token_requests (ch_id c) m)"
  using assms
  by (auto simp: generateToken_def token_requests_def split: if_splits option.splits prod.splits
      dest!: k_get_effect k_create_token_effect os_read_file_effect)

lemma setTokenExpirationTime_simps [simp]:
  "body (setTokenExpirationTime o' t) = body o'" "kind_of (setTokenExpirationTime o' t) = kind_of o'"
  "object_key (setTokenExpirationTime o' t) = object_key o'"
  "get_labels (setTokenExpirationTime o' t) = get_labels o'"
  by (simp_all add: setTokenExpirationTime_def kind_of_def object_key_def get_name_def get_namespace_def get_labels_def)

lemma token_read_back:
  assumes "rfc3339_representable t"
  shows "getTokenExpirationTime (setTokenExpirationTime o' t) = Some (truncate_to_second t)"
  using rfc3339_roundtrip[OF assms] by (simp add: getTokenExpirationTime_def setTokenExpirationTime_def)

text \<open>
  C25. Expiration round trip. For any instant RFC 3339 can write, reading the annotation back
  gives the instant cut to its whole second, so never a later one and less than a second
  earlier; every other annotation and the rest of the object are kept.
\<close>

theorem expiration_roundtrip:
  assumes "rfc3339_representable t"
  shows "(\<exists>t'. getTokenExpirationTime (setTokenExpirationTime o' t) = Some t' \<and> t_zone t' = t_zone t
      \<and> t_ns t' \<le> t_ns t \<and> t_ns t < t_ns t' + second \<and> t_ns t' mod second = 0
      \<and> getTokenExpirationTime (setTokenExpirationTime o' t') = Some t')
    \<and> (\<forall>k. k \<noteq> annotationTokenExpirationTime \<longrightarrow>
      map_get (om_annotations (meta (setTokenExpirationTime o' t))) k = map_get (om_annotations (meta o')) k)
    \<and> body (setTokenExpirationTime o' t) = body o' \<and> get_labels (setTokenExpirationTime o' t) = get_labels o'
    \<and> object_key (setTokenExpirationTime o' t) = object_key o'"
proof -
  have sec: "(0 :: int) < second" by (simp add: second_def)
  define t' where "t' = truncate_to_second t"
  have t': "t_zone t' = t_zone t" "t_ns t' = t_ns t div second * second" by (simp_all add: t'_def truncate_to_second_def)
  have "t_ns t' div second = t_ns t div second" using sec by (simp add: t'(2))
  then have "rfc3339_representable t'" "truncate_to_second t' = t'"
    using assms by (simp_all add: rfc3339_representable_def t' truncate_to_second_def)
  then have "getTokenExpirationTime (setTokenExpirationTime o' t) = Some t'"
    "getTokenExpirationTime (setTokenExpirationTime o' t') = Some t'"
    using token_read_back[OF assms] token_read_back[of t'] by (simp_all add: t'_def)
  moreover have "t_ns t' \<le> t_ns t" "t_ns t < t_ns t' + second" "t_ns t' mod second = 0"
    using div_mult_mod_eq[of "t_ns t" second] pos_mod_bound[OF sec, of "t_ns t"] pos_mod_sign[OF sec, of "t_ns t"]
    unfolding t'(2) by (linarith, linarith, simp)
  moreover have "map_get (om_annotations (meta (setTokenExpirationTime o' t))) k = map_get (om_annotations (meta o')) k"
    if "k \<noteq> annotationTokenExpirationTime" for k
    using that by (simp add: setTokenExpirationTime_def map_get_def split: option.split)
  ultimately show ?thesis using t'(1) by simp
qed

lemma kind_of_Secret: "kind_of o' = ''Secret'' \<longleftrightarrow> (\<exists>d ty. body o' = Secret d ty)"
  by (cases "body o'") (auto simp: kind_of_def)

lemma body_frame [simp]:
  "object_key (o'\<lparr>body := b\<rparr>) = object_key o'" "get_labels (o'\<lparr>body := b\<rparr>) = get_labels o'"
  "kind_of (o'\<lparr>body := b\<rparr>) = payload_kind b" "meta (o'\<lparr>body := b\<rparr>) = meta o'"
  by (simp_all add: object_key_def get_name_def get_namespace_def get_labels_def kind_of_def)

text \<open>One run of the closure, by cases: nothing due, a failed generation, a refresh.\<close>

lemma token_reconcile_cases:
  assumes "token_reconcile x m mc poll o' s = Some ((o2, e), s')"
  obtains (fresh) "\<not> token_due o' (fst (time_now x s)) poll" "o2 = o'" "e = None" "s' = snd (time_now x s)"
  | (failed) err where "token_due o' (fst (time_now x s)) poll" "o2 = o'" "e = Some err"
      "generateToken x (mc_cluster mc) (mc_cfg mc) m hour (snd (time_now x s)) = (Inl err, s')"
  | (refreshed) rc d ty where "token_due o' (fst (time_now x s)) poll" "e = None" "body o' = Secret d ty"
      "o2 = setTokenExpirationTime (o'\<lparr>body := Secret (token_data rc (mc_namespace mc)) ty\<rparr>) (tok_expiry rc)"
      "generateToken x (mc_cluster mc) (mc_cfg mc) m hour (snd (time_now x s)) = (Inr rc, s')"
  using assms
  by (auto simp: token_reconcile_def Let_def GetDefaultNamespace_def
      split: payload.splits prod.splits if_splits sum.splits)

lemma token_reconcile_stamped: "stamped_reconciler (token_reconcile x m mc poll) (token_requests (ch_id (mc_cluster mc)) m)"
proof
  fix o' s o2 e s'
  assume run: "token_reconcile x m mc poll o' s = Some ((o2, e), s')"
  have now: "time_now x s = (fst (time_now x s), snd (time_now x s))" by simp
  note tf = time_now_frame[OF now]
  from run show "kind_of o2 = kind_of o' \<and> store s' = store s \<and> next_ref s' = next_ref s"
    by (cases rule: token_reconcile_cases) (use tf in \<open>auto simp: kind_of_Secret kind_of_def dest!: generateToken_frame\<close>)
  from run show "\<exists>rs. trace s' = trace s @ rs \<and> set rs \<subseteq> token_requests (ch_id (mc_cluster mc)) m"
    by (cases rule: token_reconcile_cases) (use tf in \<open>auto dest!: generateToken_frame\<close>)
next
  fix o' s o2 s' iid
  assume run: "token_reconcile x m mc poll o' s = Some ((o2, None), s')"
  from run show "carries_labels iid o' \<Longrightarrow> carries_labels iid o2"
    by (cases rule: token_reconcile_cases) (auto simp: carries_labels_def)
  from run show "object_key o2 = object_key o'"
    by (cases rule: token_reconcile_cases) auto
qed

interpretation token: stamped_reconciler "token_reconcile x m mc poll" "token_requests (ch_id (mc_cluster mc)) m"
  for x m mc poll
  by (rule token_reconcile_stamped)

interpretation token: total_reconciler "token_reconcile x m mc poll" "token_requests (ch_id (mc_cluster mc)) m" "''Secret''"
  for x m mc poll
  by unfold_locales (auto simp: token_reconcile_def kind_of_Secret Let_def split: prod.splits sum.splits)

text \<open>A successful generation: which requests it issued and where its data comes from.\<close>

lemma generateToken_Inr:
  assumes "generateToken x c cfg m d s = (Inr rc, s')"
  shows "msa_name m \<noteq> [] \<and> msa_namespace m \<noteq> [] \<and> 10 * minute \<le> d
    \<and> (\<exists>rest sa s1 s2. cfg = Some rest
        \<and> k_get x c (msa_namespace m, msa_name m) (new_object [] [] ServiceAccount) s = ((sa, None), s1)
        \<and> k_create_token x c sa (duration_seconds d) s1 = (((tok_token rc, tok_expiry rc), None), s2)
        \<and> (if rc_ca_file rest = [] then tok_ca rc = rc_ca_data rest \<and> s' = s2
           else os_read_file x (rc_ca_file rest) s2 = ((tok_ca rc, None), s')))"
  using assms
  by (auto simp: generateToken_def split: if_splits option.splits prod.splits)

text \<open>The documented behaviour of a read: a successful one returns the object of the key asked for.\<close>

definition gets_key_asked :: "'w ext \<Rightarrow> bool" where
  "gets_key_asked x = (\<forall>c k o' w o2 w'. x_get x c k o' w = (o2, None, w') \<longrightarrow> kind_of o2 = kind_of o' \<and> object_key o2 = k)"

text \<open>What stands behind a token that is returned: the account read, the token granted for it, the CA, the log.\<close>

definition granted_token :: "'w ext \<Rightarrow> cluster_handle \<Rightarrow> rest_config option \<Rightarrow> managed_service_account \<Rightarrow> int
    \<Rightarrow> 'w st \<Rightarrow> service_account_token \<Rightarrow> 'w st \<Rightarrow> bool" where
  "granted_token x c cfg m secs s rc s' \<longleftrightarrow> (\<exists>rest sa o2 w1 w2. cfg = Some rest
     \<and> x_get x (ch_id c) (msa_namespace m, msa_name m) (new_object [] [] ServiceAccount) (world s) = (o2, None, w1)
     \<and> sa = fill (new_object [] [] ServiceAccount) o2
     \<and> x_create_token x (ch_id c) sa secs w1 = ((tok_token rc, tok_expiry rc), None, w2)
     \<and> (if rc_ca_file rest = [] then tok_ca rc = rc_ca_data rest \<and> world s' = w2
        else x_read_file x (rc_ca_file rest) w2 = (tok_ca rc, None, world s'))
     \<and> trace s' = trace s @ [ReqGet (ch_id c) ''ServiceAccount'' (msa_namespace m, msa_name m) None,
                           ReqCreateToken (ch_id c) (object_key sa) secs None]
     \<and> (gets_key_asked x \<longrightarrow> sa = o2 \<and> object_key sa = (msa_namespace m, msa_name m)))"

lemma generateToken_granted:
  assumes run: "generateToken x c cfg m d s = (Inr rc, s')"
  shows "granted_token x c cfg m (duration_seconds d) s rc s'"
proof -
  from generateToken_Inr[OF run] obtain rest sa s1 s2 where g: "cfg = Some rest"
    "k_get x c (msa_namespace m, msa_name m) (new_object [] [] ServiceAccount) s = ((sa, None), s1)"
    "k_create_token x c sa (duration_seconds d) s1 = (((tok_token rc, tok_expiry rc), None), s2)"
    "if rc_ca_file rest = [] then tok_ca rc = rc_ca_data rest \<and> s' = s2
         else os_read_file x (rc_ca_file rest) s2 = ((tok_ca rc, None), s')" by blast
  from g(2) obtain o2 where got: "sa = fill (new_object [] [] ServiceAccount) o2"
    "x_get x (ch_id c) (msa_namespace m, msa_name m) (new_object [] [] ServiceAccount) (world s) = (o2, None, world s1)"
    by (auto simp: k_get_def split: prod.splits)
  have tok: "x_create_token x (ch_id c) sa (duration_seconds d) (world s1) = ((tok_token rc, tok_expiry rc), None, world s2)"
    using g(3) by (auto simp: k_create_token_def split: prod.splits)
  have ca: "if rc_ca_file rest = [] then tok_ca rc = rc_ca_data rest \<and> world s' = world s2
      else x_read_file x (rc_ca_file rest) (world s2) = (tok_ca rc, None, world s')"
    using g(4) by (auto simp: os_read_file_def split: prod.splits if_splits)
  have "trace s' = trace s2" using g(4) os_read_file_frame(1) by (metis (full_types))
  then have tr: "trace s' = trace s @ [ReqGet (ch_id c) ''ServiceAccount'' (msa_namespace m, msa_name m) None,
      ReqCreateToken (ch_id c) (object_key sa) (duration_seconds d) None]"
    using k_get_frame(1)[OF g(2)] k_create_token_frame(1)[OF g(3)] by simp
  have "sa = o2 \<and> object_key sa = (msa_namespace m, msa_name m)" if "gets_key_asked x"
  proof -
    have "kind_of o2 = kind_of (new_object [] [] ServiceAccount) \<and> object_key o2 = (msa_namespace m, msa_name m)"
      using that[unfolded gets_key_asked_def] got(2) by blast
    then show ?thesis by (simp add: got(1) fill_def)
  qed
  with g(1) got tok ca tr show ?thesis unfolding granted_token_def by blast
qed

text \<open>
  C23. Token generation. An empty account name or namespace, a missing REST configuration and
  a lifetime below ten minutes each give their own error before any request. A token that is
  returned is, with its expiration, what the API server answered to a token request for the
  account it had returned for the given name and namespace, which is the account of that
  name and namespace if a read returns the key asked for. The lifetime requested is that of
  \<open>int64(expiration.Seconds())\<close>, exact for whole seconds and at most a second more otherwise. The CA
  is the file's contents if a CA file is configured and the inline CA otherwise, and nothing
  else was requested.
\<close>

theorem token_generation_spec:
  "(msa_name m = [] \<or> msa_namespace m = [] \<longrightarrow> generateToken x c cfg m d s = (Inl errSANameOrNamespaceEmpty, s))
   \<and> (msa_name m \<noteq> [] \<and> msa_namespace m \<noteq> [] \<and> cfg = None \<longrightarrow> generateToken x c cfg m d s = (Inl errRestConfigNil, s))
   \<and> (msa_name m \<noteq> [] \<and> msa_namespace m \<noteq> [] \<and> cfg \<noteq> None \<and> d < 10 * minute
        \<longrightarrow> generateToken x c cfg m d s = (Inl errExpirationInvalid, s))
   \<and> (\<forall>rc s'. generateToken x c cfg m d s = (Inr rc, s') \<longrightarrow>
        granted_token x c cfg m (duration_seconds d) s rc s'
        \<and> duration_seconds d \<in> {d div second, d div second + 1}
        \<and> (second dvd d \<longrightarrow> duration_seconds d = d div second))"
proof -
  have "duration_seconds d \<in> {d div second, d div second + 1} \<and> (second dvd d \<longrightarrow> duration_seconds d = d div second)"
    if "generateToken x c cfg m d s = (Inr rc, s')" for rc s'
  proof -
    have "0 < d" using generateToken_Inr[OF that] by (simp add: minute_def)
    then show ?thesis using duration_seconds_between[of d] duration_seconds_whole[of d] by simp
  qed
  moreover have "msa_name m = [] \<or> msa_namespace m = [] \<Longrightarrow> generateToken x c cfg m d s = (Inl errSANameOrNamespaceEmpty, s)"
    "msa_name m \<noteq> [] \<and> msa_namespace m \<noteq> [] \<and> cfg = None \<Longrightarrow> generateToken x c cfg m d s = (Inl errRestConfigNil, s)"
    "msa_name m \<noteq> [] \<and> msa_namespace m \<noteq> [] \<and> cfg \<noteq> None \<and> d < 10 * minute \<Longrightarrow> generateToken x c cfg m d s = (Inl errExpirationInvalid, s)"
    by (auto simp: generateToken_def)
  ultimately show ?thesis using generateToken_granted by blast
qed


subsection \<open>The managed objects of the service account\<close>

definition service_account_entry :: "managed_service_account \<Rightarrow> 'w entry" where
  "service_account_entry m = (new_object (msa_name m) (msa_namespace m) ServiceAccount,
     \<lparr>moc_reconcile = Some NoOp, moc_depends_on = [], moc_policy = NoPolicy, moc_status = Some SimpleStatus\<rparr>)"

definition token_entry :: "'w ext \<Rightarrow> managed_service_account \<Rightarrow> 'w managed_cluster \<Rightarrow> duration
    \<Rightarrow> string \<Rightarrow> 'w managed_object \<Rightarrow> 'w entry" where
  "token_entry x m mcp poll ns msa = (new_object (kubeAPIAccess m) ns (Secret None ''''),
     \<lparr>moc_reconcile = Some (token_reconcile x m mcp poll), moc_depends_on = [msa], moc_policy = NoPolicy,
      moc_status = Some SimpleStatus\<rparr>)"

lemma configure_service_account_adds:
  "configure_service_account x m wl mcp poll s =
     (let (mcp1, s1) = adds mcp s [service_account_entry m];
          (wl1, s2) = adds wl s1 [token_entry x m mcp1 poll (mc_namespace wl)
                                    (managed_of (snd (service_account_entry m)) (next_ref s))]
      in ((token_apply m mcp1, wl1, mcp1), s2))"
  by (simp add: configure_service_account_def service_account_entry_def token_entry_def
      GetDefaultNamespace_def add_managed_eq)

end
