(* ===== verification/Go_Hash.thy ===== *)
theory Go_Hash
  imports Prelude
begin

unbundle bit_operations_syntax

text \<open>
  Two functions of Go's standard library that \<open>pkg/instance\<close> calls: \<open>crypto/sha1\<close> on a byte
  string and unpadded \<open>encoding/base32\<close> with a given 32-character alphabet. Words are kept
  at their width; characters of a \<open>string\<close> are bytes.
\<close>

subsection \<open>SHA-1\<close>

type_synonym word32 = "32 word"

definition rol :: "nat \<Rightarrow> word32 \<Rightarrow> word32" where
  "rol n w = (push_bit n w OR drop_bit (32 - n) w)"

definition byte_of :: "char \<Rightarrow> int" where
  "byte_of c = of_char c"

definition be32 :: "int \<Rightarrow> int \<Rightarrow> int \<Rightarrow> int \<Rightarrow> word32" where
  "be32 a b c d = word_of_int (((a * 256 + b) * 256 + c) * 256 + d)"

fun words_of_bytes :: "int list \<Rightarrow> word32 list" where
  "words_of_bytes (a # b # c # d # r) = be32 a b c d # words_of_bytes r"
| "words_of_bytes _ = []"

text \<open>Big-endian bytes of a non-negative number, most significant first.\<close>

fun be_bytes :: "nat \<Rightarrow> int \<Rightarrow> int list" where
  "be_bytes 0 n = []"
| "be_bytes (Suc k) n = (n div 256 ^ k) mod 256 # be_bytes k n"

definition sha1_pad :: "int list \<Rightarrow> int list" where
  "sha1_pad m =
     (let l = length m; z = (119 - l mod 64) mod 64
      in m @ 128 # replicate z 0 @ be_bytes 8 (8 * int l))"

fun schedule :: "nat \<Rightarrow> word32 list \<Rightarrow> word32 list" where
  \<comment> \<open>the message schedule, newest word first\<close>
  "schedule 0 ws = ws"
| "schedule (Suc n) ws = schedule n (rol 1 (ws ! 2 XOR ws ! 7 XOR ws ! 13 XOR ws ! 15) # ws)"

type_synonym sha1_state = "word32 \<times> word32 \<times> word32 \<times> word32 \<times> word32"

definition sha1_fk :: "nat \<Rightarrow> word32 \<Rightarrow> word32 \<Rightarrow> word32 \<Rightarrow> word32 \<times> word32" where
  "sha1_fk t b c d =
     (if t < 20 then ((b AND c) OR (NOT b AND d), 0x5A827999)
      else if t < 40 then (b XOR c XOR d, 0x6ED9EBA1)
      else if t < 60 then ((b AND c) OR (b AND d) OR (c AND d), 0x8F1BBCDC)
      else (b XOR c XOR d, 0xCA62C1D6))"

definition sha1_round :: "nat \<times> word32 \<Rightarrow> sha1_state \<Rightarrow> sha1_state" where
  "sha1_round tw st' =
     (case (tw, st') of ((t, w), (a, b, c, d, e)) \<Rightarrow>
        let (f, k) = sha1_fk t b c d
        in (rol 5 a + f + e + w + k, a, rol 30 b, c, d))"

definition sha1_block :: "word32 list \<Rightarrow> sha1_state \<Rightarrow> sha1_state" where
  "sha1_block ws st' =
     (case (st', fold sha1_round (enumerate 0 (rev (schedule 64 (rev ws)))) st') of
        ((a, b, c, d, e), (a', b', c', d', e')) \<Rightarrow> (a + a', b + b', c + c', d + d', e + e'))"

fun sha1_blocks :: "nat \<Rightarrow> word32 list \<Rightarrow> sha1_state \<Rightarrow> sha1_state" where
  "sha1_blocks 0 ws st' = st'"
| "sha1_blocks (Suc n) ws st' = sha1_blocks n (drop 16 ws) (sha1_block (take 16 ws) st')"

definition sha1_init :: sha1_state where
  "sha1_init = (0x67452301, 0xEFCDAB89, 0x98BADCFE, 0x10325476, 0xC3D2E1F0)"

definition sha1 :: "string \<Rightarrow> int list" where
  "sha1 s =
     (let bs = sha1_pad (map byte_of s)
      in case sha1_blocks (length bs div 64) (words_of_bytes bs) sha1_init of
           (a, b, c, d, e) \<Rightarrow> concat (map (\<lambda>w. be_bytes 4 (uint w)) [a, b, c, d, e]))"

lemma length_be_bytes [simp]: "length (be_bytes k n) = k"
  by (induction k) auto

lemma length_sha1 [simp]: "length (sha1 s) = 20"
  by (simp add: sha1_def Let_def split: prod.splits)

lemma be_bytes_bound: "b \<in> set (be_bytes k n) \<Longrightarrow> 0 \<le> b \<and> b < 256"
  by (induction k) auto

lemma sha1_bytes: "b \<in> set (sha1 s) \<Longrightarrow> 0 \<le> b \<and> b < 256"
  by (auto simp: sha1_def Let_def be_bytes_bound simp del: be_bytes.simps split: prod.splits)

subsection \<open>Base32 without padding\<close>

text \<open>The bits of a byte, most significant first; groups of five bits, the last filled with zeros.\<close>

fun bits_msb :: "nat \<Rightarrow> int \<Rightarrow> bool list" where
  "bits_msb 0 n = []"
| "bits_msb (Suc k) n = odd (n div 2 ^ k) # bits_msb k n"

definition bits_value :: "bool list \<Rightarrow> nat" where
  "bits_value bs = foldl (\<lambda>v b. 2 * v + (if b then 1 else 0)) 0 bs"

fun chunks5 :: "bool list \<Rightarrow> bool list list" where
  "chunks5 (a # b # c # d # e # r) = [a, b, c, d, e] # chunks5 r"
| "chunks5 [] = []"
| "chunks5 bs = [bs @ replicate (5 - length bs) False]"

definition base32_encode :: "string \<Rightarrow> int list \<Rightarrow> string" where
  "base32_encode alphabet bs =
     map (\<lambda>g. alphabet ! bits_value g) (chunks5 (concat (map (bits_msb 8) bs)))"

lemma length_bits_msb [simp]: "length (bits_msb k n) = k"
  by (induction k) auto

lemma length_chunks5: "length (chunks5 bs) = (length bs + 4) div 5"
  by (induction bs rule: chunks5.induct) auto

lemma chunks5_width: "g \<in> set (chunks5 bs) \<Longrightarrow> length g = 5"
  by (induction bs rule: chunks5.induct) auto

lemma bits_value_bound:
  fixes a :: nat
  shows "foldl (\<lambda>v b. 2 * v + (if b then 1 else 0)) a bs < (a + 1) * 2 ^ length bs"
proof (induction bs arbitrary: a)
  case Nil
  then show ?case by simp
next
  case (Cons b bs)
  have "foldl (\<lambda>v b. 2 * v + (if b then 1 else 0)) (2 * a + (if b then 1 else 0)) bs
      < (2 * a + (if b then 1 else 0) + 1) * 2 ^ length bs"
    by (rule Cons.IH)
  also have "\<dots> \<le> (2 * a + 2) * 2 ^ length bs" by (intro mult_le_mono1) simp
  finally show ?case by (simp add: algebra_simps)
qed

lemma chunk_value_bound: "g \<in> set (chunks5 bs) \<Longrightarrow> bits_value g < 32"
  using bits_value_bound[of 0 g] chunks5_width[of g bs] by (simp add: bits_value_def)

lemma length_bits_bytes: "length (concat (map (bits_msb 8) bs)) = 8 * length bs"
  by (induction bs) auto

lemma base32_length: "length (base32_encode al bs) = (8 * length bs + 4) div 5"
  by (simp add: base32_encode_def length_chunks5 length_bits_bytes)

lemma base32_alphabet: "length al = 32 \<Longrightarrow> set (base32_encode al bs) \<subseteq> set al"
  by (auto simp: base32_encode_def chunk_value_bound)

subsection \<open>Base32 loses nothing\<close>

lemma parity_step:
  fixes u w :: nat
  assumes "2 * u + (if x then 1 else 0) = 2 * w + (if y then 1 else 0)"
  shows "u = w \<and> x = y"
proof -
  have "x = y" using arg_cong[OF assms, of odd] by (simp split: if_splits)
  with assms show ?thesis by simp
qed

lemma bits_fold_inj:
  fixes a b :: nat
  shows "length bs = length cs \<Longrightarrow>
    foldl (\<lambda>v b. 2 * v + (if b then 1 else 0)) a bs = foldl (\<lambda>v b. 2 * v + (if b then 1 else 0)) b cs
    \<Longrightarrow> a = b \<and> bs = cs"
proof (induction bs arbitrary: cs rule: rev_induct)
  case Nil
  then show ?case by simp
next
  case (snoc x bs)
  then obtain y ds where cs: "cs = ds @ [y]" by (cases cs rule: rev_cases) auto
  from snoc.prems(2)[unfolded cs foldl_append foldl_Cons foldl_Nil]
  have "foldl (\<lambda>v b. 2 * v + (if b then 1 else 0)) a bs
      = foldl (\<lambda>v b. 2 * v + (if b then 1 else 0)) b ds \<and> x = y"
    by (rule parity_step)
  with snoc.IH[of ds] snoc.prems(1) cs show ?case by simp
qed

lemma bits_value_inj: "length bs = length cs \<Longrightarrow> bits_value bs = bits_value cs \<Longrightarrow> bs = cs"
  unfolding bits_value_def using bits_fold_inj[of bs cs 0 0] by simp

lemma bits_value_bits_msb:
  fixes a :: nat
  shows "int (foldl (\<lambda>v b. 2 * v + (if b then 1 else 0)) a (bits_msb k n)) = int a * 2 ^ k + n mod 2 ^ k"
proof (induction k arbitrary: a)
  case 0
  then show ?case by simp
next
  case (Suc k)
  have "n mod (2 ^ k * 2) = 2 ^ k * (n div 2 ^ k mod 2) + n mod 2 ^ k"
    by (rule zmod_zmult2_eq) simp
  moreover have "n div 2 ^ k mod 2 = (if odd (n div 2 ^ k) then 1 else 0)"
    by (simp add: mod_2_eq_odd)
  ultimately have *: "n mod 2 ^ Suc k = 2 ^ k * (if odd (n div 2 ^ k) then 1 else 0) + n mod 2 ^ k"
    by (simp only: power_Suc mult.commute[of 2])
  show ?case unfolding bits_msb.simps foldl_Cons Suc.IH * by (simp add: distrib_right)
qed

lemma bits_msb_inj:
  assumes "0 \<le> m" "m < 256" "0 \<le> n" "n < 256" "bits_msb 8 m = bits_msb 8 n"
  shows "m = n"
proof -
  have "m mod 2 ^ 8 = n mod 2 ^ 8"
    using bits_value_bits_msb[of 0 8 m] bits_value_bits_msb[of 0 8 n] unfolding assms(5) by linarith
  moreover have "m mod 2 ^ 8 = m" "n mod 2 ^ 8 = n" using assms(1-4) by (simp_all add: mod_pos_pos_trivial)
  ultimately show ?thesis by simp
qed

lemma chunks5_concat: "take (length bs) (concat (chunks5 bs)) = bs"
  by (induction bs rule: chunks5.induct) auto

lemma chunks5_inj: "length bs = length cs \<Longrightarrow> chunks5 bs = chunks5 cs \<Longrightarrow> bs = cs"
  by (metis chunks5_concat)

definition is_byte :: "int \<Rightarrow> bool" where
  "is_byte b = (0 \<le> b \<and> b < 256)"

lemma bits_of_bytes_inj:
  assumes "length xs = length ys" "list_all is_byte xs" "list_all is_byte ys"
    "concat (map (bits_msb 8) xs) = concat (map (bits_msb 8) ys)"
  shows "xs = ys"
  using assms
proof (induction xs ys rule: list_induct2)
  case Nil
  then show ?case by simp
next
  case (Cons x xs y ys)
  then have "bits_msb 8 x = bits_msb 8 y" "concat (map (bits_msb 8) xs) = concat (map (bits_msb 8) ys)"
    by (simp_all add: append_eq_append_conv del: bits_msb.simps)
  with Cons show ?case by (simp add: is_byte_def bits_msb_inj)
qed

lemma base32_inj:
  assumes "distinct al" "length al = 32" "length xs = length ys" "list_all is_byte xs" "list_all is_byte ys"
    and eq: "base32_encode al xs = base32_encode al ys"
  shows "xs = ys"
proof -
  let ?b = "\<lambda>zs. concat (map (bits_msb 8) zs)"
  have inj: "inj_on (\<lambda>g. al ! bits_value g) (set (chunks5 (?b xs)) \<union> set (chunks5 (?b ys)))"
  proof (rule inj_onI)
    fix g h
    assume g: "g \<in> set (chunks5 (?b xs)) \<union> set (chunks5 (?b ys))"
      and h: "h \<in> set (chunks5 (?b xs)) \<union> set (chunks5 (?b ys))"
      and e: "al ! bits_value g = al ! bits_value h"
    have "bits_value g < 32" "bits_value h < 32" using g h chunk_value_bound by blast+
    with e assms(1,2) have "bits_value g = bits_value h" by (simp add: nth_eq_iff_index_eq)
    moreover have "length g = 5" "length h = 5" using g h chunks5_width by blast+
    ultimately show "g = h" by (simp add: bits_value_inj)
  qed
  from eq inj have "chunks5 (?b xs) = chunks5 (?b ys)"
    unfolding base32_encode_def by (rule map_inj_on)
  then have "?b xs = ?b ys"
    by (rule chunks5_inj[rotated]) (simp add: length_bits_bytes assms(3) del: bits_msb.simps)
  with assms(3-5) show ?thesis by (intro bits_of_bytes_inj)
qed

end
