(* ===== verification/Instance_Id.thy ===== *)
theory Instance_Id
  imports External Go_Hash
begin

text \<open>
  \<open>pkg/instance/identity.go\<close>: the instance id of a Velero resource, kept in a label,
  generated from its namespace and name, and the tenant namespace derived from it.
\<close>

definition id_label :: string where
  "id_label = ''velero.services.openmcp.cloud/instance-id''"

definition base32EncodeStdLowerCase :: string where
  "base32EncodeStdLowerCase = ''abcdefghijklmnopqrstuvwxyz234567''"

definition GetID :: "object_meta \<Rightarrow> string" where
  "GetID m = (case om_labels m of None \<Rightarrow> '''' | Some _ \<Rightarrow> map_get (om_labels m) id_label)"

definition SetID :: "velero \<Rightarrow> string \<Rightarrow> velero" where
  "SetID v tenantID =
     (let labels = (case om_labels (v_meta v) of None \<Rightarrow> Map.empty | Some m \<Rightarrow> m)
      in v\<lparr>v_meta := (v_meta v)\<lparr>om_labels := Some (labels(id_label \<mapsto> tenantID))\<rparr>\<rparr>)"

definition GenerateID :: "velero \<Rightarrow> string" where
  "GenerateID v =
     base32_encode base32EncodeStdLowerCase
       (sha1 (om_namespace (v_meta v) @ ''/'' @ om_name (v_meta v)))"

definition InstanceNamespace :: "velero \<Rightarrow> string" where
  "InstanceNamespace v = ''velero-'' @ GetID (v_meta v)"

text \<open>A DNS-1123 label, the format the API server demands of a namespace name.\<close>

definition label_char :: "char \<Rightarrow> bool" where
  "label_char c = (c \<in> set ''abcdefghijklmnopqrstuvwxyz0123456789'')"

definition dns_label :: "string \<Rightarrow> bool" where
  "dns_label s = (s \<noteq> [] \<and> length s \<le> 63 \<and> list_all (\<lambda>c. label_char c \<or> c = CHR ''-'') s
     \<and> label_char (hd s) \<and> label_char (last s))"

text \<open>The byte string under the hash, and a resource for the examples.\<close>

definition id_input :: "velero \<Rightarrow> string" where
  "id_input v = om_namespace (v_meta v) @ [CHR 0x2F] @ om_name (v_meta v)"

definition sample_velero :: "string \<Rightarrow> string \<Rightarrow> velero" where
  "sample_velero ns n = \<lparr>v_meta = new_meta n ns, v_spec = \<lparr>vs_version = ''v1.17.2'', vs_plugins = []\<rparr>,
     v_status = \<lparr>st_phase = [], st_observed_generation = 0, st_conditions = [], st_resources = []\<rparr>\<rparr>"

lemma GetID_SetID [simp]: "GetID (v_meta (SetID v i)) = i"
  by (simp add: GetID_def SetID_def)

lemma SetID_frame [simp]:
  "om_name (v_meta (SetID v i)) = om_name (v_meta v)"
  "om_namespace (v_meta (SetID v i)) = om_namespace (v_meta v)"
  "v_spec (SetID v i) = v_spec v" "v_status (SetID v i) = v_status v"
  by (simp_all add: SetID_def)

lemma alphabet_length: "length base32EncodeStdLowerCase = 32"
  by (simp add: base32EncodeStdLowerCase_def)

lemma alphabet_distinct: "distinct base32EncodeStdLowerCase"
  by code_simp

lemma length_GenerateID: "length (GenerateID v) = 32"
  by (simp add: GenerateID_def base32_length)

lemma GenerateID_alphabet: "set (GenerateID v) \<subseteq> set base32EncodeStdLowerCase"
  unfolding GenerateID_def by (rule base32_alphabet) (rule alphabet_length)

lemma alphabet_label_chars: "c \<in> set base32EncodeStdLowerCase \<Longrightarrow> label_char c"
proof -
  have "list_all label_char base32EncodeStdLowerCase" by code_simp
  then show "c \<in> set base32EncodeStdLowerCase \<Longrightarrow> label_char c" by (simp add: list_all_iff)
qed

lemma prefix_label_chars: "list_all (\<lambda>c. label_char c \<or> c = CHR ''-'') ''velero-''" "label_char (CHR ''v'')"
  by code_simp+

lemma GenerateID_chars: "c \<in> set (GenerateID v) \<Longrightarrow> label_char c"
  using GenerateID_alphabet alphabet_label_chars by blast

lemma GenerateID_nonempty [simp]: "GenerateID v \<noteq> []"
  using length_GenerateID[of v] by auto

lemma GenerateID_SetID [simp]: "GenerateID (SetID v i) = GenerateID v"
  by (simp add: GenerateID_def)

lemma GenerateID_input: "GenerateID v = base32_encode base32EncodeStdLowerCase (sha1 (id_input v))"
  by (simp only: GenerateID_def id_input_def)

lemma velero_prefix_label:
  "dns_label (''velero-'' @ s) \<longleftrightarrow> s \<noteq> [] \<and> length s \<le> 56 \<and> (\<forall>c \<in> set s. label_char c \<or> c = CHR ''-'') \<and> label_char (last s)"
proof (cases "s = []")
  case True
  then show ?thesis by (simp add: dns_label_def label_char_def)
next
  case False
  have "list_all (\<lambda>c. label_char c \<or> c = CHR ''-'') (''velero-'' @ s) \<longleftrightarrow> (\<forall>c \<in> set s. label_char c \<or> c = CHR ''-'')"
    using prefix_label_chars(1) by (simp only: list_all_append) (simp add: list_all_iff)
  moreover have "hd (''velero-'' @ s) = CHR ''v''" "last (''velero-'' @ s) = last s" "length (''velero-'' @ s) = 7 + length s"
    using False by simp_all
  ultimately show ?thesis using False prefix_label_chars(2) unfolding dns_label_def by auto
qed

text \<open>
  C38. Tenant namespace. For every resource the tenant namespace is \<open>velero-\<close> followed by the
  id in its label, whatever that is. It is a valid DNS-1123 label exactly if the id is not empty, has at
  most 56 characters, all of them lower-case letters, digits or hyphens, and does not end in a
  hyphen; nothing in the code asks this of a label the user brought. A generated id meets it:
  it has 32 characters, so it is not generated again once stored, and gives a valid namespace
  of 39 characters whatever the resource's own namespace and name are.
\<close>

theorem tenant_namespace_valid:
  "InstanceNamespace v = ''velero-'' @ GetID (v_meta v)
   \<and> (dns_label (InstanceNamespace v) \<longleftrightarrow> GetID (v_meta v) \<noteq> [] \<and> length (GetID (v_meta v)) \<le> 56
        \<and> (\<forall>c \<in> set (GetID (v_meta v)). label_char c \<or> c = CHR ''-'') \<and> label_char (last (GetID (v_meta v))))
   \<and> InstanceNamespace (SetID v (GenerateID v)) = ''velero-'' @ GenerateID v
   \<and> length (InstanceNamespace (SetID v (GenerateID v))) = 39
   \<and> dns_label (InstanceNamespace (SetID v (GenerateID v)))
   \<and> length (GetID (v_meta (SetID v (GenerateID v)))) = 32"
proof -
  have "dns_label (''velero-'' @ GenerateID v)"
    unfolding velero_prefix_label
    using length_GenerateID[of v] GenerateID_chars[of _ v] GenerateID_chars[OF last_in_set[OF GenerateID_nonempty]] by auto
  then show ?thesis
    unfolding InstanceNamespace_def GetID_SetID using velero_prefix_label[of "GetID (v_meta v)"] length_GenerateID[of v]
    by simp
qed

text \<open>A label the user brought: one upper-case letter, and the namespace is not valid.\<close>

theorem tenant_namespace_valid_witness:
  "\<not> dns_label (InstanceNamespace (SetID (sample_velero ''team'' ''x'') ''A''))
   \<and> dns_label (InstanceNamespace (SetID (sample_velero ''team'' ''x'') (GenerateID (sample_velero ''team'' ''x''))))"
proof
  have "\<not> (label_char (last ''A''))" by (simp add: label_char_def)
  with tenant_namespace_valid[of "SetID (sample_velero ''team'' ''x'') ''A''"]
  show "\<not> dns_label (InstanceNamespace (SetID (sample_velero ''team'' ''x'') ''A''))" unfolding GetID_SetID by blast
  show "dns_label (InstanceNamespace (SetID (sample_velero ''team'' ''x'') (GenerateID (sample_velero ''team'' ''x''))))"
    using tenant_namespace_valid[of "sample_velero ''team'' ''x''"] by blast
qed

text \<open>
  C37. Collision freedom. Kubernetes namespaces hold no slash. Then the formatted hash input
  determines the resource, and base32 loses nothing of the digest: two resources share an id
  exactly when SHA-1 maps their two inputs to one digest.
\<close>

theorem generated_id_collision:
  assumes "CHR ''/'' \<notin> set (om_namespace (v_meta v))" "CHR ''/'' \<notin> set (om_namespace (v_meta u))"
  shows "(GenerateID v = GenerateID u \<longleftrightarrow> sha1 (id_input v) = sha1 (id_input u))
    \<and> (id_input v = id_input u \<longleftrightarrow>
         om_namespace (v_meta v) = om_namespace (v_meta u) \<and> om_name (v_meta v) = om_name (v_meta u))"
proof -
  have "list_all is_byte (sha1 (id_input v))" "list_all is_byte (sha1 (id_input u))"
    using sha1_bytes by (auto simp: list_all_iff is_byte_def)
  then have "sha1 (id_input v) = sha1 (id_input u)" if "GenerateID v = GenerateID u"
    using that alphabet_distinct alphabet_length
    by (intro base32_inj[of base32EncodeStdLowerCase]) (simp_all add: GenerateID_def id_input_def)
  moreover have "om_namespace (v_meta v) = om_namespace (v_meta u) \<and> om_name (v_meta v) = om_name (v_meta u)"
    if "id_input v = id_input u"
    using that assms cut_present[of "CHR ''/''"] unfolding id_input_def
    by (metis append_Cons append_Nil prod.inject)
  moreover have "GenerateID v = GenerateID u" if "sha1 (id_input v) = sha1 (id_input u)"
    unfolding GenerateID_input that ..
  moreover have "id_input v = id_input u"
    if "om_namespace (v_meta v) = om_namespace (v_meta u) \<and> om_name (v_meta v) = om_name (v_meta u)"
    using that by (simp only: id_input_def)
  ultimately show ?thesis by blast
qed

theorem generated_id_collision_witness:
  "CHR ''/'' \<notin> set ''team-a''
   \<and> (GenerateID (sample_velero ''team-a'' ''x'') = GenerateID (sample_velero ''team-a'' ''y'')
      \<longleftrightarrow> sha1 ''team-a/x'' = sha1 ''team-a/y'')"
  using generated_id_collision[of "sample_velero ''team-a'' ''x''" "sample_velero ''team-a'' ''y''"]
  by (simp add: sample_velero_def id_input_def)

end
