(* ===== verification/Deployments.thy ===== *)
theory Deployments
  imports Service_Accounts Instance_Id
begin

text \<open>
  \<open>pkg/deployment/deployment.go\<close>: the Velero server deployment on the workload cluster and
  its zero-scale stand-in on the managed control plane. \<open>metav1.SetMetaDataLabel\<close> is outside
  code (\<open>x_set_label\<close>); Go ranges over the label map in no fixed order, the model in the
  order the map is written, and \<open>pod_labels_order\<close> shows that the order is irrelevant.
\<close>

subsection \<open>Definitions\<close>

definition veleroName :: string where
  "veleroName = ''velero''"

definition getPodLabels :: "string \<Rightarrow> (string \<times> string) list" where
  "getPodLabels inst =
     [(''app.kubernetes.io/name'', veleroName), (''app.kubernetes.io/instance'', inst)]"

definition set_pod_labels :: "'w ext \<Rightarrow> (string \<times> string) list \<Rightarrow> client_object \<Rightarrow> client_object" where
  "set_pod_labels x labels o' =
     o'\<lparr>meta := fold (\<lambda>(key, value) m. x_set_label x m key value) labels (meta o')\<rparr>"

definition velero_container :: "string \<Rightarrow> go_map \<Rightarrow> container" where
  "velero_container namespace images =
     \<lparr>c_name = veleroName, c_image = map_get (Some images) veleroName, c_pull_policy = ''IfNotPresent'',
      c_command = [''/velero''], c_args = [''server''],
      c_env = [\<lparr>ev_name = ''VELERO_SCRATCH_DIR'', ev_value = ''/scratch''\<rparr>,
               \<lparr>ev_name = ''VELERO_NAMESPACE'', ev_value = namespace\<rparr>,
               \<lparr>ev_name = ''LD_LIBRARY_PATH'', ev_value = ''/plugins''\<rparr>],
      c_mounts = [\<lparr>vm_name = ''plugins'', vm_path = ''/plugins'', vm_read_only = False\<rparr>,
                  \<lparr>vm_name = ''scratch'', vm_path = ''/scratch'', vm_read_only = False\<rparr>]\<rparr>"

definition plugin_container :: "go_map \<Rightarrow> nat \<Rightarrow> velero_plugin \<Rightarrow> container" where
  "plugin_container images i plugin =
     \<lparr>c_name = ''plugin-'' @ nat_digits i, c_image = map_get (Some images) (vp_name plugin),
      c_pull_policy = ''IfNotPresent'', c_command = [], c_args = [], c_env = [],
      c_mounts = [\<lparr>vm_name = ''plugins'', vm_path = ''/target'', vm_read_only = False\<rparr>]\<rparr>"

fun append_plugins :: "go_map \<Rightarrow> nat \<Rightarrow> velero_plugin list \<Rightarrow> pod_spec \<Rightarrow> pod_spec" where
  "append_plugins images i [] ps = ps"
| "append_plugins images i (plugin # plugins) ps =
     append_plugins images (Suc i) plugins
       (ps\<lparr>ps_init_containers := ps_init_containers ps @ [plugin_container images i plugin]\<rparr>)"

definition velero_pod :: "string \<Rightarrow> string list \<Rightarrow> go_map \<Rightarrow> pod_spec" where
  "velero_pod namespace imagePullSecrets images =
     \<lparr>ps_restart_policy = ''Always'', ps_grace_seconds = Some 10, ps_pull_secrets = imagePullSecrets,
      ps_containers = [velero_container namespace images], ps_init_containers = [],
      ps_volumes = [\<lparr>vol_name = ''plugins'', vol_source = EmptyDir\<rparr>,
                    \<lparr>vol_name = ''scratch'', vol_source = EmptyDir\<rparr>]\<rparr>"

definition deployment_reconcile :: "'w ext \<Rightarrow> string \<Rightarrow> velero \<Rightarrow> string list \<Rightarrow> go_map
    \<Rightarrow> token_apply_func \<Rightarrow> 'w reconcile_func" where
  "deployment_reconcile x namespace obj imagePullSecrets images tokenApplyFunc o' s =
     (case body o' of
        Deployment spec ready \<Rightarrow>
          (let labels = getPodLabels (GetID (v_meta obj));
               o1 = set_pod_labels x labels o';
               pod = append_plugins images 0 (vs_plugins (v_spec obj)) (velero_pod namespace imagePullSecrets images)
           in do {
             pod1 \<leftarrow> tokenApplyFunc pod;
             Some ((o1\<lparr>body := Deployment
                      \<lparr>ds_replicas = Some 1, ds_strategy = ''Recreate'', ds_selector = Some (map_of labels),
                       ds_template_labels = Some (map_of labels), ds_template_spec = pod1\<rparr> ready\<rparr>,
                    None), s) })
      | _ \<Rightarrow> None)"

text \<open>Both status closures have the same text.\<close>

definition deployment_status :: status_fn where
  "deployment_status o' rl =
     (case body o' of
        Deployment spec ready \<Rightarrow> Some
          (if \<not> time_is_zero (om_deletion (meta o'))
           then \<lparr>s_phase = Terminating, s_message = ''Deployment is terminating.'', s_location = rl\<rparr>
           else let desired = (case ds_replicas spec of None \<Rightarrow> 1 | Some n \<Rightarrow> n)
                in if desired \<noteq> ready
                   then \<lparr>s_phase = Progressing, s_message = ''Waiting for all pods to become ready.'', s_location = rl\<rparr>
                   else \<lparr>s_phase = Ready, s_message = ''All pods are ready.'', s_location = rl\<rparr>)
      | _ \<Rightarrow> None)"

definition configure_deployment :: "'w ext \<Rightarrow> 'w managed_cluster \<Rightarrow> string \<Rightarrow> velero \<Rightarrow> string list
    \<Rightarrow> go_map \<Rightarrow> token_apply_func \<Rightarrow> 'w st \<Rightarrow> 'w managed_cluster \<times> 'w st" where
  "configure_deployment x cluster namespace obj imagePullSecrets images tokenApplyFunc s =
     (let (deployment, cluster1, s1) = add_managed
            (new_object veleroName (GetDefaultNamespace cluster) (Deployment empty_deployment_spec 0))
            \<lparr>moc_reconcile = Some (deployment_reconcile x namespace obj imagePullSecrets images tokenApplyFunc),
             moc_depends_on = [], moc_policy = NoPolicy, moc_status = Some deployment_status\<rparr> cluster s
      in (cluster1, s1))"

definition mcp_deployment_reconcile :: "'w ext \<Rightarrow> string \<Rightarrow> string \<Rightarrow> 'w reconcile_func" where
  "mcp_deployment_reconcile x img inst o' s =
     (case body o' of
        Deployment spec ready \<Rightarrow>
          (let labels = getPodLabels inst;
               o1 = set_pod_labels x labels o'
           in Some ((o1\<lparr>body := Deployment
                (empty_deployment_spec\<lparr>ds_replicas := Some 0, ds_selector := Some (map_of labels),
                   ds_template_labels := Some (map_of labels),
                   ds_template_spec := empty_pod_spec\<lparr>ps_containers :=
                     [empty_container\<lparr>c_name := veleroName, c_image := img, c_pull_policy := ''IfNotPresent''\<rparr>]\<rparr>\<rparr>)
                ready\<rparr>, None), s))
      | _ \<Rightarrow> None)"

definition configure_mcp_deployment :: "'w ext \<Rightarrow> 'w managed_cluster \<Rightarrow> string \<Rightarrow> string \<Rightarrow> 'w st
    \<Rightarrow> 'w managed_cluster \<times> 'w st" where
  "configure_mcp_deployment x cluster img inst s =
     (let (deployment, cluster1, s1) = add_managed
            (new_object veleroName (GetDefaultNamespace cluster) (Deployment empty_deployment_spec 0))
            \<lparr>moc_reconcile = Some (mcp_deployment_reconcile x img inst),
             moc_depends_on = [], moc_policy = NoPolicy, moc_status = Some deployment_status\<rparr> cluster s
      in (cluster1, s1))"

subsection \<open>Status\<close>

interpretation deployment: status_func deployment_status "{''Deployment''}"
  by unfold_locales (auto simp: deployment_status_def Let_def kind_of_def split: payload.splits if_splits)

text \<open>
  The documented behaviour of \<open>metav1.SetMetaDataLabel\<close>: it sets the entry, creating the map
  where there is none.
\<close>

definition sets_label :: "'w ext \<Rightarrow> bool" where
  "sets_label x = (\<forall>m k v. x_set_label x m k v =
     m\<lparr>om_labels := Some ((case om_labels m of None \<Rightarrow> Map.empty | Some f \<Rightarrow> f)(k \<mapsto> v))\<rparr>)"

lemma pod_label_keys [simp]:
  "''app.kubernetes.io/name'' \<noteq> LabelManagedBy" "''app.kubernetes.io/instance'' \<noteq> LabelManagedBy"
  "''app.kubernetes.io/name'' \<noteq> labelInstanceID" "''app.kubernetes.io/instance'' \<noteq> labelInstanceID"
  "LabelManagedBy \<noteq> ''app.kubernetes.io/name''" "LabelManagedBy \<noteq> ''app.kubernetes.io/instance''"
  "labelInstanceID \<noteq> ''app.kubernetes.io/name''" "labelInstanceID \<noteq> ''app.kubernetes.io/instance''"
  by (simp_all add: LabelManagedBy_def labelInstanceID_def)

lemma set_pod_labels_eq:
  assumes "sets_label x"
  shows "set_pod_labels x (getPodLabels i) o' =
    set_labels o' ((case get_labels o' of None \<Rightarrow> Map.empty | Some f \<Rightarrow> f)
      (''app.kubernetes.io/name'' \<mapsto> veleroName, ''app.kubernetes.io/instance'' \<mapsto> i))"
  using assms by (simp add: sets_label_def set_pod_labels_def getPodLabels_def set_labels_def get_labels_def)

lemma pod_labels_order:
  assumes "sets_label x"
  shows "set_pod_labels x (rev (getPodLabels i)) o' = set_pod_labels x (getPodLabels i) o'"
proof -
  have "m(''app.kubernetes.io/instance'' \<mapsto> i, ''app.kubernetes.io/name'' \<mapsto> veleroName)
      = m(''app.kubernetes.io/name'' \<mapsto> veleroName, ''app.kubernetes.io/instance'' \<mapsto> i)" for m
    by (rule map_of_distinct_swap) simp
  then show ?thesis using assms by (simp only: sets_label_def set_pod_labels_def getPodLabels_def rev.simps
      append.simps fold.simps prod.case o_apply id_apply object_meta.select_convs object_meta.update_convs) simp
qed

lemma set_pod_labels_frame:
  assumes "sets_label x"
  shows "body (set_pod_labels x (getPodLabels i) o') = body o'"
    "object_key (set_pod_labels x (getPodLabels i) o') = object_key o'"
    "om_deletion (meta (set_pod_labels x (getPodLabels i) o')) = om_deletion (meta o')"
    "carries_labels iid o' \<Longrightarrow> carries_labels iid (set_pod_labels x (getPodLabels i) o')"
  using assms by (auto simp: set_pod_labels_eq carries_labels_def map_get_def split: option.splits)

lemma append_plugins_eq:
  "append_plugins images i pls ps =
     ps\<lparr>ps_init_containers := ps_init_containers ps @ map2 (plugin_container images) [i..<i + length pls] pls\<rparr>"
proof (induction pls arbitrary: i ps)
  case Nil
  then show ?case by simp
next
  case (Cons p pls)
  have "[i..<i + length (p # pls)] = i # [Suc i..<Suc i + length pls]"
    using upt_conv_Cons[of i "i + length (p # pls)"] by simp
  then show ?case by (simp add: Cons)
qed

subsection \<open>The reconcile closures keep the interface\<close>

lemma deployment_reconciler: "reconciler (deployment_reconcile x ns obj ps images tf) {}"
  by unfold_locales
    (auto simp: deployment_reconcile_def kind_of_def Let_def bind_eq_Some_conv split: payload.splits)

lemma deployment_stamped:
  assumes "sets_label x"
  shows "stamped_reconciler (deployment_reconcile x ns obj ps images tf) {}"
proof (rule stamped_reconciler.intro[OF deployment_reconciler], unfold_locales)
  fix o' s o2 s' iid
  assume "deployment_reconcile x ns obj ps images tf o' s = Some ((o2, None), s')"
  then have o2: "\<exists>b. o2 = (set_pod_labels x (getPodLabels (GetID (v_meta obj))) o')\<lparr>body := b\<rparr>"
    by (auto simp: deployment_reconcile_def Let_def bind_eq_Some_conv split: payload.splits)
  show "carries_labels iid o' \<Longrightarrow> carries_labels iid o2"
    using o2 set_pod_labels_frame(4)[OF assms] by (auto simp: carries_labels_def)
  show "object_key o2 = object_key o'"
    using o2 set_pod_labels_frame(2)[OF assms] by auto
qed

lemma mcp_deployment_reconciler: "reconciler (mcp_deployment_reconcile x img i) {}"
  by unfold_locales (auto simp: mcp_deployment_reconcile_def kind_of_def Let_def split: payload.splits)

lemma mcp_deployment_stamped:
  assumes "sets_label x"
  shows "stamped_reconciler (mcp_deployment_reconcile x img i) {}"
proof (rule stamped_reconciler.intro[OF mcp_deployment_reconciler], unfold_locales)
  fix o' s o2 s' iid
  assume "mcp_deployment_reconcile x img i o' s = Some ((o2, None), s')"
  then have o2: "\<exists>b. o2 = (set_pod_labels x (getPodLabels i) o')\<lparr>body := b\<rparr>"
    by (auto simp: mcp_deployment_reconcile_def Let_def split: payload.splits)
  show "carries_labels iid o' \<Longrightarrow> carries_labels iid o2"
    using o2 set_pod_labels_frame(4)[OF assms] by (auto simp: carries_labels_def)
  show "object_key o2 = object_key o'"
    using o2 set_pod_labels_frame(2)[OF assms] by auto
qed

interpretation deployment: reconciler "deployment_reconcile x ns obj ps images tf" "{}" for x ns obj ps images tf
  by (rule deployment_reconciler)

interpretation mcp_deployment: total_reconciler "mcp_deployment_reconcile x img i" "{}" "''Deployment''" for x img i
  by (rule total_reconciler.intro[OF mcp_deployment_reconciler], unfold_locales)
    (auto simp: mcp_deployment_reconcile_def kind_of_def Let_def split: payload.splits)

subsection \<open>The deployed pod\<close>

text \<open>Every mount of a container has its volume: what the API server demands of a pod.\<close>

definition mounts_resolve :: "pod_spec \<Rightarrow> bool" where
  "mounts_resolve ps = (\<forall>c \<in> set (ps_containers ps @ ps_init_containers ps).
     set (map vm_name (c_mounts c)) \<subseteq> set (map vol_name (ps_volumes ps)))"

definition plugin_containers :: "go_map \<Rightarrow> velero_plugin list \<Rightarrow> container list" where
  "plugin_containers images pls = map2 (plugin_container images) [0..<length pls] pls"

lemma plugin_containers_simps [simp]:
  "length (plugin_containers images pls) = length pls"
  "i < length pls \<Longrightarrow> plugin_containers images pls ! i = plugin_container images i (pls ! i)"
  by (simp_all add: plugin_containers_def)

lemma plugin_images: "map c_image (plugin_containers images pls) = map (map_get (Some images) \<circ> vp_name) pls"
  by (rule nth_equalityI) (simp_all add: plugin_container_def)

lemma plugin_names_distinct: "distinct (map c_name (plugin_containers images pls))"
  by (auto simp: distinct_conv_nth plugin_container_def dest: nat_digits_inj)

lemma with_access_fields [simp]:
  "c_name (with_access h p c) = c_name c" "c_image (with_access h p c) = c_image c"
  "c_mounts (with_access h p c) = upsert_mount token_mount (c_mounts c)"
  by (simp_all add: with_access_def)

definition access_pod :: "string \<Rightarrow> string \<Rightarrow> managed_service_account \<Rightarrow> pod_spec \<Rightarrow> pod_spec" where
  "access_pod h p m ps = ps\<lparr>ps_volumes := upsert_volume (token_volume m) (ps_volumes ps),
     ps_containers := map (with_access h p) (ps_containers ps),
     ps_init_containers := map (with_access h p) (ps_init_containers ps)\<rparr>"

lemma access_pod_mounts: "mounts_resolve ps \<Longrightarrow> mounts_resolve (access_pod h p m ps)"
  by (simp add: mounts_resolve_def access_pod_def mounts.name_set volumes.name_set ball_Un) blast

lemma token_apply_Some:
  assumes "GetHostAndPort mc = Some (h, p)"
  shows "token_apply m mc ps = Some (access_pod h p m ps)"
  using assms by (simp add: token_apply_eq access_pod_def Let_def)

lemma velero_pod_mounts: "mounts_resolve (append_plugins images 0 pls (velero_pod ns pulls images))"
proof -
  have "c \<in> set (map2 (plugin_container images) xs ys) \<Longrightarrow> map vm_name (c_mounts c) = [''plugins'']" for c xs ys
    by (auto simp: plugin_container_def)
  then show ?thesis
    by (fastforce simp: append_plugins_eq mounts_resolve_def velero_pod_def velero_container_def)
qed

definition deployed :: "string \<Rightarrow> go_map \<Rightarrow> pod_spec \<Rightarrow> deployment_spec" where
  "deployed i images pod = \<lparr>ds_replicas = Some 1, ds_strategy = ''Recreate'',
     ds_selector = Some (map_of (getPodLabels i)), ds_template_labels = Some (map_of (getPodLabels i)),
     ds_template_spec = pod\<rparr>"

lemma deployment_run:
  assumes "GetHostAndPort mc = Some (h, p)" "body o' = Deployment sp rdy"
  shows "deployment_reconcile x ns obj pulls images (token_apply m mc) o' s =
    Some (((set_pod_labels x (getPodLabels (GetID (v_meta obj))) o')\<lparr>body := Deployment
      (deployed (GetID (v_meta obj)) images
        (access_pod h p m (append_plugins images 0 (vs_plugins (v_spec obj)) (velero_pod ns pulls images)))) rdy\<rparr>, None), s)"
  using assms by (simp add: deployment_reconcile_def token_apply_Some deployed_def Let_def)

lemma set_pod_labels_idem:
  assumes "sets_label x"
  shows "set_pod_labels x (getPodLabels i) ((set_pod_labels x (getPodLabels i) o')\<lparr>body := b\<rparr>) =
    (set_pod_labels x (getPodLabels i) o')\<lparr>body := b\<rparr>"
  using assms fun_upd_twist[of "''app.kubernetes.io/name''" "''app.kubernetes.io/instance''"]
  by (simp add: set_pod_labels_eq set_labels_def get_labels_def)

text \<open>
  C27. Rollout. On any existing or empty deployment, and with a REST configuration of the
  control plane, the closure succeeds and is idempotent. The specification it writes asks for
  one replica under the recreate strategy, selects exactly the labels of its own template,
  runs the Velero server image with the control plane's namespace, gives every requested
  plugin one init container of its own name and image in the requested order, mounts no
  volume the pod does not have, and gives every container the token access.
\<close>

theorem deployment_rollout:
  fixes ns :: string and obj :: velero and pulls :: "string list" and images :: go_map
    and m :: managed_service_account
  assumes "sets_label x" "body o' = Deployment sp rdy" "GetHostAndPort mc = Some (h, p)"
  defines "rec \<equiv> deployment_reconcile x ns obj pulls images (token_apply m mc)"
  shows "\<exists>o2 d. rec o' s = Some ((o2, None), s) \<and> rec o2 s = Some ((o2, None), s)
    \<and> body o2 = Deployment d rdy
    \<and> ds_replicas d = Some 1 \<and> ds_strategy d = ''Recreate''
    \<and> ds_selector d = ds_template_labels d
    \<and> map_get (ds_selector d) ''app.kubernetes.io/instance'' = GetID (v_meta obj)
    \<and> map_get (get_labels o2) ''app.kubernetes.io/instance'' = GetID (v_meta obj)
    \<and> list_all2 (access_only h p) [velero_container ns images] (ps_containers (ds_template_spec d))
    \<and> list_all2 (access_only h p) (plugin_containers images (vs_plugins (v_spec obj))) (ps_init_containers (ds_template_spec d))
    \<and> distinct (map c_name (ps_init_containers (ds_template_spec d)))
    \<and> map c_image (ps_init_containers (ds_template_spec d)) = map (map_get (Some images) \<circ> vp_name) (vs_plugins (v_spec obj))
    \<and> ps_pull_secrets (ds_template_spec d) = pulls
    \<and> mounts_resolve (ds_template_spec d)"
proof -
  define i pod where "i = GetID (v_meta obj)"
    and "pod = append_plugins images 0 (vs_plugins (v_spec obj)) (velero_pod ns pulls images)"
  define d where "d = deployed i images (access_pod h p m pod)"
  define o2 where "o2 = (set_pod_labels x (getPodLabels i) o')\<lparr>body := Deployment d rdy\<rparr>"
  have run: "rec ob s = Some (((set_pod_labels x (getPodLabels i) ob)\<lparr>body := Deployment d rdy\<rparr>, None), s)"
    if "body ob = Deployment sp2 rdy" for ob sp2
    unfolding rec_def using deployment_run[OF assms(3) that] by (simp add: d_def i_def pod_def)
  have "rec o' s = Some ((o2, None), s)" using run[OF assms(2)] by (simp add: o2_def)
  moreover have "rec o2 s = Some ((o2, None), s)"
    using run[of o2 d] set_pod_labels_idem[OF assms(1), of i "Deployment d rdy" o'] by (simp add: o2_def)
  moreover have "map_get (get_labels o2) ''app.kubernetes.io/instance'' = i"
    using set_pod_labels_eq[OF assms(1), of i o'] by (simp add: o2_def)
  moreover have "map_get (ds_selector d) ''app.kubernetes.io/instance'' = i"
    by (simp add: d_def deployed_def getPodLabels_def)
  moreover have pod: "ps_containers pod = [velero_container ns images]"
    "ps_init_containers pod = plugin_containers images (vs_plugins (v_spec obj))" "ps_pull_secrets pod = pulls"
    by (simp_all add: pod_def append_plugins_eq velero_pod_def plugin_containers_def)
  moreover have dd: "ds_template_spec d = access_pod h p m pod" "ds_replicas d = Some 1"
    "ds_strategy d = ''Recreate''" "ds_selector d = ds_template_labels d" by (simp_all add: d_def deployed_def)
  moreover have "mounts_resolve (access_pod h p m pod)"
    unfolding pod_def by (intro access_pod_mounts velero_pod_mounts)
  moreover have "c_image \<circ> with_access h p = c_image" "c_name \<circ> with_access h p = c_name"
    by (simp_all add: comp_def)
  ultimately show ?thesis
    using plugin_names_distinct plugin_images with_access_only[of h p "velero_container ns images"]
    by (intro exI[of _ o2] exI[of _ d]) (simp add: access_pod_def list_all2_with_access o2_def i_def)
qed

text \<open>
  C28. Readiness. Right after the closures ran on a deployment that is not being deleted,
  the server deployment is reported ready exactly when one pod is ready, its stand-in on the
  control plane exactly when none is; a deployment being deleted is never reported ready, and
  neither is one whose ready count differs from its desired count.
\<close>

theorem deployment_readiness:
  assumes "sets_label x" "body o' = Deployment sp rdy" "deployment_status o' rl = Some st'"
  shows "(s_phase st' = Ready \<longleftrightarrow> time_is_zero (om_deletion (meta o')) \<and> (case ds_replicas sp of None \<Rightarrow> 1 | Some n \<Rightarrow> n) = rdy)
    \<and> s_location st' = rl
    \<and> (\<forall>o2 s s' ns obj pulls images tf st2. time_is_zero (om_deletion (meta o')) \<longrightarrow>
         deployment_reconcile x ns obj pulls images tf o' s = Some ((o2, None), s') \<longrightarrow>
         deployment_status o2 rl = Some st2 \<longrightarrow> (s_phase st2 = Ready \<longleftrightarrow> rdy = 1))
    \<and> (\<forall>o2 s s' img i st2. time_is_zero (om_deletion (meta o')) \<longrightarrow>
         mcp_deployment_reconcile x img i o' s = Some ((o2, None), s') \<longrightarrow>
         deployment_status o2 rl = Some st2 \<longrightarrow> (s_phase st2 = Ready \<longleftrightarrow> rdy = 0))"
proof (intro conjI allI impI)
  show "s_phase st' = Ready \<longleftrightarrow> time_is_zero (om_deletion (meta o')) \<and> (case ds_replicas sp of None \<Rightarrow> 1 | Some n \<Rightarrow> n) = rdy"
    using assms(2,3) by (auto simp: deployment_status_def Let_def split: if_splits)
  show "s_location st' = rl" by (rule deployment.location[OF assms(3)])
next
  fix o2 s s' ns obj pulls images tf st2
  assume z: "time_is_zero (om_deletion (meta o'))"
    and run: "deployment_reconcile x ns obj pulls images tf o' s = Some ((o2, None), s')"
    and st: "deployment_status o2 rl = Some st2"
  from run assms(2) obtain pod where "o2 = (set_pod_labels x (getPodLabels (GetID (v_meta obj))) o')\<lparr>body :=
      Deployment (deployed (GetID (v_meta obj)) images pod) rdy\<rparr>"
    by (auto simp: deployment_reconcile_def deployed_def Let_def bind_eq_Some_conv)
  with st z show "s_phase st2 = Ready \<longleftrightarrow> rdy = 1"
    by (auto simp: deployment_status_def deployed_def set_pod_labels_frame[OF assms(1)] Let_def split: if_splits)
next
  fix o2 s s' img i st2
  assume z: "time_is_zero (om_deletion (meta o'))"
    and run: "mcp_deployment_reconcile x img i o' s = Some ((o2, None), s')"
    and st: "deployment_status o2 rl = Some st2"
  from run assms(2) obtain d where "o2 = (set_pod_labels x (getPodLabels i) o')\<lparr>body := Deployment d rdy\<rparr>"
    "ds_replicas d = Some 0"
    by (auto simp: mcp_deployment_reconcile_def Let_def)
  with st z show "s_phase st2 = Ready \<longleftrightarrow> rdy = 0"
    by (auto simp: deployment_status_def set_pod_labels_frame[OF assms(1)] Let_def split: if_splits)
qed

subsection \<open>The managed deployments\<close>

definition deployment_entry :: "'w reconcile_func \<Rightarrow> string \<Rightarrow> 'w entry" where
  "deployment_entry rf ns = (new_object veleroName ns (Deployment empty_deployment_spec 0),
     \<lparr>moc_reconcile = Some rf, moc_depends_on = [], moc_policy = NoPolicy, moc_status = Some deployment_status\<rparr>)"

lemma configure_deployment_adds:
  "configure_deployment x mc ns obj pulls images tf s =
     adds mc s [deployment_entry (deployment_reconcile x ns obj pulls images tf) (mc_namespace mc)]"
  by (simp add: configure_deployment_def deployment_entry_def GetDefaultNamespace_def)

lemma configure_mcp_deployment_adds:
  "configure_mcp_deployment x mc img i s =
     adds mc s [deployment_entry (mcp_deployment_reconcile x img i) (mc_namespace mc)]"
  by (simp add: configure_mcp_deployment_def deployment_entry_def GetDefaultNamespace_def)

end
