(* ===== verification/Crds.thy ===== *)
theory Crds
  imports Namespaces
begin

text \<open>
  \<open>pkg/crds/crds.go\<close>: the embedded CustomResourceDefinitions. \<open>Parse\<close> decodes documents
  until the decoder reports the end of the file; whether its loop ends depends on the
  decoder, so it is a partial function whose value \<open>None\<close> means that it does not return.
  \<open>Configure\<close> manages every definition and orphans it on deletion.
\<close>

type_synonym parsed_crd = "string \<times> crd_spec"

partial_function (option) parse_loop :: "'w ext \<Rightarrow> nat \<Rightarrow> parsed_crd list \<Rightarrow> (error + parsed_crd list) option" where
  "parse_loop x i crds =
     (case x_decode x i of
        DecodeEOF \<Rightarrow> Some (Inr crds)
      | DecodeError err \<Rightarrow> Some (Inl err)
      | DecodeCrd name spec \<Rightarrow>
          if name = '''' then parse_loop x (Suc i) crds
          else parse_loop x (Suc i) (crds @ [(name, spec)]))"

declare parse_loop.simps [code]

definition Parse :: "'w ext \<Rightarrow> (error + parsed_crd list) option" where
  "Parse x = parse_loop x 0 []"

definition crd_reconcile :: "crd_spec \<Rightarrow> 'w reconcile_func" where
  "crd_reconcile spec o' s =
     (case body o' of
        CustomResourceDefinition _ \<Rightarrow> Some ((o'\<lparr>body := CustomResourceDefinition spec\<rparr>, None), s)
      | _ \<Rightarrow> None)"

definition empty_crd_spec :: crd_spec where
  "empty_crd_spec = CrdSpec ''''"

fun add_crds :: "parsed_crd list \<Rightarrow> 'w managed_cluster \<Rightarrow> 'w st \<Rightarrow> 'w managed_cluster \<times> 'w st" where
  "add_crds [] cluster s = (cluster, s)"
| "add_crds ((name, spec) # crds) cluster s =
     (let (crd, cluster1, s1) = add_managed
            (new_object name '''' (CustomResourceDefinition empty_crd_spec))
            \<lparr>moc_reconcile = Some (crd_reconcile spec), moc_depends_on = [], moc_policy = Orphan,
             moc_status = Some SimpleStatus\<rparr> cluster s
      in add_crds crds cluster1 s1)"

definition configure_crds :: "'w ext \<Rightarrow> 'w managed_cluster \<Rightarrow> 'w st
    \<Rightarrow> ((error + 'w managed_cluster) \<times> 'w st) option" where
  "configure_crds x cluster s = do {
     r \<leftarrow> Parse x;
     (case r of
        Inl err \<Rightarrow> Some (Inl err, s)
      | Inr crds \<Rightarrow> (let (cluster1, s1) = add_crds crds cluster s in Some (Inr cluster1, s1))) }"

interpretation crd: stamped_reconciler "crd_reconcile spec" "{}" for spec
  by unfold_locales (auto simp: crd_reconcile_def carries_labels_def get_labels_def kind_of_def object_key_def
      get_name_def get_namespace_def split: payload.splits)

interpretation crd: total_reconciler "crd_reconcile spec" "{}" "''CustomResourceDefinition''" for spec
  by unfold_locales (auto simp: crd_reconcile_def kind_of_def split: payload.splits)

subsection \<open>The decoding loop\<close>

text \<open>The named documents among the first \<open>n\<close> from position \<open>i\<close> on.\<close>

fun named_docs :: "'w ext \<Rightarrow> nat \<Rightarrow> nat \<Rightarrow> parsed_crd list" where
  "named_docs x i 0 = []"
| "named_docs x i (Suc n) =
     (case x_decode x i of DecodeCrd name spec \<Rightarrow> (if name = [] then [] else [(name, spec)]) | _ \<Rightarrow> [])
     @ named_docs x (Suc i) n"

definition is_document :: "decode_result \<Rightarrow> bool" where
  "is_document d = (case d of DecodeCrd _ _ \<Rightarrow> True | _ \<Rightarrow> False)"

lemma parse_loop_documents:
  assumes "\<forall>j < n. is_document (x_decode x (i + j))"
  shows "parse_loop x i crds = parse_loop x (i + n) (crds @ named_docs x i n)"
  using assms
proof (induction n arbitrary: i crds)
  case 0
  then show ?case by simp
next
  case (Suc n)
  obtain name spec where d: "x_decode x i = DecodeCrd name spec"
    using Suc.prems[rule_format, of 0] by (auto simp: is_document_def split: decode_result.splits)
  have "\<forall>j < n. is_document (x_decode x (Suc i + j))"
    using Suc.prems by (metis Suc_less_eq add_Suc_shift)
  from Suc.IH[OF this] d show ?case by (simp add: parse_loop.simps[of x i])
qed

lemma parse_loop_stop:
  "\<not> is_document (x_decode x i) \<Longrightarrow> parse_loop x i crds =
     Some (case x_decode x i of DecodeError err \<Rightarrow> Inl err | _ \<Rightarrow> Inr crds)"
  by (subst parse_loop.simps) (auto simp: is_document_def split: decode_result.splits)

lemma parse_loop_stops:
  assumes "parse_loop x i crds = Some r"
  shows "\<exists>n. \<not> is_document (x_decode x (i + n))"
proof -
  have step: "\<exists>n. \<not> is_document (x_decode x (i + n))"
    if "\<And>i crds b y. f i crds b = Some y \<Longrightarrow> \<exists>n. \<not> is_document (x_decode i (crds + n))"
      and "(case x_decode x i of DecodeEOF \<Rightarrow> Some (Inr crds) | DecodeError err \<Rightarrow> Some (Inl err)
         | DecodeCrd name spec \<Rightarrow> if name = [] then f x (Suc i) crds else f x (Suc i) (crds @ [(name, spec)])) = Some y"
    for f x i crds y
  proof (cases "is_document (x_decode x i)")
    case True
    then obtain name spec where "x_decode x i = DecodeCrd name spec"
      by (auto simp: is_document_def split: decode_result.splits)
    with that(2) have "\<exists>cs. f x (Suc i) cs = Some y" by (auto split: if_splits)
    with that(1) have "\<exists>n. \<not> is_document (x_decode x (Suc i + n))" by blast
    then show ?thesis by (metis add_Suc_shift)
  next
    case False
    then show ?thesis by (intro exI[of _ 0]) simp
  qed
  show ?thesis
    by (rule parse_loop.raw_induct[of "\<lambda>x i crds r. \<exists>n. \<not> is_document (x_decode x (i + n))" "((x, i), crds)" r,
          unfolded prod.case, OF step assms])
qed

lemma Parse_at:
  assumes "\<not> is_document (x_decode x n)" "\<forall>j < n. is_document (x_decode x j)"
  shows "Parse x = Some (case x_decode x n of DecodeError err \<Rightarrow> Inl err | _ \<Rightarrow> Inr (named_docs x 0 n))"
  using parse_loop_documents[of n x 0 "[]"] parse_loop_stop[of x n] assms by (simp add: Parse_def)

text \<open>
  C35. Parsing. \<open>Parse\<close> returns exactly when the decoder reports the end or an error at some
  point; it then stops at the first such point, with the decoder's error, or with the named
  documents before it, in their order, the unnamed ones dropped.
\<close>

theorem parse_spec:
  "(Parse x \<noteq> None \<longleftrightarrow> (\<exists>n. \<not> is_document (x_decode x n)))
   \<and> (\<forall>n. \<not> is_document (x_decode x n) \<and> (\<forall>j < n. is_document (x_decode x j)) \<longrightarrow>
        Parse x = Some (case x_decode x n of DecodeError err \<Rightarrow> Inl err | _ \<Rightarrow> Inr (named_docs x 0 n)))"
proof -
  have "Parse x \<noteq> None" if "\<not> is_document (x_decode x n)" for n
  proof -
    define k where "k = (LEAST n. \<not> is_document (x_decode x n))"
    have "\<not> is_document (x_decode x k)" unfolding k_def using that by (rule LeastI)
    moreover have "\<forall>j < k. is_document (x_decode x j)" unfolding k_def using not_less_Least by blast
    ultimately show ?thesis using Parse_at by (metis option.distinct(1))
  qed
  moreover have "\<exists>n. \<not> is_document (x_decode x n)" if "Parse x = Some r" for r
    using parse_loop_stops[of x 0 "[]" r] that by (simp add: Parse_def)
  ultimately show ?thesis using Parse_at by blast
qed

subsection \<open>The managed definitions\<close>

definition crd_entry :: "parsed_crd \<Rightarrow> 'w entry" where
  "crd_entry c = (new_object (fst c) '''' (CustomResourceDefinition empty_crd_spec),
     \<lparr>moc_reconcile = Some (crd_reconcile (snd c)), moc_depends_on = [], moc_policy = Orphan,
      moc_status = Some SimpleStatus\<rparr>)"

lemma add_crds_adds: "add_crds crds mc s = adds mc s (map crd_entry crds)"
  by (induction crds mc s rule: add_crds.induct) (simp_all add: crd_entry_def add_managed_eq)

end
