(* ===== verification/Role_Bindings.thy ===== *)
theory Role_Bindings
  imports Service_Accounts
begin

text \<open>
  \<open>pkg/authz/clusterrolebinding.go\<close>: the cluster role binding that makes the service account
  of the Velero server a cluster admin of the managed control plane.
\<close>

definition clusterRoleBindingName :: string where
  "clusterRoleBindingName = ''velero-server''"

definition role_binding_reconcile :: "managed_service_account \<Rightarrow> 'w reconcile_func" where
  "role_binding_reconcile msa o' s =
     (case body o' of
        ClusterRoleBinding _ _ \<Rightarrow>
          Some ((o'\<lparr>body := ClusterRoleBinding
                   [\<lparr>sub_kind = ''ServiceAccount'', sub_name = msa_name msa, sub_namespace = msa_namespace msa\<rparr>]
                   \<lparr>rr_group = ''rbac.authorization.k8s.io'', rr_kind = ''ClusterRole'', rr_name = ''cluster-admin''\<rparr>\<rparr>,
                 None), s)
      | _ \<Rightarrow> None)"

definition empty_role_ref :: role_ref where
  "empty_role_ref = \<lparr>rr_group = '''', rr_kind = '''', rr_name = ''''\<rparr>"

definition configure_role_binding :: "'w managed_cluster \<Rightarrow> managed_service_account \<Rightarrow> 'w st
    \<Rightarrow> 'w managed_cluster \<times> 'w st" where
  "configure_role_binding cluster msa s =
     (let (crb, cluster1, s1) = add_managed
            (new_object clusterRoleBindingName '''' (ClusterRoleBinding [] empty_role_ref))
            \<lparr>moc_reconcile = Some (role_binding_reconcile msa), moc_depends_on = [], moc_policy = NoPolicy,
             moc_status = Some SimpleStatus\<rparr> cluster s
      in (cluster1, s1))"

interpretation role_binding: stamped_reconciler "role_binding_reconcile msa" "{}" for msa
  by unfold_locales (auto simp: role_binding_reconcile_def carries_labels_def kind_of_def split: payload.splits)

interpretation role_binding: total_reconciler "role_binding_reconcile msa" "{}" "''ClusterRoleBinding''" for msa
  by unfold_locales (auto simp: role_binding_reconcile_def kind_of_def split: payload.splits)

definition role_binding_entry :: "managed_service_account \<Rightarrow> 'w entry" where
  "role_binding_entry msa = (new_object clusterRoleBindingName '''' (ClusterRoleBinding [] empty_role_ref),
     \<lparr>moc_reconcile = Some (role_binding_reconcile msa), moc_depends_on = [], moc_policy = NoPolicy,
      moc_status = Some SimpleStatus\<rparr>)"

lemma configure_role_binding_adds: "configure_role_binding mc msa s = adds mc s [role_binding_entry msa]"
  by (simp add: configure_role_binding_def role_binding_entry_def)

end
