(* ===== verification/Controller.thy ===== *)
theory Controller
  imports Secrets Deployments Crds Role_Bindings
begin

text \<open>
  \<open>internal/controller/velero_controller.go\<close>: the reconciler of Velero resources. It checks
  the requested version, resolves the images, sets up the managed objects of both clusters
  and hands them to the manager, and turns the manager's results into the resource's status.
  The functions that receive the resource by pointer return it updated.
\<close>

subsection \<open>Version and images\<close>

definition errorf_wrap :: "error \<Rightarrow> string \<Rightarrow> error" where
  "errorf_wrap e t = Errorf (error_text e @ t) [e]"

definition version_range :: string where
  "version_range = ''>=1.16.0 <1.19.0''"

text \<open>
  \<open>validateRequestedVersion\<close>. The error of \<open>ParseRange\<close> is dropped, so a nil range would be
  called: a panic, the outer \<open>None\<close>.
\<close>

definition validateRequestedVersion :: "'w ext \<Rightarrow> string \<Rightarrow> error option option" where
  "validateRequestedVersion x version =
     (case x_parse_tolerant x version of
        None \<Rightarrow> Some (Some (errorf_wrap (x_err_invalid_input x)
                   ('': requested version ('' @ version @ '') is not valid'')))
      | Some requestedVersion \<Rightarrow> do {
          versionWindow \<leftarrow> x_parse_range x version_range;
          Some (if \<not> versionWindow requestedVersion
                then Some (errorf_wrap (x_err_invalid_input x)
                       ('': requested version ('' @ version @ '') is not supported''))
                else None) })"

fun find_version :: "string \<Rightarrow> string \<Rightarrow> string list \<Rightarrow> string option" where
  "find_version img version [] = None"
| "find_version img version (availableVersion # vs) =
     (if availableVersion = version then Some (img @ '':'' @ availableVersion)
      else find_version img version vs)"

fun resolve_in :: "string \<Rightarrow> string \<Rightarrow> available_images list \<Rightarrow> string" where
  "resolve_in name version [] = ''''"
| "resolve_in name version (availableImage # ais) =
     (if ai_name availableImage \<noteq> name then resolve_in name version ais
      else case find_version (ai_image availableImage) version (ai_versions availableImage) of
             Some r \<Rightarrow> r
           | None \<Rightarrow> resolve_in name version ais)"

definition resolveImage :: "string \<Rightarrow> string \<Rightarrow> provider_config \<Rightarrow> string" where
  "resolveImage name version pc = resolve_in name version (pc_images pc)"

fun resolve_plugins :: "velero_plugin list \<Rightarrow> provider_config \<Rightarrow> go_map \<Rightarrow> go_map option" where
  "resolve_plugins [] pc res = Some res"
| "resolve_plugins (plugin # plugins) pc res =
     (let img = resolveImage (vp_name plugin) (vp_version plugin) pc
      in if img = '''' then None else resolve_plugins plugins pc (res(vp_name plugin \<mapsto> img)))"

definition resolveImages :: "velero_spec \<Rightarrow> provider_config \<Rightarrow> go_map option" where
  "resolveImages vs pc =
     (let veleroServerImage = resolveImage ''velero'' (vs_version vs) pc
      in if veleroServerImage = '''' then None
         else resolve_plugins (vs_plugins vs) pc [''velero'' \<mapsto> veleroServerImage])"

subsection \<open>Setting up the manager\<close>

record 'w velero_reconciler =
  vr_onboarding :: cluster_handle
  vr_platform :: cluster_handle
  vr_pod_namespace :: string
  vr_create_manager :: "velero \<Rightarrow> 'w manager"

record cluster_context =
  cc_mcp :: cluster_handle
  cc_workload :: cluster_handle

definition ensureInstanceID :: "'w ext \<Rightarrow> 'w velero_reconciler \<Rightarrow> velero \<Rightarrow> 'w st
    \<Rightarrow> (velero \<times> error option) \<times> 'w st" where
  "ensureInstanceID x r obj s =
     (if length (GetID (v_meta obj)) = 0 then
        (case k_update_velero x (vr_onboarding r) (SetID obj (GenerateID obj)) s of
           ((obj1, Some err), s1) \<Rightarrow>
             ((obj1, Some (Errorf (''failed to set instance id of velero resource '' @ om_namespace (v_meta obj1)
                       @ ''/'' @ om_name (v_meta obj1) @ '': '' @ error_text err) [err])), s1)
         | ((obj1, None), s1) \<Rightarrow> ((obj1, None), s1))
      else ((obj, None), s))"

text \<open>The body of \<open>createObjectManager\<close> once the images are resolved.\<close>

definition build_manager :: "'w ext \<Rightarrow> 'w velero_reconciler \<Rightarrow> velero \<Rightarrow> provider_config \<Rightarrow> go_map
    \<Rightarrow> cluster_context \<Rightarrow> 'w st \<Rightarrow> ((error + 'w manager) \<times> 'w st) option" where
  "build_manager x r obj pc images clusters s = (
     let workload0 = NewManagedCluster (cc_workload clusters) (ch_rest (cc_workload clusters))
           (InstanceNamespace obj) WorkloadCluster;
         mcp0 = NewManagedCluster (cc_mcp clusters) (ch_rest (cc_mcp clusters)) ''velero'' ManagedControlPlane;
         (mcp1, s1) = configure_namespace mcp0 Orphan s;
         mcpServiceAccount = \<lparr>msa_name = ''velero-server'', msa_namespace = GetDefaultNamespace mcp1\<rparr>
     in do {
       pollInterval \<leftarrow> PollInterval pc;
       let ((tokenFunc, workload1, mcp2), s2) =
             configure_service_account x mcpServiceAccount workload0 mcp1 pollInterval s1;
       (crds, s3) \<leftarrow> configure_crds x mcp2 s2;
       (case crds of
          Inl err \<Rightarrow> Some (Inl err, s3)
        | Inr mcp3 \<Rightarrow>
            (let (mcp4, s4) = configure_role_binding mcp3 mcpServiceAccount s3;
                 (mcp5, s5) = configure_mcp_deployment x mcp4 (map_get (Some images) ''velero'')
                                (GetID (v_meta obj)) s4;
                 (workload2, s6) = configure_namespace workload1 Delete s5;
                 (workload3, s7) = configure_secrets x (vr_platform r) (pc_pull_secrets pc)
                                     (vr_pod_namespace r) workload2 s6;
                 (workload4, s8) = configure_deployment x workload3 (GetDefaultNamespace mcp5) obj
                                     (pc_pull_secrets pc) images tokenFunc s7;
                 mgr = AddCluster workload4 (AddCluster mcp5 (vr_create_manager r obj));
                 secretsToKeep = pc_pull_secrets pc @ [SecretRef mcpServiceAccount];
                 workloadSecretCleaner = Cleanup x (NewSecretCleaner workload4 (GetDefaultNamespace workload4) secretsToKeep)
             in Some (Inr (AddCleaner workloadSecretCleaner mgr), s8))) })"

definition createObjectManager :: "'w ext \<Rightarrow> 'w velero_reconciler \<Rightarrow> velero \<Rightarrow> provider_config
    \<Rightarrow> cluster_context \<Rightarrow> 'w st \<Rightarrow> ((velero \<times> (error + 'w manager)) \<times> 'w st) option" where
  "createObjectManager x r obj pc clusters s = do {
     invalid \<leftarrow> validateRequestedVersion x (vs_version (v_spec obj));
     (case invalid of
        Some err \<Rightarrow> Some ((obj, Inl err), s)
      | None \<Rightarrow>
          (case ensureInstanceID x r obj s of
             ((obj1, Some err), s1) \<Rightarrow> Some ((obj1, Inl err), s1)
           | ((obj1, None), s1) \<Rightarrow>
               (case resolveImages (v_spec obj1) pc of
                  None \<Rightarrow> Some ((obj1, Inl (errorf_wrap (x_err_invalid_input x)
                            '': requested version is not available'')), s1)
                | Some images \<Rightarrow> do {
                    (mgr, s2) \<leftarrow> build_manager x r obj1 pc images clusters s1;
                    Some ((obj1, mgr), s2) }))) }"

subsection \<open>Results and status\<close>

definition nilIfEmptyString :: "string \<Rightarrow> string option" where
  "nilIfEmptyString str = (if str = '''' then None else Some str)"

fun resultsToResources :: "'w result list \<Rightarrow> 'w st \<Rightarrow> (managed_resource list \<times> bool) option" where
  "resultsToResources [] s = Some ([], False)"
| "resultsToResources (res # results) s = do {
     let obj = GetObject (res_object res) s;
     status \<leftarrow> GetStatus (res_object res) (cluster_location (mc_type (res_cluster res))) s;
     (resources, containsError) \<leftarrow> resultsToResources results s;
     Some (\<lparr>mr_kind = kind_of obj, mr_name = get_name obj, mr_namespace = nilIfEmptyString (get_namespace obj),
            mr_phase = s_phase status, mr_message = s_message status, mr_location = s_location status\<rparr> # resources,
           res_error res \<noteq> None \<or> containsError) }"

fun allResourcesReady :: "managed_resource list \<Rightarrow> bool" where
  "allResourcesReady [] = True"
| "allResourcesReady (res # resources) = (if mr_phase res \<noteq> Ready then False else allResourcesReady resources)"

subsection \<open>The two handlers\<close>

record ctrl_result =
  requeue_after :: duration

definition no_requeue :: ctrl_result where
  "no_requeue = \<lparr>requeue_after = 0\<rparr>"

definition requeue_10s :: ctrl_result where
  "requeue_10s = \<lparr>requeue_after = 10 * second\<rparr>"

definition resources_error :: "error option \<Rightarrow> error" where
  "resources_error err =
     (let resultWithErrors = ErrorNew ''resources contain reconcile errors''
      in case err of
           None \<Rightarrow> resultWithErrors
         | Some e \<Rightarrow> Errorf (error_text resultWithErrors @ '': '' @ error_text e) [resultWithErrors, e])"

type_synonym 'w handler_outcome = "((velero \<times> ctrl_result \<times> error option) \<times> 'w st) option"

definition reconciler_CreateOrUpdate :: "'w ext \<Rightarrow> 'w velero_reconciler \<Rightarrow> velero \<Rightarrow> provider_config
    \<Rightarrow> cluster_context \<Rightarrow> 'w st \<Rightarrow> 'w handler_outcome" where
  "reconciler_CreateOrUpdate x r obj pc clusters s = do {
     ((obj1, created), s1) \<leftarrow> createObjectManager x r obj pc clusters s;
     (case created of
        Inl err \<Rightarrow> Some ((x_status_progressing x obj1 ''ReconcileError'' (error_text err), no_requeue,
                          x_ignore_invalid_input x err), s1)
      | Inr mgr \<Rightarrow> do {
          ((results, err), s2) \<leftarrow> Apply x mgr s1;
          (managedResources, resultContainsErrors) \<leftarrow> resultsToResources results s2;
          let obj2 = set_resources obj1 managedResources;
          Some (if resultContainsErrors \<or> err \<noteq> None then
                  (let resultWithErrors = resources_error err
                   in ((x_status_progressing x obj2 ''ReconcileError'' (error_text resultWithErrors), no_requeue,
                        Some resultWithErrors), s2))
                else if allResourcesReady managedResources then ((x_status_ready x obj2, no_requeue, None), s2)
                else ((x_status_progressing x obj2 ''Reconciling'' ''Reconcile in progress'', requeue_10s, None), s2)) }) }"

definition reconciler_Delete :: "'w ext \<Rightarrow> 'w velero_reconciler \<Rightarrow> velero \<Rightarrow> provider_config
    \<Rightarrow> cluster_context \<Rightarrow> 'w st \<Rightarrow> 'w handler_outcome" where
  "reconciler_Delete x r obj pc clusters s = do {
     ((obj1, created), s1) \<leftarrow> createObjectManager x r obj pc clusters s;
     (case created of
        Inl err \<Rightarrow> Some ((x_status_terminating_reason x obj1 ''ReconcileError'' (error_text err), no_requeue,
                          x_ignore_invalid_input x err), s1)
      | Inr mgr \<Rightarrow> do {
          ((results, err), s2) \<leftarrow> DeleteAll x mgr s1;
          (managedResources, resultContainsErrors) \<leftarrow> resultsToResources results s2;
          let obj2 = set_resources obj1 managedResources;
          Some (if resultContainsErrors \<or> err \<noteq> None then
                  (let resultWithErrors = resources_error err
                   in ((x_status_terminating_reason x obj2 ''ReconcileError'' (error_text resultWithErrors), no_requeue,
                        Some resultWithErrors), s2))
                else if AllDeleted results then ((obj2, no_requeue, None), s2)
                else ((x_status_terminating x obj2, requeue_10s, None), s2)) }) }"

end
