(* ===== verification/Inventory.thy ===== *)
theory Inventory
  imports Controller
begin

text \<open>
  What \<open>createObjectManager\<close> sets up, stated as an inventory: the managed objects of both
  clusters, in order, with their kinds, keys, deletion policies and dependencies. Everything
  the handlers' properties need of the manager is derived from it.
\<close>

subsection \<open>The entries of both clusters\<close>

definition server_account :: managed_service_account where
  "server_account = \<lparr>msa_name = ''velero-server'', msa_namespace = ''velero''\<rparr>"

definition mcp_cluster :: "cluster_context \<Rightarrow> 'w managed_cluster" where
  "mcp_cluster cc = NewManagedCluster (cc_mcp cc) (ch_rest (cc_mcp cc)) ''velero'' ManagedControlPlane"

definition workload_cluster :: "cluster_context \<Rightarrow> velero \<Rightarrow> 'w managed_cluster" where
  "workload_cluster cc obj =
     NewManagedCluster (cc_workload cc) (ch_rest (cc_workload cc)) (InstanceNamespace obj) WorkloadCluster"

definition mcp_entries :: "'w ext \<Rightarrow> velero \<Rightarrow> go_map \<Rightarrow> parsed_crd list \<Rightarrow> 'w entry list" where
  "mcp_entries x obj images crds =
     [namespace_entry ''velero'' Orphan, service_account_entry server_account]
     @ map crd_entry crds
     @ [role_binding_entry server_account,
        deployment_entry (mcp_deployment_reconcile x (map_get (Some images) ''velero'') (GetID (v_meta obj))) ''velero'']"

definition workload_entries :: "'w ext \<Rightarrow> 'w velero_reconciler \<Rightarrow> velero \<Rightarrow> provider_config \<Rightarrow> go_map
    \<Rightarrow> cluster_context \<Rightarrow> duration \<Rightarrow> 'w managed_object \<Rightarrow> 'w entry list" where
  "workload_entries x r obj pc images cc poll msa =
     [token_entry x server_account (mcp_cluster cc) poll (InstanceNamespace obj) msa,
      namespace_entry (InstanceNamespace obj) Delete]
     @ map (pull_secret_entry x (vr_platform r) (InstanceNamespace obj) (vr_pod_namespace r)) (pc_pull_secrets pc)
     @ [deployment_entry (deployment_reconcile x ''velero'' obj (pc_pull_secrets pc) images
          (token_apply server_account (mcp_cluster cc :: 'w managed_cluster))) (InstanceNamespace obj)]"

definition kept_secrets :: "provider_config \<Rightarrow> string list" where
  "kept_secrets pc = pc_pull_secrets pc @ [''kube-api-access-velero-server'']"

text \<open>The closures read only the cluster's handle, configuration and namespace.\<close>

lemma token_reconcile_cong:
  assumes "mc_cluster a = mc_cluster b" "mc_cfg a = mc_cfg b" "mc_namespace a = mc_namespace b"
  shows "token_reconcile x m a poll = token_reconcile x m b poll"
  by (intro ext) (unfold token_reconcile_def GetDefaultNamespace_def assms, rule refl)

lemma token_entry_cong:
  "mc_cluster a = mc_cluster b \<Longrightarrow> mc_cfg a = mc_cfg b \<Longrightarrow> mc_namespace a = mc_namespace b \<Longrightarrow>
     token_entry x m a poll ns msa = token_entry x m b poll ns msa"
  by (simp add: token_entry_def token_reconcile_cong[of a b])

lemma token_apply_cong: "mc_cfg a = mc_cfg b \<Longrightarrow> token_apply m a = token_apply m b"
  by (intro ext) (simp add: token_apply_eq GetHostAndPort_cong[of a b])

lemma adds_cluster_simps [simp]:
  "mc_cluster (fst (adds mc s es)) = mc_cluster mc" "mc_cfg (fst (adds mc s es)) = mc_cfg mc"
  "mc_namespace (fst (adds mc s es)) = mc_namespace mc" "mc_type (fst (adds mc s es)) = mc_type mc"
  "mc_objects (fst (adds mc s es)) = mc_objects mc @ entry_objects (next_ref s) es"
  by (simp_all add: adds_cluster)

lemma adds_state_simps [simp]:
  "next_ref (snd (adds mc s es)) = next_ref s + length es" "trace (snd (adds mc s es)) = trace s"
  "world (snd (adds mc s es)) = world s"
  by (simp_all add: adds_state)

subsection \<open>The built manager\<close>

record 'w blueprint =
  bp_poll :: duration
  bp_crds :: "parsed_crd list"
  bp_mcp :: "'w managed_cluster"
  bp_workload :: "'w managed_cluster"

definition service_account_of :: "'w blueprint \<Rightarrow> 'w managed_object" where
  "service_account_of u = mc_objects (bp_mcp u) ! 1"

text \<open>The manager \<open>m\<close> and the state \<open>s'\<close> are what the set-up \<open>u\<close> describes.\<close>

definition set_up :: "'w ext \<Rightarrow> 'w velero_reconciler \<Rightarrow> velero \<Rightarrow> provider_config \<Rightarrow> go_map
    \<Rightarrow> cluster_context \<Rightarrow> 'w blueprint \<Rightarrow> 'w manager \<Rightarrow> 'w st \<Rightarrow> bool" where
  "set_up x r obj pc images cc u m s' =
     (PollInterval pc = Some (bp_poll u) \<and> Parse x = Some (Inr (bp_crds u))
      \<and> m = \<lparr>mgr_instance_id = mgr_instance_id (vr_create_manager r obj),
             mgr_clusters = mgr_clusters (vr_create_manager r obj) @ [bp_mcp u, bp_workload u],
             mgr_cleaners = mgr_cleaners (vr_create_manager r obj)
               @ [secretCleaner_Cleanup x (bp_workload u) (InstanceNamespace obj) (kept_secrets pc)]\<rparr>
      \<and> mc_cluster (bp_mcp u) = cc_mcp cc \<and> mc_type (bp_mcp u) = ManagedControlPlane
      \<and> mc_cluster (bp_workload u) = cc_workload cc \<and> mc_type (bp_workload u) = WorkloadCluster
      \<and> list_all2 (stands_for s') (mc_objects (bp_mcp u)) (mcp_entries x obj images (bp_crds u))
      \<and> list_all2 (stands_for s') (mc_objects (bp_workload u))
          (workload_entries x r obj pc images cc (bp_poll u) (service_account_of u))
      \<and> distinct (map mo_ref (mc_objects (bp_mcp u) @ mc_objects (bp_workload u))))"

lemma stands_for_adds:
  assumes "extends_store (snd (adds mc s es)) s'"
  shows "list_all2 (stands_for s') (entry_objects (next_ref s) es) es"
  using adds_stands_for[of mc s es] stands_for_extends[OF assms] by (blast intro: list_all2_mono)

lemma adds_extends: "extends_store s t \<Longrightarrow> extends_store s (snd (adds mc t es))"
  using adds_state[of mc t es] extends_store_trans by blast

text \<open>The steps of \<open>build_manager\<close> as additions to the two clusters.\<close>

lemma build_manager_eq:
  fixes x :: "'w ext"
  shows "build_manager x r obj pc images cc s = (
    let a1 = adds (mcp_cluster cc) s [namespace_entry ''velero'' Orphan];
        a2 = adds (fst a1) (snd a1) [service_account_entry server_account];
        msa = managed_of (snd (service_account_entry server_account)) (next_ref s + 1)
    in case PollInterval pc of None \<Rightarrow> None | Some poll \<Rightarrow> (
      let b1 = adds (workload_cluster cc obj) (snd a2)
                 [token_entry x server_account (mcp_cluster cc) poll (InstanceNamespace obj) msa]
      in case Parse x of None \<Rightarrow> None
         | Some (Inl e) \<Rightarrow> Some (Inl e, snd b1)
         | Some (Inr crds) \<Rightarrow> (
      let a3 = adds (fst a2) (snd b1) (map crd_entry crds);
          a4 = adds (fst a3) (snd a3) [role_binding_entry server_account];
          a5 = adds (fst a4) (snd a4) [deployment_entry
                 (mcp_deployment_reconcile x (map_get (Some images) ''velero'') (GetID (v_meta obj))) ''velero''];
          b2 = adds (fst b1) (snd a5) [namespace_entry (InstanceNamespace obj) Delete];
          b3 = adds (fst b2) (snd b2) (map (pull_secret_entry x (vr_platform r) (InstanceNamespace obj)
                 (vr_pod_namespace r)) (pc_pull_secrets pc));
          b4 = adds (fst b3) (snd b3) [deployment_entry (deployment_reconcile x ''velero'' obj (pc_pull_secrets pc)
                 images (token_apply server_account (mcp_cluster cc :: 'w managed_cluster))) (InstanceNamespace obj)]
      in Some (Inr (AddCleaner (secretCleaner_Cleanup x (fst b4) (InstanceNamespace obj) (kept_secrets pc))
            (AddCluster (fst b4) (AddCluster (fst a5) (vr_create_manager r obj)))), snd b4))))"
proof -
  define mcp0 :: "'w managed_cluster" where "mcp0 = mcp_cluster cc"
  define wl0 :: "'w managed_cluster" where "wl0 = workload_cluster cc obj"
  have m0: "NewManagedCluster (cc_mcp cc) (ch_rest (cc_mcp cc)) ''velero'' ManagedControlPlane = mcp0"
    "NewManagedCluster (cc_workload cc) (ch_rest (cc_workload cc)) (InstanceNamespace obj) WorkloadCluster = wl0"
    by (simp_all add: mcp0_def wl0_def mcp_cluster_def workload_cluster_def)
  have ns: "mc_namespace mcp0 = ''velero''" "mc_namespace wl0 = InstanceNamespace obj"
    by (simp_all add: mcp0_def wl0_def mcp_cluster_def workload_cluster_def)
  have acc: "\<lparr>msa_name = ''velero-server'', msa_namespace = ''velero''\<rparr> = server_account"
    by (simp add: server_account_def)
  have tok: "token_entry x server_account (fst (adds (fst (adds mcp0 t es)) t' fs)) poll n ma
      = token_entry x server_account mcp0 poll n ma"
    and app: "token_apply server_account (fst (adds (fst (adds mcp0 t es)) t' fs)) = token_apply server_account mcp0"
    for t es t' fs poll n ma
    by (intro token_entry_cong token_apply_cong; simp)+
  have ref: "SecretRef server_account = ''kube-api-access-velero-server''"
    by (simp add: SecretRef_def kubeAPIAccess_def server_account_def)
  show ?thesis
    unfolding mcp0_def[symmetric] wl0_def[symmetric]
    by (cases "PollInterval pc"; cases "Parse x")
      (simp_all add: build_manager_def configure_crds_def m0 configure_namespace_adds configure_service_account_adds
        add_crds_adds configure_role_binding_adds configure_mcp_deployment_adds configure_secrets_adds
        configure_deployment_adds GetDefaultNamespace_def ns acc tok app ref kept_secrets_def Let_def split_beta
        del: adds.simps split: sum.splits)
qed

lemma list_all2_two: "P a b \<Longrightarrow> P c d \<Longrightarrow> list_all2 P [a, c] [b, d]"
  by simp

lemma fresh_refs:
  assumes "distinct (map mo_ref os)" "\<forall>p \<in> set os. n + length es \<le> mo_ref p"
  shows "distinct (map mo_ref (entry_objects n es @ os))" "\<forall>p \<in> set (entry_objects n es). n \<le> mo_ref p"
    "mo_ref ` set (entry_objects n es) \<inter> mo_ref ` set os = {}" "\<forall>p \<in> set os. n \<le> mo_ref p"
proof -
  have r: "mo_ref ` set (entry_objects n es) = {n..<n + length es}"
    by (simp only: set_map[symmetric] entry_objects_refs set_upt)
  show "\<forall>p \<in> set (entry_objects n es). n \<le> mo_ref p" using r by (metis atLeastLessThan_iff imageI)
  show d: "mo_ref ` set (entry_objects n es) \<inter> mo_ref ` set os = {}" unfolding r using assms(2) by auto
  show "distinct (map mo_ref (entry_objects n es @ os))"
    using assms(1) d by (simp add: entry_objects_refs r)
  show "\<forall>p \<in> set os. n \<le> mo_ref p" using assms(2) by auto
qed

text \<open>
  Additions to two clusters in turn, marked by whether they go to the first one: each cluster
  ends up with its own entries in order, and no two objects share a reference.
\<close>

fun two_adds :: "(bool \<times> 'w entry list) list \<Rightarrow> 'w managed_cluster \<Rightarrow> 'w managed_cluster \<Rightarrow> 'w st
    \<Rightarrow> 'w managed_cluster \<times> 'w managed_cluster \<times> 'w st" where
  "two_adds [] a b s = (a, b, s)"
| "two_adds ((True, es) # steps) a b s = two_adds steps (fst (adds a s es)) b (snd (adds a s es))"
| "two_adds ((False, es) # steps) a b s = two_adds steps a (fst (adds b s es)) (snd (adds b s es))"

fun entries_of :: "bool \<Rightarrow> (bool \<times> 'w entry list) list \<Rightarrow> 'w entry list" where
  "entries_of d [] = []"
| "entries_of d ((c, es) # steps) = (if c = d then es else []) @ entries_of d steps"

definition settings_of :: "'w managed_cluster \<Rightarrow> cluster_handle \<times> cluster_type" where
  "settings_of mc = (mc_cluster mc, mc_type mc)"

lemma two_adds_state:
  "two_adds steps a b s = (a', b', s') \<Longrightarrow> extends_store s s' \<and> trace s' = trace s \<and> world s' = world s
     \<and> settings_of a' = settings_of a \<and> settings_of b' = settings_of b"
proof (induction steps a b s rule: two_adds.induct)
  case (1 a b s)
  then show ?case by (simp add: extends_store_refl)
next
  case (2 es steps a b s)
  from 2(1)[OF 2(2)[unfolded two_adds.simps]] adds_extends[OF extends_store_refl, of s a es] show ?case
    by (auto simp: settings_of_def simp del: adds.simps intro: extends_store_trans)
next
  case (3 es steps a b s)
  from 3(1)[OF 3(2)[unfolded two_adds.simps]] adds_extends[OF extends_store_refl, of s b es] show ?case
    by (auto simp: settings_of_def simp del: adds.simps intro: extends_store_trans)
qed

lemma two_adds_objects:
  "two_adds steps a b s = (a', b', s') \<Longrightarrow>
     \<exists>oa ob. mc_objects a' = mc_objects a @ oa \<and> mc_objects b' = mc_objects b @ ob
       \<and> list_all2 (stands_for s') oa (entries_of True steps) \<and> list_all2 (stands_for s') ob (entries_of False steps)
       \<and> distinct (map mo_ref (oa @ ob)) \<and> (\<forall>p \<in> set (oa @ ob). next_ref s \<le> mo_ref p)"
proof (induction steps a b s rule: two_adds.induct)
  case (1 a b s)
  then show ?case by simp
next
  case (2 es steps a b s)
  note run = 2(2)[unfolded two_adds.simps]
  from 2(1)[OF run] obtain oa ob where o: "mc_objects a' = mc_objects a @ entry_objects (next_ref s) es @ oa"
    "mc_objects b' = mc_objects b @ ob" "list_all2 (stands_for s') oa (entries_of True steps)"
    "list_all2 (stands_for s') ob (entries_of False steps)" "distinct (map mo_ref (oa @ ob))"
    "\<forall>p \<in> set (oa @ ob). next_ref s + length es \<le> mo_ref p" by auto
  show ?case
    using o stands_for_adds[OF two_adds_state[OF run, THEN conjunct1]] fresh_refs[OF o(5,6)]
    by - (rule exI[of _ "entry_objects (next_ref s) es @ oa"], rule exI[of _ ob], auto simp: list_all2_appendI)
next
  case (3 es steps a b s)
  note run = 3(2)[unfolded two_adds.simps]
  from 3(1)[OF run] obtain oa ob where o: "mc_objects a' = mc_objects a @ oa"
    "mc_objects b' = mc_objects b @ entry_objects (next_ref s) es @ ob" "list_all2 (stands_for s') oa (entries_of True steps)"
    "list_all2 (stands_for s') ob (entries_of False steps)" "distinct (map mo_ref (oa @ ob))"
    "\<forall>p \<in> set (oa @ ob). next_ref s + length es \<le> mo_ref p" by auto
  show ?case
    using o stands_for_adds[OF two_adds_state[OF run, THEN conjunct1]] fresh_refs[OF o(5,6)]
    by - (rule exI[of _ oa], rule exI[of _ "entry_objects (next_ref s) es @ ob"], auto simp: list_all2_appendI)
qed

lemma build_manager_set_up:
  fixes x :: "'w ext"
  assumes "build_manager x r obj pc images cc s = Some (Inr m, s')"
  shows "\<exists>u. set_up x r obj pc images cc u m s' \<and> trace s' = trace s \<and> world s' = world s"
proof -
  from assms obtain poll crds where pc: "PollInterval pc = Some poll" "Parse x = Some (Inr crds)"
    by (auto simp: build_manager_eq Let_def split: option.splits sum.splits)
  define msa :: "'w managed_object" where "msa = managed_of (snd (service_account_entry server_account)) (next_ref s + 1)"
  define rest where "rest = [
      (False, [token_entry x server_account (mcp_cluster cc) poll (InstanceNamespace obj) msa]),
      (True, map crd_entry crds), (True, [role_binding_entry server_account]),
      (True, [deployment_entry (mcp_deployment_reconcile x (map_get (Some images) ''velero'') (GetID (v_meta obj))) ''velero'']),
      (False, [namespace_entry (InstanceNamespace obj) Delete]),
      (False, map (pull_secret_entry x (vr_platform r) (InstanceNamespace obj) (vr_pod_namespace r)) (pc_pull_secrets pc)),
      (False, [deployment_entry (deployment_reconcile x ''velero'' obj (pc_pull_secrets pc) images
         (token_apply server_account (mcp_cluster cc :: 'w managed_cluster))) (InstanceNamespace obj)])]"
  define steps where "steps = (True, [namespace_entry ''velero'' Orphan]) # (True, [service_account_entry server_account]) # rest"
  obtain a b t where ab: "two_adds steps (mcp_cluster cc) (workload_cluster cc obj) s = (a, b, t)" by (metis prod.exhaust)
  have m: "m = AddCleaner (secretCleaner_Cleanup x b (InstanceNamespace obj) (kept_secrets pc))
      (AddCluster b (AddCluster a (vr_create_manager r obj))) \<and> s' = t"
    using assms ab unfolding build_manager_eq steps_def rest_def by (simp add: pc Let_def msa_def del: adds.simps)
  obtain oa ob where o: "mc_objects a = mc_objects (mcp_cluster cc) @ oa" "mc_objects b = mc_objects (workload_cluster cc obj) @ ob"
    "list_all2 (stands_for t) oa (entries_of True steps)" "list_all2 (stands_for t) ob (entries_of False steps)"
    "distinct (map mo_ref (oa @ ob))" using two_adds_objects[OF ab] by blast
  have entries: "entries_of True steps = mcp_entries x obj images crds"
    "entries_of False steps = workload_entries x r obj pc images cc poll msa"
    by (simp_all add: steps_def rest_def mcp_entries_def workload_entries_def)
  have "mc_objects a ! 1 = msa"
    using two_adds_objects[OF ab[unfolded steps_def two_adds.simps]]
    by (auto simp: mcp_cluster_def msa_def simp del: adds.simps)
  with m o two_adds_state[OF ab] show ?thesis
    unfolding entries
    by (intro exI[of _ "\<lparr>bp_poll = poll, bp_crds = crds, bp_mcp = a, bp_workload = b\<rparr>"])
      (simp add: set_up_def service_account_of_def AddCleaner_def AddCluster_def pc settings_of_def mcp_cluster_def workload_cluster_def)
qed

subsection \<open>The inventory\<close>

text \<open>The constructor function that \<open>main\<close> installs.\<close>

definition fresh_manager :: "'w velero_reconciler \<Rightarrow> bool" where
  "fresh_manager r = (\<forall>obj. vr_create_manager r obj = NewManager (GetID (v_meta obj)))"

type_synonym inventory_item = "cluster_type \<times> string \<times> object_key \<times> deletion_policy"

definition inventory :: "string \<Rightarrow> string list \<Rightarrow> string list \<Rightarrow> inventory_item list" where
  "inventory wns crds pulls =
     [(ManagedControlPlane, ''Namespace'', ([], ''velero''), Orphan),
      (ManagedControlPlane, ''ServiceAccount'', (''velero'', ''velero-server''), Delete)]
     @ map (\<lambda>n. (ManagedControlPlane, ''CustomResourceDefinition'', ([], n), Orphan)) crds
     @ [(ManagedControlPlane, ''ClusterRoleBinding'', ([], ''velero-server''), Delete),
        (ManagedControlPlane, ''Deployment'', (''velero'', ''velero''), Delete),
        (WorkloadCluster, ''Secret'', (wns, ''kube-api-access-velero-server''), Delete),
        (WorkloadCluster, ''Namespace'', ([], wns), Delete)]
     @ map (\<lambda>p. (WorkloadCluster, ''Secret'', (wns, p), Delete)) pulls
     @ [(WorkloadCluster, ''Deployment'', (wns, ''velero''), Delete)]"

definition describe :: "'w st \<Rightarrow> 'w target \<Rightarrow> inventory_item" where
  "describe s t = (mc_type (fst t), kind_of (GetObject (snd t) s), object_key (GetObject (snd t) s), mo_policy (snd t))"

definition describe_entry :: "cluster_type \<Rightarrow> 'w entry \<Rightarrow> inventory_item" where
  "describe_entry ct e = (ct, kind_of (fst e), object_key (fst e), mo_policy (managed_of (snd e) 0))"

lemma describe_stands_for:
  assumes "list_all2 (stands_for s) mos es"
  shows "map (\<lambda>mo. describe s (mc, mo)) mos = map (describe_entry (mc_type mc)) es"
  using assms
proof (induction rule: list_all2_induct)
  case Nil
  then show ?case by simp
next
  case (Cons mo mos e es)
  have "mo_policy mo = mo_policy (managed_of (snd e) 0)"
    using Cons(1) managed_of_simps(5) unfolding stands_for_def by metis
  with Cons show ?case by (simp add: describe_def describe_entry_def stands_for_def)
qed

lemma describe_mcp_entries:
  "map (describe_entry ManagedControlPlane) (mcp_entries x obj images crds)
   @ map (describe_entry WorkloadCluster) (workload_entries x r obj pc images cc poll msa)
   = inventory (InstanceNamespace obj) (map fst crds) (pc_pull_secrets pc)"
  by (simp add: mcp_entries_def workload_entries_def inventory_def describe_entry_def namespace_entry_def
      service_account_entry_def crd_entry_def role_binding_entry_def deployment_entry_def token_entry_def
      pull_secret_entry_def server_account_def clusterRoleBindingName_def veleroName_def kubeAPIAccess_def comp_def)

lemma set_up_targets:
  assumes "set_up x r obj pc images cc u m s'" "fresh_manager r"
  shows "targets m = map (Pair (bp_mcp u)) (mc_objects (bp_mcp u)) @ map (Pair (bp_workload u)) (mc_objects (bp_workload u))"
    and "mgr_instance_id m = GetID (v_meta obj)"
    and "mgr_cleaners m = [secretCleaner_Cleanup x (bp_workload u) (InstanceNamespace obj) (kept_secrets pc)]"
    and "distinct (map (mo_ref \<circ> snd) (targets m))"
  using assms by (simp_all add: set_up_def fresh_manager_def NewManager_def targets_def GetObjects_def comp_def)

lemma set_up_inventory:
  assumes "set_up x r obj pc images cc u m s'" "fresh_manager r"
  shows "map (describe s') (targets m) = inventory (InstanceNamespace obj) (map fst (bp_crds u)) (pc_pull_secrets pc)"
proof -
  have "list_all2 (stands_for s') (mc_objects (bp_mcp u)) (mcp_entries x obj images (bp_crds u))"
    "list_all2 (stands_for s') (mc_objects (bp_workload u))
          (workload_entries x r obj pc images cc (bp_poll u) (service_account_of u))"
    "mc_type (bp_mcp u) = ManagedControlPlane" "mc_type (bp_workload u) = WorkloadCluster"
    using assms(1) by (simp_all add: set_up_def)
  note d = this describe_stands_for[OF this(1), of "bp_mcp u"] describe_stands_for[OF this(2), of "bp_workload u"]
  have "map (describe s') (targets m) =
      map (\<lambda>mo. describe s' (bp_mcp u, mo)) (mc_objects (bp_mcp u))
      @ map (\<lambda>mo. describe s' (bp_workload u, mo)) (mc_objects (bp_workload u))"
    unfolding set_up_targets(1)[OF assms] by simp
  also have "\<dots> = inventory (InstanceNamespace obj) (map fst (bp_crds u)) (pc_pull_secrets pc)"
    unfolding d(5,6) unfolding d(3,4) by (rule describe_mcp_entries)
  finally show ?thesis .
qed

text \<open>Every target stands for one of the entries, so what holds of all entries holds of all targets.\<close>

lemma set_up_target_cases:
  assumes "set_up x r obj pc images cc u m s'" "fresh_manager r" "t \<in> set (targets m)"
  obtains (mcp) e where "fst t = bp_mcp u" "e \<in> set (mcp_entries x obj images (bp_crds u))" "stands_for s' (snd t) e"
  | (workload) e where "fst t = bp_workload u"
      "e \<in> set (workload_entries x r obj pc images cc (bp_poll u) (service_account_of u))" "stands_for s' (snd t) e"
proof -
  have l: "list_all2 (stands_for s') (mc_objects (bp_mcp u)) (mcp_entries x obj images (bp_crds u))"
    "list_all2 (stands_for s') (mc_objects (bp_workload u))
          (workload_entries x r obj pc images cc (bp_poll u) (service_account_of u))"
    using assms(1) by (simp_all add: set_up_def)
  have *: "mo \<in> set mos \<Longrightarrow> list_all2 P mos es \<Longrightarrow> \<exists>e \<in> set es. P mo e" for mo mos es and P :: "'a managed_object \<Rightarrow> 'a entry \<Rightarrow> bool"
    by (metis in_set_conv_nth list_all2_conv_all_nth)
  from assms(3) have "(fst t = bp_mcp u \<and> snd t \<in> set (mc_objects (bp_mcp u)))
      \<or> (fst t = bp_workload u \<and> snd t \<in> set (mc_objects (bp_workload u)))"
    unfolding set_up_targets(1)[OF assms(1,2)] by auto
  then show thesis using *[OF _ l(1)] *[OF _ l(2)] mcp workload by blast
qed

subsection \<open>Dependencies and closures\<close>

lemma entry_dependencies:
  assumes "e \<in> set (mcp_entries x obj images crds) \<union> set (workload_entries x r obj pc images cc poll msa)"
    "a \<in> set (moc_depends_on (snd e))"
  shows "e = token_entry x server_account (mcp_cluster cc) poll (InstanceNamespace obj) msa \<and> a = msa"
  using assms by (auto simp: mcp_entries_def workload_entries_def namespace_entry_def service_account_entry_def
      crd_entry_def role_binding_entry_def deployment_entry_def token_entry_def pull_secret_entry_def)

lemma set_up_dependency:
  assumes "set_up x r obj pc images cc u m s'" "fresh_manager r" "depends_on m d mo"
  shows "dep_cluster d = bp_workload u"
    and "stands_for s' (dep_object d)
       (token_entry x server_account (mcp_cluster cc) (bp_poll u) (InstanceNamespace obj) (service_account_of u))"
    and "mo_ref mo = mo_ref (service_account_of u)"
    and "(dep_cluster d, dep_object d) \<in> set (targets m)"
proof -
  from assms(3) have t: "(dep_cluster d, dep_object d) \<in> set (targets m)" and r: "mo_ref mo \<in> set (mo_deps (dep_object d))"
    by (simp_all add: depends_on_def)
  have no_dep: False if "e \<in> set (mcp_entries x obj images crds)" "moc_depends_on (snd e) \<noteq> []" for e :: "'a entry" and crds
    using that by (auto simp: mcp_entries_def namespace_entry_def service_account_entry_def
      crd_entry_def role_binding_entry_def deployment_entry_def)
  have deps: "mo_deps (dep_object d) = map mo_ref (moc_depends_on (snd e))" if "stands_for s' (dep_object d) e" for e
    using that managed_of_simps(4) unfolding stands_for_def by metis
  have "dep_cluster d = bp_workload u \<and> stands_for s' (dep_object d)
       (token_entry x server_account (mcp_cluster cc) (bp_poll u) (InstanceNamespace obj) (service_account_of u))
     \<and> mo_ref mo = mo_ref (service_account_of u)"
  proof (cases rule: set_up_target_cases[OF assms(1,2) t])
    case (1 e)
    then have "moc_depends_on (snd e) \<noteq> []" using r deps by auto
    with 1 no_dep show ?thesis by blast
  next
    case (2 e)
    then obtain a where "a \<in> set (moc_depends_on (snd e))" "mo_ref mo = mo_ref a"
      using r deps by auto
    with 2 entry_dependencies[of e x obj images "[]" r pc cc "bp_poll u" "service_account_of u" a]
    show ?thesis by simp
  qed
  with t show "dep_cluster d = bp_workload u"
    "stands_for s' (dep_object d)
       (token_entry x server_account (mcp_cluster cc) (bp_poll u) (InstanceNamespace obj) (service_account_of u))"
    "mo_ref mo = mo_ref (service_account_of u)" "(dep_cluster d, dep_object d) \<in> set (targets m)" by blast+
qed

text \<open>All requests the reconcile closures may issue: reads, and tokens of the server account.\<close>

definition closure_requests :: "'w velero_reconciler \<Rightarrow> provider_config \<Rightarrow> cluster_context \<Rightarrow> request set" where
  "closure_requests r pc cc = token_requests (ch_id (cc_mcp cc)) server_account
     \<union> (\<Union>name \<in> set (pc_pull_secrets pc). pull_requests (ch_id (vr_platform r)) name (vr_pod_namespace r))"

lemma closure_reads_only: "reads_only (closure_requests r pc cc)"
  by (auto simp: reads_only_def closure_requests_def token_requests_def pull_requests_def)

lemma stamped_reconciler_mono:
  assumes "stamped_reconciler f R" "R \<subseteq> R'"
  shows "stamped_reconciler f R'"
proof (rule stamped_reconciler.intro[OF reconciler_mono[OF stamped_reconciler.axioms(1)[OF assms(1)] assms(2)]])
  show "stamped_reconciler_axioms f"
    using assms(1) by (rule stamped_reconciler.axioms(2))
qed

lemma entry_closures:
  assumes "sets_label x" "mutates_secret x"
    and "e \<in> set (mcp_entries x obj images crds) \<union> set (workload_entries x r obj pc images cc poll msa)"
  shows "\<exists>f. moc_reconcile (snd e) = Some f \<and> stamped_reconciler f (closure_requests r pc cc)"
proof -
  have sub: "token_requests (ch_id (cc_mcp cc)) server_account \<subseteq> closure_requests r pc cc"
    "name \<in> set (pc_pull_secrets pc) \<Longrightarrow> pull_requests (ch_id (vr_platform r)) name (vr_pod_namespace r) \<subseteq> closure_requests r pc cc" for name
    by (auto simp: closure_requests_def)
  note mono = stamped_reconciler_mono
  have "stamped_reconciler (token_reconcile x server_account (mcp_cluster cc) poll) (closure_requests r pc cc)"
    using mono[OF token_reconcile_stamped, of "mcp_cluster cc" server_account] sub(1) by (simp add: mcp_cluster_def)
  moreover have "stamped_reconciler NoOp (closure_requests r pc cc)"
    by (rule mono[OF no_op.stamped_reconciler_axioms]) simp
  moreover have "stamped_reconciler (crd_reconcile sp) (closure_requests r pc cc)" for sp
    by (rule mono[OF crd.stamped_reconciler_axioms]) simp
  moreover have "stamped_reconciler (role_binding_reconcile a) (closure_requests r pc cc)" for a
    by (rule mono[OF role_binding.stamped_reconciler_axioms]) simp
  moreover have "stamped_reconciler (mcp_deployment_reconcile x img i) (closure_requests r pc cc)" for img i
    by (rule mono[OF mcp_deployment_stamped[OF assms(1)]]) simp
  moreover have "stamped_reconciler (deployment_reconcile x ns obj ps images tf) (closure_requests r pc cc)" for ns ps tf
    by (rule mono[OF deployment_stamped[OF assms(1)]]) simp
  moreover have "name \<in> set (pc_pull_secrets pc) \<Longrightarrow>
      stamped_reconciler (pull_secret_reconcile x (vr_platform r) name tns (vr_pod_namespace r)) (closure_requests r pc cc)" for name tns
    by (rule mono[OF pull_secret_stamped[OF assms(2)]]) (rule sub(2))
  ultimately show ?thesis
    using assms(3) by (auto simp: mcp_entries_def workload_entries_def namespace_entry_def service_account_entry_def
      crd_entry_def role_binding_entry_def deployment_entry_def token_entry_def pull_secret_entry_def)
qed

lemma set_up_well_behaved:
  assumes "sets_label x" "mutates_secret x" "set_up x r obj pc images cc u m s'" "fresh_manager r"
  shows "\<forall>t \<in> set (targets m). well_behaved (closure_requests r pc cc) (snd t)"
proof
  fix t assume t: "t \<in> set (targets m)"
  have "\<exists>e. stands_for s' (snd t) e \<and> (\<exists>f. moc_reconcile (snd e) = Some f \<and> stamped_reconciler f (closure_requests r pc cc))"
    using set_up_target_cases[OF assms(3,4) t] entry_closures[OF assms(1,2)] by (metis UnCI)
  then obtain e f where "stands_for s' (snd t) e" "moc_reconcile (snd e) = Some f" "stamped_reconciler f (closure_requests r pc cc)"
    by blast
  then show "well_behaved (closure_requests r pc cc) (snd t)"
    using managed_of_simps(2) unfolding well_behaved_def stands_for_def by (metis option.simps(5))
qed

end
