(* ===== verification/Handlers.thy ===== *)
theory Handlers
  imports Inventory
begin

text \<open>
  What \<open>createObjectManager\<close> sets up and what the two handlers may request of the clusters, for
  every answer of the API servers.
\<close>

subsection \<open>Creating the manager\<close>

lemma ensureInstanceID_spec:
  assumes "ensureInstanceID x r obj s = ((obj1, e), s1)"
  shows "GetID (v_meta obj) \<noteq> [] \<Longrightarrow> obj1 = obj \<and> e = None \<and> s1 = s"
    and "\<exists>q. trace s1 = trace s @ q \<and> (q = [] \<or> (\<exists>a. q = [ReqUpdateVelero (ch_id (vr_onboarding r))
            (om_namespace (v_meta obj), om_name (v_meta obj)) a]))"
    and "store s1 = store s" "next_ref s1 = next_ref s"
proof -
  show "GetID (v_meta obj) \<noteq> [] \<Longrightarrow> obj1 = obj \<and> e = None \<and> s1 = s"
    using assms by (simp add: ensureInstanceID_def)
  obtain v a s2 where u: "k_update_velero x (vr_onboarding r) (SetID obj (GenerateID obj)) s = ((v, a), s2)"
    by (metis prod.exhaust)
  note f = k_update_velero_frame[OF u]
  show "\<exists>q. trace s1 = trace s @ q \<and> (q = [] \<or> (\<exists>a. q = [ReqUpdateVelero (ch_id (vr_onboarding r))
            (om_namespace (v_meta obj), om_name (v_meta obj)) a]))"
    "store s1 = store s" "next_ref s1 = next_ref s"
    using assms u f by (auto simp: ensureInstanceID_def split: if_splits option.splits)
qed

lemma build_manager_frame:
  assumes "build_manager x r obj pc images cc s = Some (res, s')"
  shows "trace s' = trace s" "world s' = world s"
proof -
  have "trace s' = trace s \<and> world s' = world s"
    using assms by (auto simp: build_manager_eq Let_def split: option.splits sum.splits simp del: adds.simps)
  then show "trace s' = trace s" "world s' = world s" by blast+
qed

text \<open>The log of \<open>createObjectManager\<close>: at most the update that stores the instance id.\<close>

definition id_update :: "'w velero_reconciler \<Rightarrow> velero \<Rightarrow> request list \<Rightarrow> bool" where
  "id_update r obj q = (q = [] \<or> (\<exists>a. q = [ReqUpdateVelero (ch_id (vr_onboarding r))
            (om_namespace (v_meta obj), om_name (v_meta obj)) a]))"

lemma createObjectManager_trace:
  assumes "createObjectManager x r obj pc cc s = Some ((obj1, res), s')"
  shows "\<exists>q. trace s' = trace s @ q \<and> id_update r obj q"
proof -
  obtain o2 e2 s2 where e: "ensureInstanceID x r obj s = ((o2, e2), s2)" by (metis prod.exhaust)
  from ensureInstanceID_spec(2)[OF e] obtain q where q: "trace s2 = trace s @ q" "id_update r obj q"
    unfolding id_update_def by blast
  have "s' = s \<or> trace s' = trace s2"
    using assms e by (auto simp: createObjectManager_def bind_eq_Some_conv split: option.splits dest: build_manager_frame)
  then show ?thesis using q by (auto simp: id_update_def)
qed

lemma createObjectManager_Inr:
  assumes "createObjectManager x r obj pc cc s = Some ((obj1, Inr m), s')"
  obtains images s1 where "validateRequestedVersion x (vs_version (v_spec obj)) = Some None"
    "ensureInstanceID x r obj s = ((obj1, None), s1)" "resolveImages (v_spec obj1) pc = Some images"
    "build_manager x r obj1 pc images cc s1 = Some (Inr m, s')"
  using assms by (auto simp: createObjectManager_def bind_eq_Some_conv split: option.splits prod.splits)

lemma createObjectManager_set_up:
  assumes "createObjectManager x r obj pc cc s = Some ((obj1, Inr m), s')"
  obtains images u q where "resolveImages (v_spec obj1) pc = Some images"
    "set_up x r obj1 pc images cc u m s'" "trace s' = trace s @ q" "id_update r obj q"
proof -
  from assms obtain images s1 where c: "ensureInstanceID x r obj s = ((obj1, None), s1)"
    "resolveImages (v_spec obj1) pc = Some images" "build_manager x r obj1 pc images cc s1 = Some (Inr m, s')"
    by (rule createObjectManager_Inr)
  from build_manager_set_up[OF c(3)] obtain u where "set_up x r obj1 pc images cc u m s'" by blast
  moreover from createObjectManager_trace[OF assms] obtain q where "trace s' = trace s @ q" "id_update r obj q" by blast
  ultimately show thesis using that c(2) by blast
qed

text \<open>
  C16. The inventory. A manager that \<open>createObjectManager\<close> returns handles exactly the
  documented objects, in this order: on the control plane the orphaned namespace, the service
  account, the parsed definitions (orphaned), the role binding and the stand-in deployment;
  on the workload cluster the token secret, the instance namespace, one copy per pull secret
  and the server deployment. They are pairwise different objects of the two given clusters,
  the instance id is the resource's, and the one dependency is that of the token secret on
  the service account.
\<close>

theorem manager_inventory:
  assumes "createObjectManager x r obj pc cc s = Some ((obj1, Inr m), s')" "fresh_manager r"
  shows "(\<exists>crds. Parse x = Some (Inr crds)
      \<and> map (describe s') (targets m) = inventory (InstanceNamespace obj1) (map fst crds) (pc_pull_secrets pc))
    \<and> (\<forall>t \<in> set (targets m). mc_cluster (fst t) = (if mc_type (fst t) = ManagedControlPlane then cc_mcp cc else cc_workload cc))
    \<and> distinct (map (mo_ref \<circ> snd) (targets m))
    \<and> mgr_instance_id m = GetID (v_meta obj1)
    \<and> (\<forall>t \<in> set (targets m). (\<exists>d. depends_on m d (snd t)) \<longleftrightarrow> t = targets m ! 1)
    \<and> (\<forall>t d. depends_on m d (snd t) \<longrightarrow>
         describe s' (dep_target d) = (WorkloadCluster, ''Secret'', (InstanceNamespace obj1, ''kube-api-access-velero-server''), Delete))"
proof -
  from createObjectManager_set_up[OF assms(1)] obtain images u where su: "set_up x r obj1 pc images cc u m s'" by metis
  note st = set_up_targets[OF su assms(2)] and inv = set_up_inventory[OF su assms(2)]
    and dep = set_up_dependency[OF su assms(2)]
  have cl: "mc_cluster (fst t) = (if mc_type (fst t) = ManagedControlPlane then cc_mcp cc else cc_workload cc)"
    if "t \<in> set (targets m)" for t
    using that su unfolding st(1) by (auto simp: set_up_def)
  have len: "2 \<le> length (mc_objects (bp_mcp u))" "0 < length (mc_objects (bp_workload u))"
    using su by (auto simp: set_up_def mcp_entries_def workload_entries_def dest!: list_all2_lengthD)
  have one: "targets m ! 1 = (bp_mcp u, service_account_of u)" "1 < length (targets m)"
    using len by (simp_all add: st(1) nth_append service_account_of_def)
  define tok where "tok = mc_objects (bp_workload u) ! 0"
  have tok: "stands_for s' tok (token_entry x server_account (mcp_cluster cc) (bp_poll u) (InstanceNamespace obj1) (service_account_of u))"
    using su len(2) by (auto simp: tok_def set_up_def workload_entries_def list_all2_Cons2)
  have sad: "depends_on m \<lparr>dep_object = tok, dep_cluster = bp_workload u\<rparr> (service_account_of u)"
  proof -
    have "mo_deps tok = [mo_ref (service_account_of u)]"
      using tok managed_of_simps(4) unfolding stands_for_def token_entry_def
      by (metis list.simps(8,9) managed_object_context.select_convs(2) snd_conv)
    moreover have "(bp_workload u, tok) \<in> set (targets m)" using len(2) by (auto simp: st(1) tok_def)
    ultimately show ?thesis by (simp add: depends_on_def)
  qed
  have only: "(\<exists>d. depends_on m d (snd t)) \<longleftrightarrow> t = targets m ! 1" if t: "t \<in> set (targets m)" for t
  proof
    assume "\<exists>d. depends_on m d (snd t)"
    then obtain d where "depends_on m d (snd t)" ..
    then have "mo_ref (snd t) = mo_ref (snd (targets m ! 1))" using dep(3) one by simp
    then show "t = targets m ! 1"
      using t one(2) st(4) by (metis (no_types, lifting) comp_apply distinct_map inj_on_def nth_mem)
  next
    assume "t = targets m ! 1" then show "\<exists>d. depends_on m d (snd t)" using sad one(1) by auto
  qed
  have tokd: "describe s' (dep_target d) = (WorkloadCluster, ''Secret'', (InstanceNamespace obj1, ''kube-api-access-velero-server''), Delete)"
    if "depends_on m d mo" for d mo
  proof -
    have "mc_type (bp_workload u) = WorkloadCluster" using su by (simp add: set_up_def)
    moreover have "mo_policy (dep_object d) = Delete"
      using dep(2)[OF that] managed_of_simps(5) unfolding stands_for_def token_entry_def
      by (metis deletion_policy.distinct(3) managed_object_context.select_convs(3) snd_conv)
    ultimately show ?thesis using dep(1,2)[OF that]
      by (simp add: describe_def dep_target_def stands_for_def token_entry_def kubeAPIAccess_def server_account_def)
  qed
  have "Parse x = Some (Inr (bp_crds u))" using su by (simp add: set_up_def)
  with inv cl st(2,4) only tokd show ?thesis by blast
qed

subsection \<open>The requests of a manager's pass\<close>

lemma apply_log_cases:
  assumes "list_all2 (apply_log s iid R) ts segs" "q \<in> set (concat segs)"
  shows "(\<exists>t \<in> set ts. q = fetch_of s t) \<or> q \<in> R
    \<or> (\<exists>t \<in> set ts. \<exists>o2. q = ReqPersist (ch_id (mc_cluster (fst t))) o2 \<and> carries_labels iid o2
         \<and> kind_of o2 = kind_of (GetObject (snd t) s))"
  using assms
proof (induction rule: list_all2_induct)
  case Nil
  then show ?case by simp
next
  case (Cons t ts seg segs)
  show ?case
  proof (cases "q \<in> set seg")
    case True
    with Cons(1) show ?thesis unfolding apply_log_def by auto
  next
    case False
    with Cons.prems have "q \<in> set (concat segs)" by simp
    from Cons(3)[OF this] show ?thesis by (meson list.set_intros(2))
  qed
qed

lemma Apply_requests:
  assumes "Apply x m s = Some ((rs, e), s')" "\<forall>t \<in> set (targets m). well_behaved R (snd t)"
    "distinct (map (mo_ref \<circ> snd) (targets m))" "\<forall>c \<in> set (mgr_cleaners m). orphan_cleaner c C"
  obtains new where "trace s' = trace s @ new"
    "\<forall>q \<in> set new. (\<exists>t \<in> set (targets m). q = fetch_of s t) \<or> q \<in> R \<or> q \<in> C
      \<or> (\<exists>t \<in> set (targets m). \<exists>o2. q = ReqPersist (ch_id (mc_cluster (fst t))) o2
           \<and> carries_labels (mgr_instance_id m) o2 \<and> kind_of o2 = kind_of (GetObject (snd t) s))"
proof -
  from assms(1) obtain rs1 s1 where
    r: "run_targets x (mgr_instance_id m) (getDependents m) False (targets m) s = Some (rs1, s1)"
    and c: "run_cleaners (mgr_cleaners m) rs1 s1 = ((rs, e), s')"
    by (auto simp: Apply_def reconcileObjects_targets)
  from run_apply_steps[OF r assms(2,3)] obtain segs where tr: "trace s1 = trace s @ concat segs"
    and lg: "list_all2 (apply_log s (mgr_instance_id m) R) (targets m) segs" by blast
  from run_cleaners_spec[OF c assms(4)] obtain q where "trace s' = trace s1 @ q" "set q \<subseteq> C" by blast
  with tr apply_log_cases[OF lg] show thesis
    by (intro that[of "concat segs @ q"]) (auto simp del: set_concat)
qed

text \<open>The requests of a deletion pass: lookups of the dependents and the objects' own deletions.\<close>

lemma delete_step_requests:
  assumes "delete_step s D t r seg" "a \<in> set seg"
  shows "(\<exists>d \<in> set (dependents_at D (mo_ref (snd t))). \<exists>e. a = get_item s (dep_target d) e)
      \<or> (mo_policy (snd t) \<noteq> Orphan \<and> (\<exists>e. a = delete_item s t e))"
proof -
  from assms(1) obtain gets where g: "list_all2 (lookup_of s) (dependents_at D (mo_ref (snd t))) gets"
    and sg: "seg = gets \<or> (mo_policy (snd t) \<noteq> Orphan \<and> (\<exists>e. seg = gets @ [delete_item s t e]))"
    unfolding delete_step_def by (auto split: if_splits)
  have "\<exists>d \<in> set (dependents_at D (mo_ref (snd t))). lookup_of s d a" if "a \<in> set gets"
    using g that by (induction rule: list_all2_induct) auto
  with sg assms(2) show ?thesis unfolding lookup_of_def by auto
qed

lemma run_delete_own:
  assumes "gets_own_key x" "run_targets x iid D True ts s = Some (rs, s')"
  shows "same_ids s s' \<and> (\<exists>q. trace s' = trace s @ q \<and> (\<forall>a \<in> set q. \<exists>t \<in> set ts.
      (\<exists>d \<in> set (dependents_at D (mo_ref (snd t))). \<exists>e. a = get_item s (dep_target d) e)
      \<or> (mo_policy (snd t) \<noteq> Orphan \<and> (\<exists>e. a = delete_item s t e))))"
proof -
  from run_delete_steps[OF assms] obtain segs where k: "same_ids s s'" "trace s' = trace s @ concat segs"
    "length segs = length ts" "\<forall>i < length ts. delete_step s D (ts ! i) (rs ! i) (segs ! i)" by blast
  have "\<exists>t \<in> set ts. (\<exists>d \<in> set (dependents_at D (mo_ref (snd t))). \<exists>e. a = get_item s (dep_target d) e)
      \<or> (mo_policy (snd t) \<noteq> Orphan \<and> (\<exists>e. a = delete_item s t e))" if "a \<in> set (concat segs)" for a
  proof -
    from that obtain seg where "seg \<in> set segs" "a \<in> set seg" by auto
    then obtain i where i: "i < length ts" "a \<in> set (segs ! i)" using k(3) by (metis in_set_conv_nth)
    from delete_step_requests[OF k(4)[rule_format, OF i(1)] i(2)] nth_mem[OF i(1)] show ?thesis by blast
  qed
  with k(1,2) show ?thesis by blast
qed

subsection \<open>What the handlers may request\<close>

definition cluster_id :: "cluster_context \<Rightarrow> cluster_type \<Rightarrow> string" where
  "cluster_id cc ct = ch_id (case ct of ManagedControlPlane \<Rightarrow> cc_mcp cc | WorkloadCluster \<Rightarrow> cc_workload cc)"

definition parsed_names :: "'w ext \<Rightarrow> string list" where
  "parsed_names x = (case Parse x of Some (Inr crds) \<Rightarrow> map fst crds | _ \<Rightarrow> [])"

definition managed_items :: "'w ext \<Rightarrow> provider_config \<Rightarrow> string \<Rightarrow> inventory_item set" where
  "managed_items x pc iid = set (inventory (''velero-'' @ iid) (parsed_names x) (pc_pull_secrets pc))"

lemma InstanceNamespace_eq: "InstanceNamespace obj = ''velero-'' @ GetID (v_meta obj)"
  by (simp add: InstanceNamespace_def)

lemma set_up_items:
  assumes "set_up x r obj pc images cc u m s'" "fresh_manager r" "t \<in> set (targets m)"
  shows "describe s' t \<in> managed_items x pc (GetID (v_meta obj))"
    and "ch_id (mc_cluster (fst t)) = cluster_id cc (mc_type (fst t))"
proof -
  have "describe s' t \<in> set (inventory (InstanceNamespace obj) (map fst (bp_crds u)) (pc_pull_secrets pc))"
    using set_up_inventory[OF assms(1,2)] assms(3) by (metis image_eqI list.set_map)
  moreover have "parsed_names x = map fst (bp_crds u)" using assms(1) by (simp add: set_up_def parsed_names_def)
  ultimately show "describe s' t \<in> managed_items x pc (GetID (v_meta obj))"
    by (simp add: managed_items_def InstanceNamespace_eq)
  show "ch_id (mc_cluster (fst t)) = cluster_id cc (mc_type (fst t))"
    using assms unfolding set_up_targets(1)[OF assms(1,2)] by (auto simp: set_up_def cluster_id_def)
qed

lemma set_up_cleaners:
  assumes "set_up x r obj pc images cc u m s'" "fresh_manager r"
  shows "\<forall>c \<in> set (mgr_cleaners m). orphan_cleaner c
    (cleaner_requests x (ch_id (cc_workload cc)) (''velero-'' @ GetID (v_meta obj)) (kept_secrets pc))"
  using secret_cleaner[of x "bp_workload u" "''velero-'' @ GetID (v_meta obj)" "kept_secrets pc"] set_up_targets(3)[OF assms] assms(1)
  by (simp add: set_up_def InstanceNamespace_eq)


definition apply_allowed :: "'w ext \<Rightarrow> 'w velero_reconciler \<Rightarrow> provider_config \<Rightarrow> cluster_context \<Rightarrow> string \<Rightarrow> request \<Rightarrow> bool" where
  "apply_allowed x r pc cc iid q = (case q of
     ReqUpdateVelero c key e \<Rightarrow> c = ch_id (vr_onboarding r)
   | ReqFetch c k key \<Rightarrow> (\<exists>ct p. (ct, k, key, p) \<in> managed_items x pc iid \<and> c = cluster_id cc ct)
   | ReqPersist c o' \<Rightarrow> carries_labels iid o'
       \<and> (\<exists>ct key p. (ct, kind_of o', key, p) \<in> managed_items x pc iid \<and> c = cluster_id cc ct)
   | ReqGet c k key e \<Rightarrow>
       (c = ch_id (cc_mcp cc) \<and> k = ''ServiceAccount'' \<and> key = (''velero'', ''velero-server''))
       \<or> (c = ch_id (vr_platform r) \<and> k = ''Secret'' \<and> fst key = vr_pod_namespace r \<and> snd key \<in> set (pc_pull_secrets pc))
   | ReqCreateToken c key secs e \<Rightarrow> c = ch_id (cc_mcp cc) \<and> secs = 3600
   | ReqListSecrets c ns e \<Rightarrow> c = ch_id (cc_workload cc) \<and> ns = ''velero-'' @ iid
   | ReqDelete c k key e \<Rightarrow> c = ch_id (cc_workload cc) \<and> k = ''Secret'' \<and> snd key \<notin> set (kept_secrets pc)
         \<and> (lists_matching x \<longrightarrow> fst key = ''velero-'' @ iid))"

definition delete_allowed :: "'w ext \<Rightarrow> 'w velero_reconciler \<Rightarrow> provider_config \<Rightarrow> cluster_context \<Rightarrow> string \<Rightarrow> request \<Rightarrow> bool" where
  "delete_allowed x r pc cc iid q = (case q of
     ReqUpdateVelero c key e \<Rightarrow> c = ch_id (vr_onboarding r)
   | ReqGet c k key e \<Rightarrow> c = ch_id (cc_workload cc) \<and> k = ''Secret''
       \<and> key = (''velero-'' @ iid, ''kube-api-access-velero-server'')
   | ReqDelete c k key e \<Rightarrow> (\<exists>ct. (ct, k, key, Delete) \<in> managed_items x pc iid \<and> c = cluster_id cc ct)
       \<or> (c = ch_id (cc_workload cc) \<and> k = ''Secret'' \<and> snd key \<notin> set (kept_secrets pc)
         \<and> (lists_matching x \<longrightarrow> fst key = ''velero-'' @ iid))
   | ReqListSecrets c ns e \<Rightarrow> c = ch_id (cc_workload cc) \<and> ns = ''velero-'' @ iid
   | _ \<Rightarrow> False)"

lemma id_update_allowed:
  assumes "id_update r obj q" "a \<in> set q"
  shows "apply_allowed x r pc cc iid a" "delete_allowed x r pc cc iid a"
  using assms by (auto simp: id_update_def apply_allowed_def delete_allowed_def)

lemma cleaner_allowed:
  assumes "a \<in> cleaner_requests x (ch_id (cc_workload cc)) (''velero-'' @ iid) (kept_secrets pc)"
  shows "apply_allowed x r pc cc iid a" "delete_allowed x r pc cc iid a"
  using assms by (auto simp: cleaner_requests_def apply_allowed_def delete_allowed_def)

lemma closure_allowed: "a \<in> closure_requests r pc cc \<Longrightarrow> apply_allowed x r pc cc iid a"
  by (auto simp: closure_requests_def token_requests_def pull_requests_def apply_allowed_def server_account_def)

text \<open>The handlers run one pass of the manager they create, or none.\<close>

lemma CreateOrUpdate_runs:
  assumes "reconciler_CreateOrUpdate x r obj pc cc s = Some ((obj', res, e), s')"
  obtains (not_created) obj1 err where "createObjectManager x r obj pc cc s = Some ((obj1, Inl err), s')"
      "obj' = x_status_progressing x obj1 ''ReconcileError'' (error_text err)" "res = no_requeue"
      "e = x_ignore_invalid_input x err"
  | (applied) obj1 m s1 rs ae mrs bad where "createObjectManager x r obj pc cc s = Some ((obj1, Inr m), s1)"
      "Apply x m s1 = Some ((rs, ae), s')" "resultsToResources rs s' = Some (mrs, bad)"
      "((obj', res, e), s') = (if bad \<or> ae \<noteq> None then
          ((x_status_progressing x (set_resources obj1 mrs) ''ReconcileError'' (error_text (resources_error ae)),
            no_requeue, Some (resources_error ae)), s')
        else if allResourcesReady mrs then ((x_status_ready x (set_resources obj1 mrs), no_requeue, None), s')
        else ((x_status_progressing x (set_resources obj1 mrs) ''Reconciling'' ''Reconcile in progress'', requeue_10s, None), s'))"
proof -
  from assms obtain obj1 created s1 where c: "createObjectManager x r obj pc cc s = Some ((obj1, created), s1)"
    by (auto simp: reconciler_CreateOrUpdate_def)
  show thesis
  proof (cases created)
    case (Inl err)
    with assms c show thesis by (intro not_created[of obj1 err]) (simp_all add: reconciler_CreateOrUpdate_def)
  next
    case (Inr m)
    with assms c obtain rs ae s2 mrs bad where a: "Apply x m s1 = Some ((rs, ae), s2)"
      "resultsToResources rs s2 = Some (mrs, bad)"
      by (auto simp: reconciler_CreateOrUpdate_def)
    with assms c Inr show thesis
      by (intro applied[of obj1 m s1 rs ae mrs bad]) (auto simp: reconciler_CreateOrUpdate_def Let_def split: if_splits)
  qed
qed

lemma Delete_runs:
  assumes "reconciler_Delete x r obj pc cc s = Some ((obj', res, e), s')"
  obtains (not_created) obj1 err where "createObjectManager x r obj pc cc s = Some ((obj1, Inl err), s')"
      "obj' = x_status_terminating_reason x obj1 ''ReconcileError'' (error_text err)" "res = no_requeue"
      "e = x_ignore_invalid_input x err"
  | (deleted) obj1 m s1 rs ae mrs bad where "createObjectManager x r obj pc cc s = Some ((obj1, Inr m), s1)"
      "DeleteAll x m s1 = Some ((rs, ae), s')" "resultsToResources rs s' = Some (mrs, bad)"
      "((obj', res, e), s') = (if bad \<or> ae \<noteq> None then
          ((x_status_terminating_reason x (set_resources obj1 mrs) ''ReconcileError'' (error_text (resources_error ae)),
            no_requeue, Some (resources_error ae)), s')
        else if AllDeleted rs then ((set_resources obj1 mrs, no_requeue, None), s')
        else ((x_status_terminating x (set_resources obj1 mrs), requeue_10s, None), s'))"
proof -
  from assms obtain obj1 created s1 where c: "createObjectManager x r obj pc cc s = Some ((obj1, created), s1)"
    by (auto simp: reconciler_Delete_def)
  show thesis
  proof (cases created)
    case (Inl err)
    with assms c show thesis by (intro not_created[of obj1 err]) (simp_all add: reconciler_Delete_def)
  next
    case (Inr m)
    with assms c obtain rs ae s2 mrs bad where a: "DeleteAll x m s1 = Some ((rs, ae), s2)"
      "resultsToResources rs s2 = Some (mrs, bad)"
      by (auto simp: reconciler_Delete_def)
    with assms c Inr show thesis
      by (intro deleted[of obj1 m s1 rs ae mrs bad]) (auto simp: reconciler_Delete_def Let_def split: if_splits)
  qed
qed

lemma createObjectManager_iid:
  assumes "createObjectManager x r obj pc cc s = Some ((obj1, res), s')" "GetID (v_meta obj) \<noteq> []"
  shows "obj1 = obj"
  using assms by (auto simp: createObjectManager_def ensureInstanceID_def bind_eq_Some_conv split: option.splits)

lemma item_allowed:
  assumes "(ct, k, key, p) \<in> managed_items x pc iid" "c = cluster_id cc ct"
  shows "apply_allowed x r pc cc iid (ReqFetch c k key)"
    and "carries_labels iid o' \<Longrightarrow> kind_of o' = k \<Longrightarrow> apply_allowed x r pc cc iid (ReqPersist c o')"
    and "p = Delete \<Longrightarrow> delete_allowed x r pc cc iid (ReqDelete c k key e)"
  using assms unfolding apply_allowed_def delete_allowed_def request.case by blast+

lemma Apply_allowed:
  assumes su: "set_up x r obj1 pc images cc u m s1" and fr: "fresh_manager r"
    and ex: "sets_label x" "mutates_secret x" and run: "Apply x m s1 = Some ((rs, ae), s')"
  obtains new where "trace s' = trace s1 @ new" "\<forall>q \<in> set new. apply_allowed x r pc cc (GetID (v_meta obj1)) q"
proof -
  define iid where "iid = GetID (v_meta obj1)"
  note st = set_up_targets[OF su fr]
  have mi: "mgr_instance_id m = iid" using st(2) by (simp add: iid_def)
  from Apply_requests[OF run set_up_well_behaved[OF ex su fr] st(4) set_up_cleaners[OF su fr]]
  obtain new where new: "trace s' = trace s1 @ new"
    "\<forall>q \<in> set new. (\<exists>t \<in> set (targets m). q = fetch_of s1 t) \<or> q \<in> closure_requests r pc cc
      \<or> q \<in> cleaner_requests x (ch_id (cc_workload cc)) (''velero-'' @ GetID (v_meta obj1)) (kept_secrets pc)
      \<or> (\<exists>t \<in> set (targets m). \<exists>o2. q = ReqPersist (ch_id (mc_cluster (fst t))) o2
           \<and> carries_labels (mgr_instance_id m) o2 \<and> kind_of o2 = kind_of (GetObject (snd t) s1))" by metis
  have fetch: "apply_allowed x r pc cc iid (fetch_of s1 t)"
    and persist: "carries_labels iid o2 \<Longrightarrow> kind_of o2 = kind_of (GetObject (snd t) s1) \<Longrightarrow>
        apply_allowed x r pc cc iid (ReqPersist (ch_id (mc_cluster (fst t))) o2)"
    if t: "t \<in> set (targets m)" for t o2
    using item_allowed(1,2)[OF set_up_items(1)[OF su fr t, unfolded describe_def] set_up_items(2)[OF su fr t]]
    unfolding iid_def fetch_of_def split_beta by blast+
  have "apply_allowed x r pc cc iid q" if "q \<in> set new" for q
    using new(2)[rule_format, OF that] fetch persist closure_allowed cleaner_allowed(1) unfolding mi iid_def[symmetric]
    by blast
  with new(1) show thesis using that iid_def by blast
qed

lemma DeleteAll_allowed:
  fixes x :: "'w ext"
  assumes su: "set_up x r obj1 pc images cc u m s1" and fr: "fresh_manager r"
    and ex: "gets_own_key x" and run: "DeleteAll x m s1 = Some ((rs, ae), s')"
  obtains new where "trace s' = trace s1 @ new" "\<forall>q \<in> set new. delete_allowed x r pc cc (GetID (v_meta obj1)) q"
proof -
  define iid where "iid = GetID (v_meta obj1)"
  from run obtain rs1 s2 where
    r: "run_targets x (mgr_instance_id m) (getDependents m) True (targets m) s1 = Some (rs1, s2)"
    and c: "run_cleaners (mgr_cleaners m) rs1 s2 = ((rs, ae), s')"
    by (auto simp: DeleteAll_def reconcileObjects_targets)
  from run_delete_own[OF ex r] obtain q1 where q1: "trace s2 = trace s1 @ q1" "\<forall>a \<in> set q1. \<exists>t \<in> set (targets m).
      (\<exists>d \<in> set (dependents_at (getDependents m) (mo_ref (snd t))). \<exists>e. a = get_item s1 (dep_target d) e)
      \<or> (mo_policy (snd t) \<noteq> Orphan \<and> (\<exists>e. a = delete_item s1 t e))" by blast
  from run_cleaners_spec[OF c set_up_cleaners[OF su fr]] obtain q2 where q2: "trace s' = trace s2 @ q2"
    "set q2 \<subseteq> cleaner_requests x (ch_id (cc_workload cc)) (''velero-'' @ GetID (v_meta obj1)) (kept_secrets pc)" by blast
  have get: "delete_allowed x r pc cc iid (get_item s1 (dep_target d) e)"
    if "d \<in> set (dependents_at (getDependents m) (mo_ref mo))" for d and mo :: "'w managed_object" and e
  proof -
    from that have d: "depends_on m d mo" by (simp add: dependents_set)
    note dp = set_up_dependency[OF su fr d]
    have "ch_id (mc_cluster (dep_cluster d)) = ch_id (cc_workload cc)" using dp(1) su by (simp add: set_up_def)
    then show ?thesis using dp(2)
      by (simp add: delete_allowed_def get_item_def item_of_def dep_target_def stands_for_def token_entry_def
          kubeAPIAccess_def server_account_def InstanceNamespace_eq iid_def)
  qed
  have del: "delete_allowed x r pc cc iid (delete_item s1 t e)"
    if "t \<in> set (targets m)" "mo_policy (snd t) \<noteq> Orphan" for t e
  proof -
    note it = set_up_items[OF su fr that(1)]
    have "mo_policy (snd t) \<noteq> NoPolicy"
      using set_up_target_cases[OF su fr that(1)] managed_of_simps(5) unfolding stands_for_def
      by (metis deletion_policy.distinct(3))
    with that(2) have "mo_policy (snd t) = Delete" by (cases "mo_policy (snd t)") auto
    with item_allowed(3)[OF it(1)[unfolded describe_def] it(2)] show ?thesis
      unfolding delete_item_def item_of_def iid_def prod.case by blast
  qed
  have "delete_allowed x r pc cc iid a" if "a \<in> set (q1 @ q2)" for a
  proof (cases "a \<in> set q1")
    case True
    with q1(2) obtain t where t: "t \<in> set (targets m)" and
      "(\<exists>d \<in> set (dependents_at (getDependents m) (mo_ref (snd t))). \<exists>e. a = get_item s1 (dep_target d) e)
        \<or> (mo_policy (snd t) \<noteq> Orphan \<and> (\<exists>e. a = delete_item s1 t e))" by meson
    then show ?thesis using get del[OF t] by metis
  next
    case False
    then have "a \<in> set q2" using that by simp
    then have "a \<in> cleaner_requests x (ch_id (cc_workload cc)) (''velero-'' @ iid) (kept_secrets pc)"
      using q2(2) unfolding iid_def by (rule subsetD[rotated])
    then show ?thesis by (rule cleaner_allowed(2))
  qed
  with q1(1) q2(1) show thesis using that[of "q1 @ q2"] iid_def by simp
qed

lemma mcp_deletable:
  assumes "(ManagedControlPlane, k, key, Delete) \<in> managed_items x pc iid"
  shows "(k, key) \<in> {(''ServiceAccount'', (''velero'', ''velero-server'')), (''ClusterRoleBinding'', ([], ''velero-server'')),
                     (''Deployment'', (''velero'', ''velero''))}"
  using assms by (cases key) (simp add: managed_items_def inventory_def image_iff)

lemma mcp_deletion_allowed:
  assumes "delete_allowed x r pc cc iid (ReqDelete (ch_id (cc_mcp cc)) k key a)" "ch_id (cc_mcp cc) \<noteq> ch_id (cc_workload cc)"
  shows "(k, key) \<in> {(''ServiceAccount'', (''velero'', ''velero-server'')), (''ClusterRoleBinding'', ([], ''velero-server'')),
                     (''Deployment'', (''velero'', ''velero''))}"
proof -
  from assms obtain ct where ct: "(ct, k, key, Delete) \<in> managed_items x pc iid" "ch_id (cc_mcp cc) = cluster_id cc ct"
    unfolding delete_allowed_def request.case by meson
  have "ct = WorkloadCluster \<Longrightarrow> cluster_id cc ct = ch_id (cc_workload cc)" by (simp add: cluster_id_def)
  with ct(2) assms(2) have "ct = ManagedControlPlane" by (metis cluster_type.exhaust)
  with ct(1) show ?thesis using mcp_deletable[of k key x pc iid] by (simp only:)
qed

text \<open>The id a handler works with, if it gets to work at all.\<close>

lemma handler_id:
  obtains iid where "\<And>obj1 m s1. createObjectManager x r obj pc cc s = Some ((obj1, Inr m), s1) \<Longrightarrow> GetID (v_meta obj1) = iid"
    "GetID (v_meta obj) \<noteq> [] \<longrightarrow> iid = GetID (v_meta obj)"
proof (cases "\<exists>obj1 m s1. createObjectManager x r obj pc cc s = Some ((obj1, Inr m), s1)")
  case True
  then obtain obj1 m s1 where c: "createObjectManager x r obj pc cc s = Some ((obj1, Inr m), s1)" by blast
  show thesis by (rule that[of "GetID (v_meta obj1)"]) (use c createObjectManager_iid[OF c] in auto)
next
  case False
  then show thesis using that[of "GetID (v_meta obj)"] by blast
qed

lemma update_log_at:
  assumes "reconciler_CreateOrUpdate x r obj pc cc s = Some ((obj', res, e), s')"
    and "fresh_manager r" "sets_label x" "mutates_secret x"
    and iid: "\<And>obj1 m s1. createObjectManager x r obj pc cc s = Some ((obj1, Inr m), s1) \<Longrightarrow> GetID (v_meta obj1) = iid"
  shows "\<exists>new. trace s' = trace s @ new \<and> (\<forall>q \<in> set new. apply_allowed x r pc cc iid q)"
  using assms(1)
proof (cases rule: CreateOrUpdate_runs)
  case (not_created obj1 err)
  from createObjectManager_trace[OF not_created(1)] obtain q where q: "trace s' = trace s @ q" "id_update r obj q" by blast
  have "\<forall>a \<in> set q. apply_allowed x r pc cc iid a" using id_update_allowed(1)[OF q(2)] by blast
  with q(1) show ?thesis by blast
next
  case (applied obj1 m s1 rs ae mrs bad)
  from createObjectManager_set_up[OF applied(1)] obtain images u q where
    su: "set_up x r obj1 pc images cc u m s1" and q: "trace s1 = trace s @ q" "id_update r obj q" by metis
  from Apply_allowed[OF su assms(2,3,4) applied(2), unfolded iid[OF applied(1)]] obtain new where
    "trace s' = trace s1 @ new" "\<forall>q \<in> set new. apply_allowed x r pc cc iid q" by blast
  with q(1) id_update_allowed(1)[OF q(2)] have "trace s' = trace s @ (q @ new)"
    "\<forall>a \<in> set (q @ new). apply_allowed x r pc cc iid a" by (simp, metis UnE set_append)
  then show ?thesis by blast
qed

lemma deletion_log_at:
  assumes "reconciler_Delete x r obj pc cc s = Some ((obj', res, e), s')"
    and "fresh_manager r" "gets_own_key x"
    and iid: "\<And>obj1 m s1. createObjectManager x r obj pc cc s = Some ((obj1, Inr m), s1) \<Longrightarrow> GetID (v_meta obj1) = iid"
  shows "\<exists>new. trace s' = trace s @ new \<and> (\<forall>q \<in> set new. delete_allowed x r pc cc iid q)"
  using assms(1)
proof (cases rule: Delete_runs)
  case (not_created obj1 err)
  from createObjectManager_trace[OF not_created(1)] obtain q where q: "trace s' = trace s @ q" "id_update r obj q" by blast
  have "\<forall>a \<in> set q. delete_allowed x r pc cc iid a" using id_update_allowed(2)[OF q(2)] by blast
  with q(1) show ?thesis by blast
next
  case (deleted obj1 m s1 rs ae mrs bad)
  from createObjectManager_set_up[OF deleted(1)] obtain images u q where
    su: "set_up x r obj1 pc images cc u m s1" and q: "trace s1 = trace s @ q" "id_update r obj q" by metis
  from DeleteAll_allowed[OF su assms(2,3) deleted(2), unfolded iid[OF deleted(1)]] obtain new where
    "trace s' = trace s1 @ new" "\<forall>q \<in> set new. delete_allowed x r pc cc iid q" by blast
  with q(1) id_update_allowed(2)[OF q(2)] have "trace s' = trace s @ (q @ new)"
    "\<forall>a \<in> set (q @ new). delete_allowed x r pc cc iid a" by (simp, metis UnE set_append)
  then show ?thesis by blast
qed

lemma update_log:
  assumes "reconciler_CreateOrUpdate x r obj pc cc s = Some ((obj', res, e), s')"
    and "fresh_manager r" "sets_label x" "mutates_secret x"
  shows "\<exists>new iid. trace s' = trace s @ new \<and> (GetID (v_meta obj) \<noteq> [] \<longrightarrow> iid = GetID (v_meta obj))
    \<and> (\<forall>q \<in> set new. apply_allowed x r pc cc iid q)"
proof -
  obtain iid where "\<And>obj1 m s1. createObjectManager x r obj pc cc s = Some ((obj1, Inr m), s1) \<Longrightarrow> GetID (v_meta obj1) = iid"
    "GetID (v_meta obj) \<noteq> [] \<longrightarrow> iid = GetID (v_meta obj)" by (rule handler_id[where x = x and r = r and obj = obj and pc = pc and cc = cc and s = s]) blast
  with update_log_at[OF assms] show ?thesis by metis
qed

lemma deletion_log:
  assumes "reconciler_Delete x r obj pc cc s = Some ((obj', res, e), s')"
    and "fresh_manager r" "gets_own_key x"
  shows "\<exists>new iid. trace s' = trace s @ new \<and> (GetID (v_meta obj) \<noteq> [] \<longrightarrow> iid = GetID (v_meta obj))
    \<and> (\<forall>q \<in> set new. delete_allowed x r pc cc iid q)"
proof -
  obtain iid where "\<And>obj1 m s1. createObjectManager x r obj pc cc s = Some ((obj1, Inr m), s1) \<Longrightarrow> GetID (v_meta obj1) = iid"
    "GetID (v_meta obj) \<noteq> [] \<longrightarrow> iid = GetID (v_meta obj)" by (rule handler_id[where x = x and r = r and obj = obj and pc = pc and cc = cc and s = s]) blast
  with deletion_log_at[OF assms] show ?thesis by metis
qed

text \<open>
  C4. What a deletion may do. With a server whose lookups answer for the key they were asked
  for, a deletion of a Velero resource issues only: storing the instance id; looking up the
  token secret; deleting the inventory's objects that are not orphaned, in their own cluster
  and under their own key; and the cleaner's listing and its deletions of unwanted secrets.
  Hence, the two clusters being different, it never deletes a namespace or a custom
  resource definition of the control plane, so end user data survives.
\<close>

theorem deletion_requests:
  assumes "reconciler_Delete x r obj pc cc s = Some ((obj', res, e), s')"
    and "fresh_manager r" "gets_own_key x"
  shows "\<exists>new iid. trace s' = trace s @ new \<and> (GetID (v_meta obj) \<noteq> [] \<longrightarrow> iid = GetID (v_meta obj))
    \<and> (\<forall>q \<in> set new. delete_allowed x r pc cc iid q)
    \<and> (ch_id (cc_mcp cc) \<noteq> ch_id (cc_workload cc) \<longrightarrow>
        (\<forall>k key a. ReqDelete (ch_id (cc_mcp cc)) k key a \<in> set new \<longrightarrow>
           (k, key) \<in> {(''ServiceAccount'', (''velero'', ''velero-server'')), (''ClusterRoleBinding'', ([], ''velero-server'')),
                     (''Deployment'', (''velero'', ''velero''))}))"
proof -
  obtain new iid where new: "trace s' = trace s @ new" "GetID (v_meta obj) \<noteq> [] \<longrightarrow> iid = GetID (v_meta obj)"
    "\<forall>q \<in> set new. delete_allowed x r pc cc iid q" using deletion_log[OF assms] by metis
  show ?thesis
  proof (intro exI[of _ new] exI[of _ iid] conjI impI allI)
    fix k key a
    assume "ch_id (cc_mcp cc) \<noteq> ch_id (cc_workload cc)" "ReqDelete (ch_id (cc_mcp cc)) k key a \<in> set new"
    with new(3) mcp_deletion_allowed show "(k, key) \<in> {(''ServiceAccount'', (''velero'', ''velero-server'')),
        (''ClusterRoleBinding'', ([], ''velero-server'')), (''Deployment'', (''velero'', ''velero''))}" by metis
  qed (use new in simp_all)
qed

end
