(* ===== verification/Reference_Server.thy ===== *)
theory Reference_Server
  imports Handlers
begin

text \<open>
  A concrete environment in which the hypotheses of the properties hold: API servers that keep
  a list of objects per cluster, whose deletions take effect at once, which demand that the
  namespace of a namespaced object exists, set a uid and start pods at once; a clock; a decoder with
  one definition; and the version, label and status helpers. It instantiates the record \<open>ext\<close>
  for the witnesses only: no property speaks of it.
\<close>

subsection \<open>The world\<close>

record ref_world =
  rw_objects :: "(string \<times> client_object) list"
  rw_clock :: int

definition is_item :: "item \<Rightarrow> string \<times> client_object \<Rightarrow> bool" where
  "is_item i e = (i = (fst e, kind_of (snd e), object_key (snd e)))"

definition ref_lookup :: "item \<Rightarrow> ref_world \<Rightarrow> client_object option" where
  "ref_lookup i w = map_option snd (find (is_item i) (rw_objects w))"

definition ref_live :: "ref_world \<Rightarrow> item set" where
  "ref_live w = (\<lambda>e. (fst e, kind_of (snd e), object_key (snd e))) ` set (rw_objects w)"

definition ref_remove :: "item \<Rightarrow> ref_world \<Rightarrow> ref_world" where
  "ref_remove i w = w\<lparr>rw_objects := [e \<leftarrow> rw_objects w. \<not> is_item i e]\<rparr>"

definition ref_not_found :: error where
  "ref_not_found = ApiError True ''not found''"

definition ref_invalid :: error where
  "ref_invalid = ErrorVar ''ErrInvalidUserInput'' ''invalid user input''"

definition ref_put :: "string \<Rightarrow> client_object \<Rightarrow> ref_world \<Rightarrow> ref_world" where
  "ref_put c o' w = (ref_remove (c, kind_of o', object_key o') w)\<lparr>rw_objects :=
     rw_objects (ref_remove (c, kind_of o', object_key o') w) @ [(c, o')]\<rparr>"

text \<open>What a write leaves: a uid, no deletion, and the pods of a deployment up.\<close>

definition ref_settle :: "client_object \<Rightarrow> client_object" where
  "ref_settle o' = o'\<lparr>meta := (meta o')\<lparr>om_uid := ''uid'', om_deletion := None\<rparr>,
     body := (case body o' of
        Deployment d rdy \<Rightarrow> Deployment d (case ds_replicas d of None \<Rightarrow> 1 | Some n \<Rightarrow> n)
      | b \<Rightarrow> b)\<rparr>"

definition ref_status :: "string \<Rightarrow> velero \<Rightarrow> velero" where
  "ref_status p v = v\<lparr>v_status := (v_status v)\<lparr>st_phase := p\<rparr>\<rparr>"

definition ref_versions :: "(string \<times> semver) list" where
  "ref_versions = [(''v1.17.2'', \<lparr>sv_major = 1, sv_minor = 17, sv_patch = 2, sv_pre = []\<rparr>),
                   (''v1.5.0'', \<lparr>sv_major = 1, sv_minor = 5, sv_patch = 0, sv_pre = []\<rparr>)]"

definition ref_ext :: "ref_world ext" where
  "ref_ext = \<lparr>
     x_get = (\<lambda>c k o' w. case ref_lookup (c, kind_of o', k) w of
        None \<Rightarrow> (o', Some ref_not_found, w) | Some o2 \<Rightarrow> (o2, None, w)),
     x_delete = (\<lambda>c o' w. case ref_lookup (c, kind_of o', object_key o') w of
        None \<Rightarrow> (Some ref_not_found, w) | Some o2 \<Rightarrow> (None, ref_remove (c, kind_of o', object_key o') w)),
     x_list_secrets = (\<lambda>c ns ls w. (map snd [e \<leftarrow> rw_objects w. fst e = c \<and> kind_of (snd e) = ''Secret''
        \<and> get_namespace (snd e) = ns \<and> list_all (\<lambda>(k, v). map_get (get_labels (snd e)) k = v) ls], None, w)),
     x_update_velero = (\<lambda>c v w. (v, None, w)),
     x_create_token = (\<lambda>c sa secs w. ((''token'', \<lparr>t_ns = rw_clock w + secs * second, t_zone = 0\<rparr>), None, w)),
     x_cou_begin = (\<lambda>c o' w. case ref_lookup (c, kind_of o', object_key o') w of
        None \<Rightarrow> (o', None, w) | Some o2 \<Rightarrow> (o2, None, w)),
     x_cou_finish = (\<lambda>c o1 o2 e w.
        if e \<noteq> None then (o2, OpNone, e, w)
        else if get_namespace o2 \<noteq> [] \<and> ref_lookup (c, ''Namespace'', ([], get_namespace o2)) w = None
        then (o2, OpNone, Some ref_not_found, w)
        else (let o3 = ref_settle o2;
                  r = (if ref_lookup (c, kind_of o2, object_key o2) w = None then OpCreated else OpUpdated)
              in (o3, r, None, ref_put c o3 w))),
     x_read_file = (\<lambda>f w. (''file'', None, w)),
     x_now = (\<lambda>w. (\<lparr>t_ns = rw_clock w, t_zone = 0\<rparr>, w)),
     x_mutate_secret = (\<lambda>name ns data ty o'. (o'\<lparr>body := Secret data ty\<rparr>, None)),
     x_set_label = (\<lambda>m k v. m\<lparr>om_labels := Some ((case om_labels m of None \<Rightarrow> Map.empty | Some f \<Rightarrow> f)(k \<mapsto> v))\<rparr>),
     x_decode = (\<lambda>n. if n = 0 then DecodeCrd ''backups.velero.io'' (CrdSpec ''backups'') else DecodeEOF),
     x_parse_tolerant = map_of ref_versions,
     x_parse_range = (\<lambda>r. Some (\<lambda>v. sv_major v = 1 \<and> 16 \<le> sv_minor v \<and> sv_minor v < 19)),
     x_status_progressing = (\<lambda>v a b. ref_status ''Progressing'' v),
     x_status_ready = ref_status ''Ready'',
     x_status_terminating = ref_status ''Terminating'',
     x_status_terminating_reason = (\<lambda>v a b. ref_status ''Terminating'' v),
     x_ignore_invalid_input = (\<lambda>e. if errors_is e ref_invalid then None else Some e),
     x_err_invalid_input = ref_invalid\<rparr>"

subsection \<open>It behaves as documented\<close>

lemma ref_lookup_Some:
  "ref_lookup i w = Some o' \<Longrightarrow> i \<in> ref_live w \<and> (fst i, kind_of o', object_key o') = i"
proof -
  assume "ref_lookup i w = Some o'"
  then obtain e where e: "find (is_item i) (rw_objects w) = Some e" "o' = snd e"
    by (auto simp: ref_lookup_def)
  then have "e \<in> set (rw_objects w)" "is_item i e" by (metis find_Some_iff nth_mem, metis find_Some_iff)
  then show ?thesis using e(2) by (auto simp: ref_live_def is_item_def)
qed

lemma ref_lookup_None: "ref_lookup i w = None \<longleftrightarrow> i \<notin> ref_live w"
  by (auto simp: ref_lookup_def find_None_iff ref_live_def is_item_def image_iff)

lemma ref_live_remove: "ref_live (ref_remove i w) = ref_live w - {i}"
  by (auto simp: ref_live_def ref_remove_def is_item_def image_iff)

lemma ref_settle_simps [simp]:
  "kind_of (ref_settle o') = kind_of o'" "object_key (ref_settle o') = object_key o'"
  "om_uid (meta (ref_settle o')) = ''uid''" "om_deletion (meta (ref_settle o')) = None"
  by (simp_all add: ref_settle_def kind_of_def object_key_def get_name_def get_namespace_def split: payload.split)

lemma ref_live_put: "ref_live (ref_put c o' w) = insert (c, kind_of o', object_key o') (ref_live w)"
  by (auto simp: ref_put_def ref_live_def ref_remove_def is_item_def image_iff)

lemma ref_sets_label: "sets_label ref_ext"
  by (simp add: sets_label_def ref_ext_def)

lemma ref_mutates_secret: "mutates_secret ref_ext"
  by (auto simp: mutates_secret_def ref_ext_def)

lemma ref_lists_matching: "lists_matching ref_ext"
  by (auto simp: lists_matching_def ref_ext_def list_all_iff)

lemma ref_get:
  "x_get ref_ext c (object_key o') o' w = (o2, e, w') \<Longrightarrow>
     w' = w \<and> object_key (fill o' o2) = object_key o'
     \<and> (is_not_found e \<longleftrightarrow> (c, kind_of o', object_key o') \<notin> ref_live w)"
  by (auto simp: ref_ext_def ref_not_found_def fill_def ref_lookup_None[symmetric] split: option.splits
      dest: ref_lookup_Some)

lemma ref_gets_own_key: "gets_own_key ref_ext"
  unfolding gets_own_key_def using ref_get by blast

lemma ref_deletes_at_once: "deletes_at_once ref_ext ref_live"
proof -
  have "x_delete ref_ext c o' w = (e, w') \<Longrightarrow> ref_live w' = ref_live w - {(c, kind_of o', object_key o')}
      \<and> (is_not_found e \<longleftrightarrow> (c, kind_of o', object_key o') \<notin> ref_live w)" for c o' w e w'
    by (auto simp: ref_ext_def ref_not_found_def ref_live_remove ref_lookup_None split: option.splits
        dest: ref_lookup_Some)
  then show ?thesis
    unfolding deletes_at_once_def by (intro conjI allI) (clarsimp, metis ref_get, clarsimp)
qed

subsection \<open>Sample inputs\<close>

definition ref_mcp :: cluster_handle where
  "ref_mcp = \<lparr>ch_id = ''mcp'', ch_rest = Some \<lparr>rc_host = ''https://mcp.example:6443'', rc_ca_data = ''ca'', rc_ca_file = []\<rparr>\<rparr>"

definition ref_workload :: cluster_handle where
  "ref_workload = \<lparr>ch_id = ''workload'', ch_rest = Some \<lparr>rc_host = ''https://workload.example'', rc_ca_data = ''ca'', rc_ca_file = []\<rparr>\<rparr>"

definition ref_clusters :: cluster_context where
  "ref_clusters = \<lparr>cc_mcp = ref_mcp, cc_workload = ref_workload\<rparr>"

definition ref_reconciler :: "ref_world velero_reconciler" where
  "ref_reconciler = \<lparr>vr_onboarding = \<lparr>ch_id = ''onboarding'', ch_rest = None\<rparr>,
     vr_platform = \<lparr>ch_id = ''platform'', ch_rest = None\<rparr>, vr_pod_namespace = ''openmcp-system'',
     vr_create_manager = (\<lambda>obj. NewManager (GetID (v_meta obj)))\<rparr>"

definition ref_config :: provider_config where
  "ref_config = \<lparr>pc_poll_interval = Some minute, pc_pull_secrets = [],
     pc_images = [\<lparr>ai_name = ''velero'', ai_versions = [''v1.5.0'', ''v1.17.2''], ai_image = ''img''\<rparr>,
                  \<lparr>ai_name = ''aws'', ai_versions = [''v2''], ai_image = ''aws''\<rparr>]\<rparr>"

definition ref_velero :: velero where
  "ref_velero = SetID (sample_velero ''team'' ''backup'') ''abc''"

definition ref_start :: "ref_world st" where
  "ref_start = \<lparr>world = \<lparr>rw_objects = [], rw_clock = 0\<rparr>, store = (\<lambda>r. new_object [] [] Namespace),
     next_ref = 0, trace = []\<rparr>"

lemma ref_fresh_manager: "fresh_manager ref_reconciler"
  by (simp add: fresh_manager_def ref_reconciler_def)

end
