(* ===== verification/Handler_Runs.thy ===== *)
theory Handler_Runs
  imports Handlers
begin

text \<open>
  The handlers return: on a configured environment no step of \<open>createObjectManager\<close>, of the
  manager's passes or of the status report panics or diverges. Then what their results mean:
  when a deletion is done, that it gets done, and what an update reports.
\<close>

subsection \<open>No panic in a pass\<close>

definition total_for :: "'w st \<Rightarrow> 'w managed_object \<Rightarrow> bool" where
  "total_for s mo = (\<forall>o' t. kind_of o' = kind_of (GetObject mo s) \<longrightarrow> Reconcile mo o' t \<noteq> None)"

lemma total_for_same_kinds: "same_kinds s s' \<Longrightarrow> total_for s' mo = total_for s mo"
  by (simp add: total_for_def same_kinds_GetObject)

lemma apply_object_total:
  assumes "total_for s mo"
  shows "reconcileObject x iid mc mo D False s \<noteq> None"
proof -
  define o0 where "o0 = GetObject mo s"
  obtain o1 e1 w1 where b: "x_cou_begin x (ch_id (mc_cluster mc)) o0 (world s) = (o1, e1, w1)"
    by (metis prod.exhaust)
  define s1 where "s1 = log_request (ReqFetch (ch_id (mc_cluster mc)) (kind_of o0) (object_key o0)) (s\<lparr>world := w1\<rparr>)"
  have "Reconcile mo (stamp iid (fill o0 o1)) s1 \<noteq> None"
    using assms by (simp add: total_for_def o0_def)
  then obtain o2 e2 s2 where "Reconcile mo (SetInstanceID (SetManagedBy (fill o0 o1)) iid) s1 = Some ((o2, e2), s2)"
    by (auto simp: stamp_def)
  with b show ?thesis
    by (cases e1) (simp_all add: reconcileObject_def CreateOrUpdate_def o0_def[symmetric] s1_def[symmetric] Let_def split_beta)
qed

lemma apply_object_same_kinds:
  assumes "reconcileObject x iid mc mo D False s = Some (r, s')" "well_behaved R mo"
  shows "same_kinds s s'"
proof -
  note sp = apply_object_spec(3,4)[OF assms]
  have "kind_of (store s' p) = kind_of (store s p)" for p
    using sp by (cases "p = mo_ref mo") (simp_all add: GetObject_def)
  then show ?thesis by (simp add: same_kinds_def)
qed

lemma run_apply_total:
  assumes "\<forall>t \<in> set ts. total_for s (snd t) \<and> well_behaved R (snd t)"
  shows "run_targets x iid D False ts s \<noteq> None"
  using assms
proof (induction ts arbitrary: s)
  case Nil
  then show ?case by simp
next
  case (Cons t ts)
  obtain mc mo where t: "t = (mc, mo)" by force
  obtain r s1 where r: "reconcileObject x iid mc mo D False s = Some (r, s1)"
    using apply_object_total[of s mo x iid mc D] Cons.prems t by auto
  have "same_kinds s s1" using apply_object_same_kinds[OF r] Cons.prems t by auto
  then have "\<forall>t \<in> set ts. total_for s1 (snd t) \<and> well_behaved R (snd t)"
    using Cons.prems total_for_same_kinds by auto
  then show ?case using Cons.IH[of s1] r t by auto
qed

lemma entry_total:
  fixes x :: "'w ext"
  assumes "ch_rest (cc_mcp cc) \<noteq> None"
    and "e \<in> set (mcp_entries x obj images crds) \<union> set (workload_entries x r obj pc images cc poll msa)"
  shows "\<exists>f. moc_reconcile (snd e) = Some f \<and> (\<forall>o' t. kind_of o' = kind_of (fst e) \<longrightarrow> f o' t \<noteq> None)"
proof -
  have "GetHostAndPort (mcp_cluster cc :: 'w managed_cluster) \<noteq> None"
    using assms(1) by (auto simp: GetHostAndPort_def mcp_cluster_def Let_def split: prod.splits)
  then obtain h p where hp: "GetHostAndPort (mcp_cluster cc :: 'w managed_cluster) = Some (h, p)" by force
  have "kind_of o' = ''Deployment'' \<Longrightarrow> deployment_reconcile x ns obj ps images
      (token_apply server_account (mcp_cluster cc :: 'w managed_cluster)) o' t \<noteq> None" for ns ps o' t
    by (cases "body o'") (simp_all add: kind_of_def deployment_run[OF hp])
  moreover have "kind_of o' = ''Deployment'' \<Longrightarrow> mcp_deployment_reconcile x img i o' t \<noteq> None" for img i o' t
    by (rule mcp_deployment.no_panic)
  moreover have "kind_of o' = ''Secret'' \<Longrightarrow> token_reconcile x m mc pl o' t \<noteq> None" for m mc pl o' t
    by (rule token.no_panic)
  moreover have "kind_of o' = ''Secret'' \<Longrightarrow> pull_secret_reconcile x c n tns sns o' t \<noteq> None" for c n tns sns o' t
    by (rule pull_secret.no_panic)
  moreover have "kind_of o' = ''CustomResourceDefinition'' \<Longrightarrow> crd_reconcile sp o' t \<noteq> None" for sp o' and t :: "'w st"
    by (rule crd.no_panic)
  moreover have "kind_of o' = ''ClusterRoleBinding'' \<Longrightarrow> role_binding_reconcile a o' t \<noteq> None" for a o' and t :: "'w st"
    by (rule role_binding.no_panic)
  moreover have "NoOp o' t \<noteq> None" for o' and t :: "'w st" by (simp add: NoOp_def)
  ultimately show ?thesis
    using assms(2) by (auto simp: mcp_entries_def workload_entries_def namespace_entry_def service_account_entry_def
      crd_entry_def role_binding_entry_def deployment_entry_def token_entry_def pull_secret_entry_def)
qed

lemma stands_for_total:
  assumes "stands_for s mo e" "moc_reconcile (snd e) = Some f"
    "\<forall>o' t. kind_of o' = kind_of (fst e) \<longrightarrow> f o' t \<noteq> None"
  shows "total_for s mo"
proof -
  have "mo_reconcile mo = Some f" using assms(1,2) managed_of_simps(2) unfolding stands_for_def by metis
  then show ?thesis using assms by (simp add: total_for_def stands_for_def Reconcile_def)
qed

lemma set_up_total:
  assumes "set_up x r obj pc images cc u m s'" "fresh_manager r" "ch_rest (cc_mcp cc) \<noteq> None"
  shows "\<forall>t \<in> set (targets m). total_for s' (snd t)"
proof
  fix t assume t: "t \<in> set (targets m)"
  have "\<exists>e f. stands_for s' (snd t) e \<and> moc_reconcile (snd e) = Some f
      \<and> (\<forall>o' t. kind_of o' = kind_of (fst e) \<longrightarrow> f o' t \<noteq> None)"
    using set_up_target_cases[OF assms(1,2) t] entry_total[OF assms(3)] by (metis UnCI)
  then show "total_for s' (snd t)" using stands_for_total by blast
qed

subsection \<open>No panic in the status report\<close>

definition has_status :: "'w st \<Rightarrow> 'w managed_object \<Rightarrow> bool" where
  "has_status s mo = (\<forall>rl. GetStatus mo rl s \<noteq> None)"

lemma resultsToResources_total:
  "\<forall>r \<in> set rs. has_status s (res_object r) \<Longrightarrow> resultsToResources rs s \<noteq> None"
proof (induction rs)
  case Nil
  then show ?case by simp
next
  case (Cons r rs)
  have "has_status s (res_object r)" using Cons.prems by simp
  then obtain st' where "GetStatus (res_object r) (cluster_location (mc_type (res_cluster r))) s = Some st'"
    unfolding has_status_def by blast
  moreover obtain p where "resultsToResources rs s = Some p" using Cons by auto
  ultimately show ?case by (cases p) (simp add: Let_def)
qed

lemma entry_status:
  assumes "e \<in> set (mcp_entries x obj images crds) \<union> set (workload_entries x r obj pc images cc poll msa)"
  shows "\<exists>f. moc_status (snd e) = Some f \<and> (\<forall>o' rl. kind_of o' = kind_of (fst e) \<longrightarrow> f o' rl \<noteq> None)"
proof -
  have "SimpleStatus o' rl \<noteq> None" for o' rl by (rule simple.total) simp
  moreover have "kind_of o' = ''Deployment'' \<Longrightarrow> deployment_status o' rl \<noteq> None" for o' rl
    by (rule deployment.total) simp
  ultimately show ?thesis
    using assms by (auto simp: mcp_entries_def workload_entries_def namespace_entry_def service_account_entry_def
      crd_entry_def role_binding_entry_def deployment_entry_def token_entry_def pull_secret_entry_def)
qed

lemma set_up_status:
  assumes "set_up x r obj pc images cc u m s1" "fresh_manager r" "same_kinds s1 s'"
  shows "\<forall>t \<in> set (targets m). has_status s' (snd t)"
proof
  fix t assume t: "t \<in> set (targets m)"
  obtain e f where e: "stands_for s1 (snd t) e" "moc_status (snd e) = Some f"
      "\<forall>o' rl. kind_of o' = kind_of (fst e) \<longrightarrow> f o' rl \<noteq> None"
    using set_up_target_cases[OF assms(1,2) t] entry_status by (metis UnCI)
  have "mo_status (snd t) = Some f" using e(1,2) managed_of_simps(3) unfolding stands_for_def by metis
  moreover have "kind_of (GetObject (snd t) s') = kind_of (fst e)"
    using e(1) same_kinds_GetObject[OF assms(3)] by (simp add: stands_for_def)
  ultimately show "has_status s' (snd t)" using e(3) by (simp add: has_status_def GetStatus_def)
qed

subsection \<open>The passes of a set-up manager\<close>

text \<open>The set-up manager has one cleaner, whose failure results can report a status.\<close>

lemma cleaner_results_status:
  assumes "secretCleaner_Cleanup x mc ns keep s = ((rs, e), s')"
  shows "\<forall>r \<in> set rs. has_status s' (res_object r)"
  using assms
proof (cases rule: cleaner_cases)
  case listing_failed
  then show ?thesis by simp
next
  case (cleaned items ans s1)
  show ?thesis
  proof
    fix r assume "r \<in> set rs"
    with cleaned(6) obtain v where "failure_result mc s' v r"
      by (metis in_set_conv_nth list_all2_conv_all_nth)
    then show "has_status s' (res_object r)"
      by (simp add: failure_result_def has_status_def GetStatus_def cleanupErrorStatus_def)
  qed
qed

lemma orphan_cleaner_same_kinds_below:
  assumes "orphan_cleaner c R" "c s = ((rs, e), s')" "p < next_ref s"
  shows "store s' p = store s p"
  using orphan_cleaner.keeps_objects[OF assms(1,2)] assms(3) by blast

lemma set_up_refs:
  assumes "set_up x r obj pc images cc u m s'" "fresh_manager r" "t \<in> set (targets m)"
  shows "mo_ref (snd t) < next_ref s'"
  using set_up_target_cases[OF assms] unfolding stands_for_def by metis

text \<open>Statuses survive the cleaner, which only adds objects.\<close>

lemma has_status_below:
  "has_status s mo \<Longrightarrow> store s' (mo_ref mo) = store s (mo_ref mo) \<Longrightarrow> has_status s' mo"
  unfolding has_status_def GetStatus_def GetObject_def by metis

lemma pass_status:
  assumes su: "set_up x r obj pc images cc u m s1" and fr: "fresh_manager r"
    and k: "same_kinds s1 s2" "next_ref s2 = next_ref s1" "\<forall>r \<in> set rs1. (res_cluster r, res_object r) \<in> set (targets m)"
    and c: "run_cleaners (mgr_cleaners m) rs1 s2 = ((rs, e), s3)"
  shows "\<forall>r \<in> set rs. has_status s3 (res_object r)"
proof -
  define cl where "cl = secretCleaner_Cleanup x (bp_workload u) (InstanceNamespace obj) (kept_secrets pc)"
  have m: "mgr_cleaners m = [cl]" using set_up_targets(3)[OF su fr] by (simp add: cl_def)
  obtain rs2 e2 s4 where cr: "cl s2 = ((rs2, e2), s4)" by (metis prod.exhaust)
  have r: "s3 = s4" "set rs \<subseteq> set rs1 \<union> set rs2"
    using c by (auto simp: m cr split: option.splits)
  have old: "has_status s3 (res_object a)" if "a \<in> set rs1" for a
  proof -
    have t: "(res_cluster a, res_object a) \<in> set (targets m)" using k(3) that by blast
    have "store s4 (mo_ref (res_object a)) = store s2 (mo_ref (res_object a))"
      using secret_cleaner.keeps_objects[OF cr[unfolded cl_def]] set_up_refs[OF su fr t] k(2) by simp
    then show ?thesis using set_up_status[OF su fr k(1)] t r(1) has_status_below by fastforce
  qed
  have "has_status s3 (res_object a)" if "a \<in> set rs2" for a
    using cleaner_results_status[OF cr[unfolded cl_def]] that r(1) by blast
  with old r(2) show ?thesis by blast
qed

lemma results_in_targets:
  assumes "map (\<lambda>r. (res_cluster r, res_object r)) rs = ts" "r \<in> set rs"
  shows "(res_cluster r, res_object r) \<in> set ts"
  using assms by force

lemma Apply_total:
  assumes su: "set_up x r obj pc images cc u m s" and fr: "fresh_manager r"
    and ex: "sets_label x" "mutates_secret x" "ch_rest (cc_mcp cc) \<noteq> None"
  obtains rs e s' where "Apply x m s = Some ((rs, e), s')" "resultsToResources rs s' \<noteq> None"
proof -
  note wb = set_up_well_behaved[OF ex(1,2) su fr]
  have "\<forall>t \<in> set (targets m). total_for s (snd t) \<and> well_behaved (closure_requests r pc cc) (snd t)"
    using wb set_up_total[OF su fr ex(3)] by blast
  then obtain rs1 s1 where r: "run_targets x (mgr_instance_id m) (getDependents m) False (targets m) s = Some (rs1, s1)"
    using run_apply_total[of "targets m" s "closure_requests r pc cc" x "mgr_instance_id m" "getDependents m"] by auto
  obtain rs e s2 where c: "run_cleaners (mgr_cleaners m) rs1 s1 = ((rs, e), s2)" by (metis prod.exhaust)
  from run_apply_steps[OF r wb set_up_targets(4)[OF su fr]] have k: "same_kinds s s1" "next_ref s1 = next_ref s"
    "map (\<lambda>r. (res_cluster r, res_object r)) rs1 = targets m" by blast+
  have "Apply x m s = Some ((rs, e), s2)" using r c by (simp add: Apply_def reconcileObjects_targets)
  moreover have "resultsToResources rs s2 \<noteq> None"
    using pass_status[OF su fr k(1,2) _ c] results_in_targets[OF k(3)] by (intro resultsToResources_total) blast
  ultimately show thesis by (rule that)
qed

lemma DeleteAll_total:
  assumes su: "set_up x r obj pc images cc u m s" and fr: "fresh_manager r"
  obtains rs e s' where "DeleteAll x m s = Some ((rs, e), s')" "resultsToResources rs s' \<noteq> None"
proof -
  obtain rs1 s1 where r: "run_targets x (mgr_instance_id m) (getDependents m) True (targets m) s = Some (rs1, s1)"
    using run_delete_total[of x "mgr_instance_id m" "getDependents m" "targets m" s] by auto
  obtain rs e s2 where c: "run_cleaners (mgr_cleaners m) rs1 s1 = ((rs, e), s2)" by (metis prod.exhaust)
  have k: "same_kinds s s1" "next_ref s1 = next_ref s" "map (\<lambda>r. (res_cluster r, res_object r)) rs1 = targets m"
    using run_delete_frame[OF r] by simp_all
  have "DeleteAll x m s = Some ((rs, e), s2)" using r c by (simp add: DeleteAll_def reconcileObjects_targets)
  moreover have "resultsToResources rs s2 \<noteq> None"
    using pass_status[OF su fr k(1,2) _ c] results_in_targets[OF k(3)] by (intro resultsToResources_total) blast
  ultimately show thesis by (rule that)
qed

end
