(* ===== verification/Outcomes.thy ===== *)
theory Outcomes
  imports Handler_Runs
begin

text \<open>
  What the handlers' outcomes mean: that they return at all, when a deletion is done, what an
  update that reports readiness has established, and which inputs are turned away.
\<close>

subsection \<open>Returning\<close>

lemma validate_total: "x_parse_range x version_range \<noteq> None \<Longrightarrow> validateRequestedVersion x v \<noteq> None"
  by (auto simp: validateRequestedVersion_def split: option.splits)

lemma build_manager_total:
  assumes "PollInterval pc \<noteq> None" "Parse x \<noteq> None"
  shows "build_manager x r obj pc images cc s \<noteq> None"
  using assms by (auto simp: build_manager_eq Let_def split: option.splits sum.splits)

lemma createObjectManager_total:
  assumes "PollInterval pc \<noteq> None" "Parse x \<noteq> None" "x_parse_range x version_range \<noteq> None"
  shows "createObjectManager x r obj pc cc s \<noteq> None"
proof -
  obtain v where v: "validateRequestedVersion x (vs_version (v_spec obj)) = Some v"
    using validate_total[OF assms(3)] by blast
  obtain obj1 e s1 where e: "ensureInstanceID x r obj s = ((obj1, e), s1)" by (metis prod.exhaust)
  show ?thesis
  proof (cases "resolveImages (v_spec obj1) pc")
    case None
    show ?thesis by (cases v; cases e) (simp_all add: createObjectManager_def v e None)
  next
    case (Some images)
    obtain mgr s2 where b: "build_manager x r obj1 pc images cc s1 = Some (mgr, s2)"
      using build_manager_total[OF assms(1,2), of r obj1 images cc s1] by auto
    show ?thesis by (cases v; cases e) (simp_all add: createObjectManager_def v e Some b)
  qed
qed

lemma handlers_total:
  assumes "fresh_manager r" "sets_label x" "mutates_secret x"
    and "PollInterval pc \<noteq> None" "ch_rest (cc_mcp cc) \<noteq> None" "Parse x \<noteq> None" "x_parse_range x version_range \<noteq> None"
  shows "reconciler_CreateOrUpdate x r obj pc cc s \<noteq> None \<and> reconciler_Delete x r obj pc cc s \<noteq> None"
proof -
  obtain obj1 res s1 where c: "createObjectManager x r obj pc cc s = Some ((obj1, res), s1)"
    using createObjectManager_total[OF assms(4,6,7), of r obj cc s] by (metis not_None_eq prod.exhaust)
  show ?thesis
  proof (cases res)
    case (Inl err)
    with c show ?thesis by (simp add: reconciler_CreateOrUpdate_def reconciler_Delete_def)
  next
    case (Inr m)
    from createObjectManager_set_up[OF c[unfolded Inr]] obtain images u where
      su: "set_up x r obj1 pc images cc u m s1" by metis
    obtain rs e s2 mrs bad where a: "Apply x m s1 = Some ((rs, e), s2)" "resultsToResources rs s2 = Some (mrs, bad)"
      using Apply_total[OF su assms(1,2,3,5)] by (metis not_None_eq surj_pair)
    have "reconciler_CreateOrUpdate x r obj pc cc s \<noteq> None"
      unfolding reconciler_CreateOrUpdate_def by (simp add: c Inr a Let_def del: not_None_eq)
    moreover obtain rs' e' s2' mrs' bad' where d: "DeleteAll x m s1 = Some ((rs', e'), s2')"
      "resultsToResources rs' s2' = Some (mrs', bad')"
      using DeleteAll_total[OF su assms(1)] by (metis not_None_eq surj_pair)
    have "reconciler_Delete x r obj pc cc s \<noteq> None"
      unfolding reconciler_Delete_def by (simp add: c Inr d Let_def del: not_None_eq)
    ultimately show ?thesis by blast
  qed
qed

lemma missing_poll_interval_panics:
  assumes "PollInterval pc = None" "GetID (v_meta obj) \<noteq> []"
    and "validateRequestedVersion x (vs_version (v_spec obj)) = Some None" "resolveImages (v_spec obj) pc \<noteq> None"
  shows "reconciler_CreateOrUpdate x r obj pc cc s = None \<and> reconciler_Delete x r obj pc cc s = None"
proof -
  obtain images where "resolveImages (v_spec obj) pc = Some images" using assms(4) by blast
  then have "createObjectManager x r obj pc cc s = None"
    using assms(1-3) by (simp add: createObjectManager_def ensureInstanceID_def build_manager_eq Let_def)
  then show ?thesis by (simp add: reconciler_CreateOrUpdate_def reconciler_Delete_def)
qed

text \<open>
  C17. The handlers return, with one exception. With a REST configuration of the control
  plane, a decoder that ends and a readable version range, neither handler panics or diverges,
  whatever the API servers answer, if the configuration has a poll interval. The field is
  optional, yet without it both handlers panic on every resource whose version and images are
  accepted.
\<close>

theorem handlers_return:
  assumes "fresh_manager r" "sets_label x" "mutates_secret x"
    and "ch_rest (cc_mcp cc) \<noteq> None" "Parse x \<noteq> None" "x_parse_range x version_range \<noteq> None"
  shows "(PollInterval pc \<noteq> None \<longrightarrow>
        reconciler_CreateOrUpdate x r obj pc cc s \<noteq> None \<and> reconciler_Delete x r obj pc cc s \<noteq> None)
    \<and> (PollInterval pc = None \<and> GetID (v_meta obj) \<noteq> []
        \<and> validateRequestedVersion x (vs_version (v_spec obj)) = Some None \<and> resolveImages (v_spec obj) pc \<noteq> None \<longrightarrow>
        reconciler_CreateOrUpdate x r obj pc cc s = None \<and> reconciler_Delete x r obj pc cc s = None)"
  using handlers_total[OF assms(1-3) _ assms(4-6)] missing_poll_interval_panics by blast

subsection \<open>Turning inputs away\<close>

text \<open>The documented behaviour of the runtime's filter: errors that wrap the invalid-input error are dropped.\<close>

definition ignores_invalid_input :: "'w ext \<Rightarrow> bool" where
  "ignores_invalid_input x = (\<forall>t. x_ignore_invalid_input x (errorf_wrap (x_err_invalid_input x) t) = None)"

definition rejected :: "'w ext \<Rightarrow> velero \<Rightarrow> provider_config \<Rightarrow> bool" where
  "rejected x obj pc =
     ((\<exists>err. validateRequestedVersion x (vs_version (v_spec obj)) = Some (Some err))
      \<or> (validateRequestedVersion x (vs_version (v_spec obj)) = Some None \<and> resolveImages (v_spec obj) pc = None))"

lemma createObjectManager_rejected:
  assumes "rejected x obj pc" "GetID (v_meta obj) \<noteq> []"
  shows "\<exists>t. createObjectManager x r obj pc cc s = Some ((obj, Inl (errorf_wrap (x_err_invalid_input x) t)), s)"
  using assms(1) unfolding rejected_def
proof
  assume "\<exists>err. validateRequestedVersion x (vs_version (v_spec obj)) = Some (Some err)"
  then obtain err where v: "validateRequestedVersion x (vs_version (v_spec obj)) = Some (Some err)" ..
  then have "\<exists>t. err = errorf_wrap (x_err_invalid_input x) t"
    by (auto simp: validateRequestedVersion_def bind_eq_Some_conv split: option.splits if_splits)
  with v show ?thesis by (auto simp: createObjectManager_def)
next
  assume "validateRequestedVersion x (vs_version (v_spec obj)) = Some None \<and> resolveImages (v_spec obj) pc = None"
  then show ?thesis using assms(2) by (auto simp: createObjectManager_def ensureInstanceID_def)
qed

text \<open>
  Invalid input. An unsupported or malformed version, or a version or plugin without an
  available image, is reported in the status and neither retried nor returned as an error,
  and no request is issued. In a deletion this makes the outcome that of a finished deletion
  although no managed object was even looked at: the caller drops the finalizer and the
  objects of both clusters are leaked.
\<close>

theorem invalid_input_outcome:
  assumes "rejected x obj pc" "GetID (v_meta obj) \<noteq> []" "ignores_invalid_input x"
  shows "\<exists>t. reconciler_CreateOrUpdate x r obj pc cc s =
        Some ((x_status_progressing x obj ''ReconcileError'' (error_text (errorf_wrap (x_err_invalid_input x) t)), no_requeue, None), s)
      \<and> reconciler_Delete x r obj pc cc s =
        Some ((x_status_terminating_reason x obj ''ReconcileError'' (error_text (errorf_wrap (x_err_invalid_input x) t)), no_requeue, None), s)"
proof -
  from createObjectManager_rejected[OF assms(1,2)] obtain t where
    "createObjectManager x r obj pc cc s = Some ((obj, Inl (errorf_wrap (x_err_invalid_input x) t)), s)" by blast
  with assms(3) show ?thesis
    by (auto simp: reconciler_CreateOrUpdate_def reconciler_Delete_def ignores_invalid_input_def)
qed

subsection \<open>Finished deletions and updates\<close>

lemma resultsToResources_bad:
  "resultsToResources rs s = Some (mrs, bad) \<Longrightarrow> bad \<longleftrightarrow> (\<exists>r \<in> set rs. res_error r \<noteq> None)"
  by (induction rs arbitrary: mrs bad) (auto simp: Let_def bind_eq_Some_conv)

text \<open>The reported entry of one result.\<close>

definition reports :: "'w st \<Rightarrow> 'w result \<Rightarrow> managed_resource \<Rightarrow> bool" where
  "reports s r mr = (\<exists>st'. GetStatus (res_object r) (cluster_location (mc_type (res_cluster r))) s = Some st'
     \<and> mr_kind mr = kind_of (GetObject (res_object r) s) \<and> mr_name mr = get_name (GetObject (res_object r) s)
     \<and> mr_namespace mr = nilIfEmptyString (get_namespace (GetObject (res_object r) s))
     \<and> mr_phase mr = s_phase st' \<and> mr_message mr = s_message st' \<and> mr_location mr = s_location st')"

lemma resultsToResources_reports:
  "resultsToResources rs s = Some (mrs, bad) \<Longrightarrow> list_all2 (reports s) rs mrs"
  by (induction rs arbitrary: mrs bad) (auto simp: Let_def bind_eq_Some_conv reports_def)

lemma allResourcesReady_iff: "allResourcesReady mrs \<longleftrightarrow> (\<forall>mr \<in> set mrs. mr_phase mr = Ready)"
  by (induction mrs) auto

lemma requeue_distinct [simp]: "requeue_10s \<noteq> no_requeue" "no_requeue \<noteq> requeue_10s"
  by (simp_all add: requeue_10s_def no_requeue_def second_def)

text \<open>
  C9. A finished deletion. With servers whose lookups answer for the key they were asked for, the
  deletion handler reports that it is done, with neither an error nor a requeue, in exactly two
  situations: no manager was created and the filter dropped the error, or in this very run
  every managed object that is not orphaned was answered "not found" by the deletion of its
  own cluster, kind and key, every dependent of a managed object was answered "not found" by
  its own lookup, and nothing failed. Orphaned objects are left where they are.
\<close>

theorem deletion_done_means_gone:
  assumes "reconciler_Delete x r obj pc cc s = Some ((obj', no_requeue, None), s')" "fresh_manager r" "gets_own_key x"
  shows "(\<exists>obj1 err. createObjectManager x r obj pc cc s = Some ((obj1, Inl err), s') \<and> x_ignore_invalid_input x err = None)
    \<or> (\<exists>obj1 m s1 new. createObjectManager x r obj pc cc s = Some ((obj1, Inr m), s1)
         \<and> trace s' = trace s1 @ new \<and> (\<forall>t \<in> set (targets m). seen_gone s1 m (set new) t)
         \<and> length (st_resources (v_status obj')) = length (targets m))"
  using assms(1)
proof (cases rule: Delete_runs)
  case (not_created obj1 err)
  then show ?thesis by auto
next
  case (deleted obj1 m s1 rs ae mrs bad)
  from deleted(4) have ok: "ae = None" "AllDeleted rs" "obj' = set_resources obj1 mrs" by (auto split: if_splits)
  from createObjectManager_set_up[OF deleted(1)] obtain images u where
    su: "set_up x r obj1 pc images cc u m s1" by metis
  from all_deleted_gone[OF deleted(2)[unfolded ok(1)] ok(2) set_up_cleaners[OF su assms(2)] assms(3)] obtain new where
    "length rs = length (targets m)" "trace s' = trace s1 @ new" "\<forall>t \<in> set (targets m). seen_gone s1 m (set new) t" by blast
  moreover have "length mrs = length rs"
    using list_all2_lengthD[OF resultsToResources_reports[OF deleted(3)]] by simp
  ultimately show ?thesis using deleted(1) ok(3) by (auto simp: set_resources_def)
qed

text \<open>What the status closures of the manager certify of an object they call ready.\<close>

definition certified_ready :: "client_object \<Rightarrow> bool" where
  "certified_ready o' = (time_is_zero (om_deletion (meta o')) \<and>
     (case body o' of
        Deployment d rdy \<Rightarrow> (case ds_replicas d of None \<Rightarrow> 1 | Some n \<Rightarrow> n) = rdy
      | _ \<Rightarrow> om_uid (meta o') \<noteq> []))"

lemma ready_certified:
  assumes "e \<in> set (mcp_entries x obj images crds) \<union> set (workload_entries x r obj pc images cc poll msa)"
    "stands_for s1 mo e" "same_kinds s1 s" "GetStatus mo rl s = Some st'" "s_phase st' = Ready"
  shows "certified_ready (GetObject mo s)"
proof -
  have st: "mo_status mo = moc_status (snd e)" using assms(2) managed_of_simps(3) unfolding stands_for_def by metis
  have kd: "kind_of (GetObject mo s) = kind_of (fst e)"
    using assms(2) same_kinds_GetObject[OF assms(3)] by (simp add: stands_for_def)
  have "(moc_status (snd e) = Some deployment_status \<and> kind_of (fst e) = ''Deployment'')
      \<or> (moc_status (snd e) = Some SimpleStatus \<and> kind_of (fst e) \<noteq> ''Deployment'')"
    using assms(1) by (auto simp: mcp_entries_def workload_entries_def namespace_entry_def service_account_entry_def
      crd_entry_def role_binding_entry_def deployment_entry_def token_entry_def pull_secret_entry_def)
  then show ?thesis
  proof
    assume "moc_status (snd e) = Some deployment_status \<and> kind_of (fst e) = ''Deployment''"
    then show ?thesis using assms(4,5) st kd
      by (auto simp: GetStatus_def deployment_status_def certified_ready_def kind_of_def Let_def
          split: payload.splits if_splits)
  next
    assume "moc_status (snd e) = Some SimpleStatus \<and> kind_of (fst e) \<noteq> ''Deployment''"
    then show ?thesis using assms(4,5) st kd simple_ready_iff[of "GetObject mo s" rl st']
      by (cases "body (GetObject mo s)") (auto simp: GetStatus_def certified_ready_def kind_of_def)
  qed
qed

text \<open>
  C10. A finished update. The update handler returns with neither an error nor a requeue only
  if the filter dropped an invalid input, or if in this run every managed object was written
  or left alone without error, every object certifies its readiness (it exists and is not
  being deleted, a deployment has exactly its desired number of ready pods), and the status
  of the resource lists the managed objects in their order, all ready.
\<close>

theorem update_done_means_ready:
  assumes "reconciler_CreateOrUpdate x r obj pc cc s = Some ((obj', no_requeue, None), s')"
    and "fresh_manager r" "sets_label x" "mutates_secret x"
  shows "(\<exists>obj1 err. createObjectManager x r obj pc cc s = Some ((obj1, Inl err), s') \<and> x_ignore_invalid_input x err = None)
    \<or> (\<exists>obj1 m s1 rs mrs. createObjectManager x r obj pc cc s = Some ((obj1, Inr m), s1)
         \<and> obj' = x_status_ready x (set_resources obj1 mrs)
         \<and> map (\<lambda>r. (res_cluster r, res_object r)) rs = targets m
         \<and> list_all2 (reports s') rs mrs
         \<and> (\<forall>mr \<in> set mrs. mr_phase mr = Ready) \<and> (\<forall>r \<in> set rs. res_error r = None)
         \<and> (\<forall>t \<in> set (targets m). certified_ready (GetObject (snd t) s')))"
  using assms(1)
proof (cases rule: CreateOrUpdate_runs)
  case (not_created obj1 err)
  then show ?thesis by auto
next
  case (applied obj1 m s1 rs ae mrs bad)
  from applied(4) have ok: "ae = None" "\<not> bad" "allResourcesReady mrs" "obj' = x_status_ready x (set_resources obj1 mrs)"
    by (auto split: if_splits)
  from createObjectManager_set_up[OF applied(1)] obtain images u where
    su: "set_up x r obj1 pc images cc u m s1" by metis
  note st = set_up_targets[OF su assms(2)]
  define cl where "cl = secretCleaner_Cleanup x (bp_workload u) (InstanceNamespace obj1) (kept_secrets pc)"
  have mc: "mgr_cleaners m = [cl]" using st(3) by (simp add: cl_def)
  from applied(2) ok(1) obtain rs1 s2 where
    r: "run_targets x (mgr_instance_id m) (getDependents m) False (targets m) s1 = Some (rs1, s2)"
    and c: "run_cleaners (mgr_cleaners m) rs1 s2 = ((rs, None), s')"
    by (auto simp: Apply_def reconcileObjects_targets)
  from run_apply_steps[OF r set_up_well_behaved[OF assms(3,4) su assms(2)] st(4)] have k:
    "map (\<lambda>r. (res_cluster r, res_object r)) rs1 = targets m" "same_kinds s1 s2" "next_ref s2 = next_ref s1" by blast+
  from run_cleaners_spec[OF c set_up_cleaners[OF su assms(2)]] obtain extra where
    ex: "rs = rs1 @ extra" "\<forall>r \<in> set extra. res_error r \<noteq> None" "\<forall>p < next_ref s2. store s' p = store s2 p" by blast
  have noerr: "\<forall>r \<in> set rs. res_error r = None" using resultsToResources_bad[OF applied(3)] ok(2) by blast
  then have "extra = []" using ex(1,2) by (cases extra) auto
  then have rs: "map (\<lambda>r. (res_cluster r, res_object r)) rs = targets m" using ex(1) k(1) by simp
  note rep = resultsToResources_reports[OF applied(3)]
  have rdy: "\<forall>mr \<in> set mrs. mr_phase mr = Ready" using ok(3) by (simp add: allResourcesReady_iff)
  have "certified_ready (GetObject (snd t) s')" if t: "t \<in> set (targets m)" for t
  proof -
    from t rs obtain res where res: "res \<in> set rs" "t = (res_cluster res, res_object res)" by (metis (no_types, lifting) imageE list.set_map)
    from res(1) rep obtain mr where "mr \<in> set mrs" "reports s' res mr"
      by (metis in_set_conv_nth list_all2_conv_all_nth)
    with rdy obtain st' where st': "GetStatus (snd t) (cluster_location (mc_type (fst t))) s' = Some st'" "s_phase st' = Ready"
      by (auto simp: reports_def res(2))
    obtain e where e: "e \<in> set (mcp_entries x obj1 images (bp_crds u)) \<union>
        set (workload_entries x r obj1 pc images cc (bp_poll u) (service_account_of u))" "stands_for s1 (snd t) e"
      using set_up_target_cases[OF su assms(2) t] by (metis UnCI)
    have same: "GetObject (snd t) s' = GetObject (snd t) s2"
      using ex(3) set_up_refs[OF su assms(2) t] k(3) by (simp add: GetObject_def)
    with st' have "GetStatus (snd t) (cluster_location (mc_type (fst t))) s2 = Some st'"
      unfolding GetStatus_def by metis
    from ready_certified[OF e(1,2) k(2) this st'(2)] same show ?thesis by simp
  qed
  with applied(1) ok(4) rs rep rdy noerr show ?thesis by blast
qed

end
