(* ===== verification/Deletion_Liveness.thy ===== *)
theory Deletion_Liveness
  imports Outcomes
begin

text \<open>
  A deletion of a Velero resource gets done: on API servers whose deletions take effect at
  once, two calls of the deletion handler remove everything that is not orphaned and the
  third reports the deletion as finished.
\<close>

text \<open>
  Servers on which deletions take effect at once and fail only with "not found", and
  on which listing works and changes nothing.
\<close>

definition deletes_cleanly :: "'w ext \<Rightarrow> ('w \<Rightarrow> item set) \<Rightarrow> bool" where
  "deletes_cleanly x live = (deletes_at_once x live
     \<and> (\<forall>c o' w e w'. x_delete x c o' w = (e, w') \<longrightarrow> ignore_not_found e = None)
     \<and> (\<forall>c ns ls w. \<exists>os w'. x_list_secrets x c ns ls w = (os, None, w') \<and> live w' = live w))"

definition accepted :: "'w ext \<Rightarrow> provider_config \<Rightarrow> velero \<Rightarrow> bool" where
  "accepted x pc obj = (GetID (v_meta obj) \<noteq> []
     \<and> validateRequestedVersion x (vs_version (v_spec obj)) = Some None
     \<and> resolveImages (v_spec obj) pc \<noteq> None \<and> PollInterval pc \<noteq> None \<and> (\<exists>crds. Parse x = Some (Inr crds)))"

definition deletable :: "'w ext \<Rightarrow> provider_config \<Rightarrow> cluster_context \<Rightarrow> string \<Rightarrow> item set" where
  "deletable x pc cc iid = {(cluster_id cc ct, k, key) |ct k key. (ct, k, key, Delete) \<in> managed_items x pc iid}"

definition account_item :: "cluster_context \<Rightarrow> item" where
  "account_item cc = (ch_id (cc_mcp cc), ''ServiceAccount'', (''velero'', ''velero-server''))"

definition token_item :: "cluster_context \<Rightarrow> string \<Rightarrow> item" where
  "token_item cc iid = (ch_id (cc_workload cc), ''Secret'', (''velero-'' @ iid, ''kube-api-access-velero-server''))"

lemma deletableI: "(ct, k, key, Delete) \<in> managed_items x pc iid \<Longrightarrow> (cluster_id cc ct, k, key) \<in> deletable x pc cc iid"
  unfolding deletable_def by blast

lemma token_deletable: "token_item cc iid \<in> deletable x pc cc iid"
proof -
  have "(WorkloadCluster, ''Secret'', (''velero-'' @ iid, ''kube-api-access-velero-server''), Delete) \<in> managed_items x pc iid"
    by (simp add: managed_items_def inventory_def)
  from deletableI[OF this, of cc] show ?thesis by (simp add: token_item_def cluster_id_def)
qed

subsection \<open>The cleaner is quiet on such servers\<close>

lemma cleanup_loop_quiet:
  assumes "deletes_cleanly x live"
  shows "\<exists>s'. cleanup_loop x mc keep items rs s = (rs, s') \<and> store s' = store s \<and> live (world s') \<subseteq> live (world s)"
proof (induction items arbitrary: s)
  case Nil
  show ?case by simp
next
  case (Cons v items)
  obtain e s1 where d: "k_delete x (mc_cluster mc) v s = (e, s1)" by force
  have "ignore_not_found e = None"
    using d assms unfolding k_delete_def deletes_cleanly_def by (metis (no_types, lifting) case_prod_conv prod.exhaust_sel prod.inject)
  moreover have "deletes_at_once x live" using assms by (simp add: deletes_cleanly_def)
  note dl = k_delete_live[OF this d]
  moreover obtain s2 where "cleanup_loop x mc keep items rs s1 = (rs, s2)" "store s2 = store s1" "live (world s2) \<subseteq> live (world s1)"
    using Cons.IH by blast
  ultimately show ?case using Cons.IH[of s] d by (cases "list_ex (\<lambda>ref. get_name v = ref) keep") auto
qed

lemma secret_cleaner_quiet:
  fixes x :: "'w ext"
  assumes "deletes_cleanly x live"
  shows "quiet_cleaner live (secretCleaner_Cleanup x mc ns keep)"
  unfolding quiet_cleaner_def
proof
  fix s :: "'w st"
  obtain os w where l: "x_list_secrets x (ch_id (mc_cluster mc)) ns ManagedBy (world s) = (os, None, w)" "live w = live (world s)"
    using assms unfolding deletes_cleanly_def by meson
  obtain items s1 where k: "k_list_secrets x (mc_cluster mc) ns ManagedBy s = ((items, None), s1)"
    "store s1 = store s" "live (world s1) = live (world s)"
    using l by (simp add: k_list_secrets_def)
  from cleanup_loop_quiet[OF assms] obtain s2 where "cleanup_loop x mc keep items [] s1 = ([], s2)"
    "store s2 = store s1" "live (world s2) \<subseteq> live (world s1)" by blast
  with k show "\<exists>s'. secretCleaner_Cleanup x mc ns keep s = (([], None), s') \<and> store s' = store s \<and> live (world s') \<subseteq> live (world s)"
    by (simp add: secretCleaner_Cleanup_def)
qed

subsection \<open>One call of the deletion handler\<close>

lemma createObjectManager_accepted:
  assumes "accepted x pc obj"
  obtains m s1 images u where "createObjectManager x r obj pc cc s = Some ((obj, Inr m), s1)"
    "set_up x r obj pc images cc u m s1" "world s1 = world s"
proof -
  from assms obtain images where im: "resolveImages (v_spec obj) pc = Some images" by (auto simp: accepted_def)
  obtain poll crds where pc: "PollInterval pc = Some poll" "Parse x = Some (Inr crds)"
    using assms by (auto simp: accepted_def)
  obtain m s1 where b: "build_manager x r obj pc images cc s = Some (Inr m, s1)"
    by (simp add: build_manager_eq pc Let_def)
  have "createObjectManager x r obj pc cc s = Some ((obj, Inr m), s1)"
    using assms im b by (simp add: createObjectManager_def ensureInstanceID_def accepted_def)
  moreover from build_manager_set_up[OF b] obtain u where "set_up x r obj pc images cc u m s1" "world s1 = world s" by blast
  ultimately show thesis by (rule that)
qed

lemma target_item:
  assumes "set_up x r obj pc images cc u m s1" "fresh_manager r" "t \<in> set (targets m)"
  shows "\<exists>ct k key. describe s1 t = (ct, k, key, mo_policy (snd t)) \<and> item_of s1 t = (cluster_id cc ct, k, key)"
  using set_up_items(2)[OF assms] by (simp add: describe_def item_of_def)

lemma deletable_target:
  assumes "set_up x r obj pc images cc u m s1" "fresh_manager r" "i \<in> deletable x pc cc (GetID (v_meta obj))"
  shows "\<exists>t \<in> set (targets m). item_of s1 t = i \<and> mo_policy (snd t) = Delete"
proof -
  from assms(3) obtain ct k key where i: "i = (cluster_id cc ct, k, key)"
    "(ct, k, key, Delete) \<in> managed_items x pc (GetID (v_meta obj))" by (auto simp: deletable_def)
  have "parsed_names x = map fst (bp_crds u)" using assms(1) by (simp add: set_up_def parsed_names_def)
  then have "(ct, k, key, Delete) \<in> set (map (describe s1) (targets m))"
    using i(2) set_up_inventory[OF assms(1,2)] by (simp add: managed_items_def InstanceNamespace_eq)
  then obtain t where t: "t \<in> set (targets m)" "describe s1 t = (ct, k, key, Delete)" by auto
  with target_item[OF assms(1,2) t(1)] i(1) show ?thesis by auto
qed

lemma target_deletable:
  assumes "set_up x r obj pc images cc u m s1" "fresh_manager r" "t \<in> set (targets m)" "mo_policy (snd t) \<noteq> Orphan"
  shows "item_of s1 t \<in> deletable x pc cc (GetID (v_meta obj))"
proof -
  have "mo_policy (snd t) \<noteq> NoPolicy"
    using set_up_target_cases[OF assms(1,2,3)] managed_of_simps(5) unfolding stands_for_def
    by (metis deletion_policy.distinct(3))
  with assms(4) have "mo_policy (snd t) = Delete" by (cases "mo_policy (snd t)") auto
  with target_item[OF assms(1-3)] set_up_items(1)[OF assms(1-3)] show ?thesis
    using deletableI by metis
qed

lemma account_only:
  assumes su: "set_up x r obj pc images cc u m s1" and fr: "fresh_manager r" and t: "t \<in> set (targets m)"
    and d: "depends_on m d (snd t)"
  shows "item_of s1 t = account_item cc" "item_of s1 (dep_target d) = token_item cc (GetID (v_meta obj))"
proof -
  note dp = set_up_dependency[OF su fr d]
  have "list_all2 (stands_for s1) (mc_objects (bp_mcp u)) (mcp_entries x obj images (bp_crds u))"
    using su by (simp add: set_up_def)
  then have "stands_for s1 (service_account_of u) (service_account_entry server_account)"
    by (auto simp: mcp_entries_def list_all2_Cons2 service_account_of_def)
  then have ob: "GetObject (snd t) s1 = new_object ''velero-server'' ''velero'' ServiceAccount"
    using dp(3) by (simp add: stands_for_def GetObject_def service_account_entry_def server_account_def)
  then have k: "kind_of (GetObject (snd t) s1) = ''ServiceAccount''" "object_key (GetObject (snd t) s1) = (''velero'', ''velero-server'')"
    by simp_all
  have "(mc_type (fst t), ''ServiceAccount'', (''velero'', ''velero-server''), mo_policy (snd t)) \<in> managed_items x pc (GetID (v_meta obj))"
    using set_up_items(1)[OF su fr t] by (simp add: describe_def k)
  then have "mc_type (fst t) = ManagedControlPlane"
    by (cases "mc_type (fst t)") (simp_all add: managed_items_def inventory_def image_iff)
  then show "item_of s1 t = account_item cc"
    using set_up_items(2)[OF su fr t] k by (simp add: item_of_def account_item_def cluster_id_def)
  show "item_of s1 (dep_target d) = token_item cc (GetID (v_meta obj))"
    using dp(1,2) su by (simp add: item_of_def dep_target_def token_item_def stands_for_def token_entry_def
        kubeAPIAccess_def server_account_def InstanceNamespace_eq set_up_def)
qed

lemma delete_call:
  assumes cl: "deletes_cleanly x live" and fr: "fresh_manager r" and ac: "accepted x pc obj"
  obtains obj' res e s' where "reconciler_Delete x r obj pc cc s = Some ((obj', res, e), s')"
    "live (world s') \<subseteq> live (world s)"
    "\<And>i. i \<in> deletable x pc cc (GetID (v_meta obj)) \<Longrightarrow>
       i \<noteq> account_item cc \<or> token_item cc (GetID (v_meta obj)) \<notin> live (world s) \<Longrightarrow> i \<notin> live (world s')"
    "\<forall>i \<in> deletable x pc cc (GetID (v_meta obj)). i \<notin> live (world s) \<Longrightarrow> res = no_requeue \<and> e = None"
proof -
  obtain m s1 images u where c: "createObjectManager x r obj pc cc s = Some ((obj, Inr m), s1)"
    and su: "set_up x r obj pc images cc u m s1" and w: "world s1 = world s"
    by (rule createObjectManager_accepted[OF ac])
  have quiet: "\<forall>c \<in> set (mgr_cleaners m). quiet_cleaner live c"
    using set_up_targets(3)[OF su fr] secret_cleaner_quiet[OF cl] by simp
  have once: "deletes_at_once x live" using cl by (simp add: deletes_cleanly_def)
  obtain rs s2 where d: "DeleteAll x m s1 = Some ((rs, None), s2)" "live (world s2) \<subseteq> live (world s1)"
    and gone: "\<And>t. t \<in> set (targets m) \<Longrightarrow> mo_policy (snd t) \<noteq> Orphan \<Longrightarrow>
       (\<And>d. depends_on m d (snd t) \<Longrightarrow> item_of s1 (dep_target d) \<notin> live (world s1)) \<Longrightarrow>
       item_of s1 t \<notin> live (world s2)"
    and fin: "(\<And>t. t \<in> set (targets m) \<Longrightarrow> mo_policy (snd t) = Orphan \<or> item_of s1 t \<notin> live (world s1)) \<Longrightarrow>
     (\<And>t d. t \<in> set (targets m) \<Longrightarrow> depends_on m d (snd t) \<Longrightarrow> item_of s1 (dep_target d) \<notin> live (world s1)) \<Longrightarrow>
     \<forall>r \<in> set rs. res_op r = OpDeleted \<and> res_error r = None"
    by (rule DeleteAll_live[OF once quiet, of s1]) blast
  obtain mrs bad where rr: "resultsToResources rs s2 = Some (mrs, bad)"
    using DeleteAll_total[OF su fr] d(1) by (metis not_None_eq old.prod.exhaust option.inject prod.inject)
  have "\<exists>obj' res e. reconciler_Delete x r obj pc cc s = Some ((obj', res, e), s2)
      \<and> (\<not> bad \<longrightarrow> AllDeleted rs \<longrightarrow> res = no_requeue \<and> e = None)"
    unfolding reconciler_Delete_def by (simp add: c d(1) rr Let_def)
  then obtain obj' res e where run: "reconciler_Delete x r obj pc cc s = Some ((obj', res, e), s2)"
    and out: "\<not> bad \<Longrightarrow> AllDeleted rs \<Longrightarrow> res = no_requeue \<and> e = None" by blast
  show thesis
  proof (rule that[OF run])
    show "live (world s2) \<subseteq> live (world s)" using d(2) w by simp
  next
    fix i assume i: "i \<in> deletable x pc cc (GetID (v_meta obj))"
      "i \<noteq> account_item cc \<or> token_item cc (GetID (v_meta obj)) \<notin> live (world s)"
    obtain t where t: "t \<in> set (targets m)" "item_of s1 t = i" "mo_policy (snd t) = Delete"
      using deletable_target[OF su fr i(1)] by blast
    have "item_of s1 (dep_target d) \<notin> live (world s1)" if dd: "depends_on m d (snd t)" for d
      using account_only[OF su fr t(1) dd] i(2) t(2) w by metis
    with gone[OF t(1)] t(2,3) show "i \<notin> live (world s2)" by (metis deletion_policy.distinct(5))
  next
    assume all: "\<forall>i \<in> deletable x pc cc (GetID (v_meta obj)). i \<notin> live (world s)"
    have "\<forall>r \<in> set rs. res_op r = OpDeleted \<and> res_error r = None"
      by (rule fin) (use target_deletable[OF su fr] account_only(2)[OF su fr] all w token_deletable in metis)+
    then show "res = no_requeue \<and> e = None"
      using out resultsToResources_bad[OF rr] by (auto simp: AllDeleted_iff)
  qed
qed

text \<open>
  C6. Deletion gets done. For an accepted resource, on servers whose deletions take effect at
  once, and from any state of the clusters, the second call of the deletion handler leaves
  nothing of the inventory behind but the orphaned namespace and definitions of the control
  plane, and the third call reports the deletion as finished.
\<close>

theorem deletion_finishes:
  assumes "deletes_cleanly x live" "fresh_manager r" "accepted x pc obj"
  shows "\<exists>o1 r1 e1 s1 o2 r2 e2 s2 o3 s3.
      reconciler_Delete x r obj pc cc s = Some ((o1, r1, e1), s1)
    \<and> reconciler_Delete x r obj pc cc s1 = Some ((o2, r2, e2), s2)
    \<and> (\<forall>i \<in> deletable x pc cc (GetID (v_meta obj)). i \<notin> live (world s2))
    \<and> reconciler_Delete x r obj pc cc s2 = Some ((o3, no_requeue, None), s3)"
proof -
  define D where "D = deletable x pc cc (GetID (v_meta obj))"
  obtain o1 r1 e1 s1 where c1: "reconciler_Delete x r obj pc cc s = Some ((o1, r1, e1), s1)"
    and g1: "\<And>i. i \<in> D \<Longrightarrow> i \<noteq> account_item cc \<Longrightarrow> i \<notin> live (world s1)"
    unfolding D_def by (rule delete_call[OF assms, of cc s]) blast
  have "token_item cc (GetID (v_meta obj)) \<noteq> account_item cc" by (simp add: token_item_def account_item_def)
  with g1 token_deletable have tok: "token_item cc (GetID (v_meta obj)) \<notin> live (world s1)" unfolding D_def by metis
  obtain o2 r2 e2 s2 where c2: "reconciler_Delete x r obj pc cc s1 = Some ((o2, r2, e2), s2)"
    and g2: "\<And>i. i \<in> D \<Longrightarrow> i \<notin> live (world s2)"
    unfolding D_def by (rule delete_call[OF assms, of cc s1]) (use tok in blast)
  obtain o3 r3 e3 s3 where c3: "reconciler_Delete x r obj pc cc s2 = Some ((o3, r3, e3), s3)"
    and g3: "\<forall>i \<in> D. i \<notin> live (world s2) \<Longrightarrow> r3 = no_requeue \<and> e3 = None"
    unfolding D_def by (rule delete_call[OF assms, of cc s2]) blast
  with g2 have "r3 = no_requeue" "e3 = None" by blast+
  with c1 c2 c3 g2 show ?thesis unfolding D_def by blast
qed

end
