(* ===== verification/Update_Liveness.thy ===== *)
theory Update_Liveness
  imports Deletion_Liveness
begin

text \<open>
  An update of a Velero resource gets done: on API servers that take writes at once, but
  refuse an object whose namespace does not exist, one call of the update handler creates
  everything except possibly the token secret, which is written before the namespace it lives
  in, and the second call creates the rest and reports readiness exactly if every object is ready
  in the answer to its write.
\<close>

subsection \<open>Servers that take writes at once\<close>

text \<open>A namespaced object can be written only once its namespace exists.\<close>

definition admitted :: "item set \<Rightarrow> item \<Rightarrow> bool" where
  "admitted L i = (case i of (c, k, (ns, n)) \<Rightarrow> ns = [] \<or> (c, ''Namespace'', ([], ns)) \<in> L)"

fun all_admitted :: "item set \<Rightarrow> item list \<Rightarrow> bool" where
  "all_admitted L [] = True"
| "all_admitted L (i # is) = (admitted L i \<and> all_admitted (insert i L) is)"

text \<open>
  The documented behaviour of the calls on such servers: reads find what exists and change
  nothing, an admitted write succeeds and returns an object of its kind, tokens are issued and
  files can be read. Whether what was written is ready, the pods of a deployment for one, is
  not part of it.
\<close>

definition writes_at_once :: "'w ext \<Rightarrow> ('w \<Rightarrow> item set) \<Rightarrow> bool" where
  "writes_at_once x live =
     ((\<forall>c o' w. case x_cou_begin x c o' w of (o1, e, w') \<Rightarrow>
         e = None \<and> live w' = live w \<and> object_key (fill o' o1) = object_key o')
    \<and> (\<forall>c oa ob er w. case x_cou_finish x c oa ob er w of (oc, r, e, w') \<Rightarrow>
         if er = None \<and> admitted (live w) (c, kind_of ob, object_key ob)
         then e = None \<and> live w' = insert (c, kind_of ob, object_key ob) (live w)
              \<and> kind_of oc = kind_of ob
         else e \<noteq> None \<and> live w' = live w)
    \<and> (\<forall>c k o' w. case x_get x c k o' w of (o2, e, w') \<Rightarrow>
         live w' = live w \<and> ((c, kind_of o', k) \<in> live w \<longrightarrow> e = None))
    \<and> (\<forall>c sa n w. case x_create_token x c sa n w of (t, e, w') \<Rightarrow> live w' = live w \<and> e = None)
    \<and> (\<forall>f w. case x_read_file x f w of (b, e, w') \<Rightarrow> live w' = live w \<and> e = None)
    \<and> (\<forall>w. live (snd (x_now x w)) = live w)
    \<and> (\<forall>name ns d ty o'. snd (x_mutate_secret x name ns d ty o') = None))"

lemma writes_at_onceD:
  assumes "writes_at_once x live"
  shows "x_cou_begin x c o' w = (o1, e, w') \<Longrightarrow> e = None \<and> live w' = live w \<and> object_key (fill o' o1) = object_key o'"
    and "x_cou_finish x c o1 o2 None w = (o3, r, e, w') \<Longrightarrow> admitted (live w) (c, kind_of o2, object_key o2) \<Longrightarrow>
      e = None \<and> live w' = insert (c, kind_of o2, object_key o2) (live w) \<and> kind_of o3 = kind_of o2"
    and "x_cou_finish x c o1 o2 e2 w = (o3, r, e, w') \<Longrightarrow> e2 \<noteq> None \<or> \<not> admitted (live w) (c, kind_of o2, object_key o2) \<Longrightarrow>
      e \<noteq> None \<and> live w' = live w"
    and "x_get x c k o' w = (o2, e, w') \<Longrightarrow> live w' = live w \<and> ((c, kind_of o', k) \<in> live w \<longrightarrow> e = None)"
    and "x_create_token x c sa n w = (t, e, w') \<Longrightarrow> live w' = live w \<and> e = None"
    and "x_read_file x f w = (b, e, w') \<Longrightarrow> live w' = live w \<and> e = None"
    and "x_now x w = (tm, w') \<Longrightarrow> live w' = live w"
    and "x_mutate_secret x name ns d ty o' = (o2, e) \<Longrightarrow> e = None"
proof -
  note a = assms[unfolded writes_at_once_def]
  show "x_cou_begin x c o' w = (o1, e, w') \<Longrightarrow> e = None \<and> live w' = live w \<and> object_key (fill o' o1) = object_key o'"
    using a[THEN conjunct1, rule_format, where c = c and o' = o' and w = w] by simp
  show "x_cou_finish x c o1 o2 None w = (o3, r, e, w') \<Longrightarrow> admitted (live w) (c, kind_of o2, object_key o2) \<Longrightarrow>
      e = None \<and> live w' = insert (c, kind_of o2, object_key o2) (live w) \<and> kind_of o3 = kind_of o2"
    using a[THEN conjunct2, THEN conjunct1, rule_format, where c = c and oa = o1 and ob = o2 and er = None and w = w] by simp
  show "x_cou_finish x c o1 o2 e2 w = (o3, r, e, w') \<Longrightarrow> e2 \<noteq> None \<or> \<not> admitted (live w) (c, kind_of o2, object_key o2) \<Longrightarrow>
      e \<noteq> None \<and> live w' = live w"
    using a[THEN conjunct2, THEN conjunct1, rule_format, where c = c and oa = o1 and ob = o2 and er = e2 and w = w] by (auto split: if_splits)
  note b = a[THEN conjunct2, THEN conjunct2]
  show "x_get x c k o' w = (o2, e, w') \<Longrightarrow> live w' = live w \<and> ((c, kind_of o', k) \<in> live w \<longrightarrow> e = None)"
    using b[THEN conjunct1, rule_format, where c = c and k = k and o' = o' and w = w] by simp
  show "x_create_token x c sa n w = (t, e, w') \<Longrightarrow> live w' = live w \<and> e = None"
    using b[THEN conjunct2, THEN conjunct1, rule_format, where c = c and sa = sa and n = n and w = w] by simp
  note d = b[THEN conjunct2, THEN conjunct2]
  show "x_read_file x f w = (b, e, w') \<Longrightarrow> live w' = live w \<and> e = None"
    using d[THEN conjunct1, rule_format, where f = f and w = w] by simp
  show "x_now x w = (tm, w') \<Longrightarrow> live w' = live w"
    using d[THEN conjunct2, THEN conjunct1, rule_format, where w = w] by simp
  show "x_mutate_secret x name ns d ty o' = (o2, e) \<Longrightarrow> e = None"
    using d[THEN conjunct2, THEN conjunct2, rule_format, where name = name and ns = ns and d = d and ty = ty and o' = o'] by simp
qed

text \<open>
  Servers on which what is written is ready in the answer already, as after the pods have come up.
\<close>

definition replies_ready :: "'w ext \<Rightarrow> bool" where
  "replies_ready x = (\<forall>c oa ob w oc r w'. x_cou_finish x c oa ob None w = (oc, r, None, w') \<longrightarrow> certified_ready oc)"

lemma admitted_mono: "admitted L i \<Longrightarrow> L \<subseteq> M \<Longrightarrow> admitted M i"
  by (auto simp: admitted_def split: prod.splits)

lemma all_admittedI: "\<forall>i \<in> set is. admitted L i \<Longrightarrow> all_admitted L is"
proof (induction "is" arbitrary: L)
  case Nil
  show ?case by simp
next
  case (Cons i "is")
  have "\<forall>j \<in> set is. admitted (insert i L) j" using Cons.prems admitted_mono[OF _ subset_insertI] by auto
  with Cons show ?case by simp
qed

subsection \<open>The closures succeed\<close>

text \<open>
  On objects of the given kind the closure changes nothing that exists, and it succeeds
  wherever the objects it needs exist.
\<close>

definition gentle :: "('w \<Rightarrow> item set) \<Rightarrow> item set \<Rightarrow> string \<Rightarrow> 'w reconcile_func \<Rightarrow> bool" where
  "gentle live N k f = (\<forall>o' s o2 e s'. kind_of o' = k \<longrightarrow> f o' s = Some ((o2, e), s') \<longrightarrow>
     live (world s') = live (world s) \<and> (N \<subseteq> live (world s) \<longrightarrow> e = None))"

lemma gentle_mono: "gentle live N k f \<Longrightarrow> N \<subseteq> M \<Longrightarrow> gentle live M k f"
  unfolding gentle_def by blast

lemma gentle_pure:
  assumes "\<And>o' s o2 e s'. f o' s = Some ((o2, e), s') \<Longrightarrow> e = None \<and> s' = s"
  shows "gentle live N k f"
  unfolding gentle_def using assms by blast

lemma k_get_writes:
  assumes "writes_at_once x live" "k_get x c k o' s = ((o2, e), s')"
  shows "live (world s') = live (world s) \<and> ((ch_id c, kind_of o', k) \<in> live (world s) \<longrightarrow> e = None)"
proof -
  obtain o3 e3 w3 where q: "x_get x (ch_id c) k o' (world s) = (o3, e3, w3)" by (metis prod.exhaust)
  have r: "e = e3" "world s' = w3"
    using assms(2) q by (auto simp: k_get_def)
  show ?thesis using writes_at_onceD(4)[OF assms(1) q] by (simp add: r)
qed

lemma k_create_token_live:
  assumes "writes_at_once x live" "k_create_token x c sa n s = ((t, e), s')"
  shows "live (world s') = live (world s) \<and> e = None"
proof -
  obtain t3 e3 w3 where q: "x_create_token x (ch_id c) sa n (world s) = (t3, e3, w3)" by (metis prod.exhaust)
  have r: "e = e3" "world s' = w3"
    using assms(2) q by (auto simp: k_create_token_def)
  show ?thesis using writes_at_onceD(5)[OF assms(1) q] by (simp add: r)
qed

lemma os_read_file_live:
  assumes "writes_at_once x live" "os_read_file x f s = ((b, e), s')"
  shows "live (world s') = live (world s) \<and> e = None"
proof -
  obtain b3 e3 w3 where q: "x_read_file x f (world s) = (b3, e3, w3)" by (metis prod.exhaust)
  have r: "e = e3" "world s' = w3"
    using assms(2) q by (auto simp: os_read_file_def)
  show ?thesis using writes_at_onceD(6)[OF assms(1) q] by (simp add: r)
qed

lemma time_now_live:
  assumes "writes_at_once x live" "time_now x s = (t, s')"
  shows "live (world s') = live (world s)"
proof -
  obtain t3 w3 where q: "x_now x (world s) = (t3, w3)" by (metis prod.exhaust)
  have r: "world s' = w3"
    using assms(2) q by (auto simp: time_now_def)
  show ?thesis using writes_at_onceD(7)[OF assms(1) q] by (simp add: r)
qed

lemma generateToken_live:
  assumes env: "writes_at_once x live" and run: "generateToken x c (Some cfg) server_account hour s = (res, s')"
  shows "live (world s') = live (world s)
    \<and> ((ch_id c, ''ServiceAccount'', (''velero'', ''velero-server'')) \<in> live (world s) \<longrightarrow> (\<exists>rc. res = Inr rc))"
proof -
  obtain sa e1 s1 where g: "k_get x c (''velero'', ''velero-server'') (new_object [] [] ServiceAccount) s = ((sa, e1), s1)"
    by (metis prod.exhaust)
  note gl = k_get_writes[OF env g]
  obtain tok ex e2 s2 where t: "k_create_token x c sa (duration_seconds hour) s1 = (((tok, ex), e2), s2)"
    by (metis prod.exhaust)
  note tl = k_create_token_live[OF env t]
  obtain b e3 s3 where f: "os_read_file x (rc_ca_file cfg) s2 = ((b, e3), s3)" by (metis prod.exhaust)
  note fl = os_read_file_live[OF env f]
  show ?thesis
    using run g t f gl tl fl by (cases e1) (auto simp: generateToken_def server_account_def hour_def minute_def split: if_splits)
qed

lemma token_gentle:
  fixes x :: "'w ext"
  assumes env: "writes_at_once x live" and cfg: "ch_rest (cc_mcp cc) = Some cfg"
  shows "gentle live {account_item cc} k (token_reconcile x server_account (mcp_cluster cc :: 'w managed_cluster) poll)"
  unfolding gentle_def
proof (intro allI impI)
  fix o' :: client_object and s :: "'w st" and o2 e s'
  assume run: "token_reconcile x server_account (mcp_cluster cc :: 'w managed_cluster) poll o' s = Some ((o2, e), s')"
  have mc: "mc_cfg (mcp_cluster cc :: 'w managed_cluster) = Some cfg" "mc_cluster (mcp_cluster cc :: 'w managed_cluster) = cc_mcp cc"
    by (simp_all add: mcp_cluster_def cfg)
  obtain now s1 where n: "time_now x s = (now, s1)" by (metis prod.exhaust)
  note nl = time_now_live[OF env n]
  obtain res s2 where g: "generateToken x (cc_mcp cc) (Some cfg) server_account hour s1 = (res, s2)" by (metis prod.exhaust)
  note gl = generateToken_live[OF env g]
  obtain data ty where b: "body o' = Secret data ty"
    using run by (cases "body o'") (simp_all add: token_reconcile_def)
  have cases: "(s' = s1 \<and> e = None) \<or> (s' = s2 \<and> (\<forall>rc. res = Inr rc \<longrightarrow> e = None))"
    using run by (cases res; cases "token_due o' now poll") (simp_all add: token_reconcile_def b n mc g)
  show "live (world s') = live (world s) \<and> ({account_item cc} \<subseteq> live (world s) \<longrightarrow> e = None)"
    using cases
  proof
    assume "s' = s1 \<and> e = None"
    then show ?thesis using nl by simp
  next
    assume c: "s' = s2 \<and> (\<forall>rc. res = Inr rc \<longrightarrow> e = None)"
    then have "live (world s') = live (world s)" using nl gl by simp
    moreover have "e = None" if "{account_item cc} \<subseteq> live (world s)"
    proof -
      have "(ch_id (cc_mcp cc), ''ServiceAccount'', (''velero'', ''velero-server'')) \<in> live (world s1)"
        using that unfolding nl by (simp only: account_item_def insert_subset)
      with gl c show ?thesis by metis
    qed
    ultimately show ?thesis by blast
  qed
qed

definition pull_sources :: "'w velero_reconciler \<Rightarrow> provider_config \<Rightarrow> item set" where
  "pull_sources r pc = (\<lambda>name. (ch_id (vr_platform r), ''Secret'', (vr_pod_namespace r, name))) ` set (pc_pull_secrets pc)"

lemma pull_gentle:
  fixes x :: "'w ext"
  assumes env: "writes_at_once x live"
  shows "gentle live {(ch_id c, ''Secret'', (sns, name))} k (pull_secret_reconcile x c name tns sns)"
  unfolding gentle_def
proof (intro allI impI)
  fix o' :: client_object and s :: "'w st" and o2 e s'
  assume run: "pull_secret_reconcile x c name tns sns o' s = Some ((o2, e), s')"
  obtain data ty where b: "body o' = Secret data ty"
    using run by (cases "body o'") (simp_all add: pull_secret_reconcile_def)
  obtain src e1 s1 where g: "k_get x c (sns, name) (new_object name sns (Secret None [])) s = ((src, e1), s1)"
    by (metis prod.exhaust)
  have gl: "live (world s1) = live (world s)" "(ch_id c, ''Secret'', (sns, name)) \<in> live (world s) \<Longrightarrow> e1 = None"
    using k_get_writes[OF env g] by simp_all
  obtain o3 e3 where m: "x_mutate_secret x name tns (secret_data src) SecretTypeDockerConfigJson o' = (o3, e3)" by (metis prod.exhaust)
  have "e3 = None" by (rule writes_at_onceD(8)[OF env m])
  then have "s' = s1 \<and> (e1 = None \<longrightarrow> e = None)"
    using run by (cases e1) (simp_all add: pull_secret_reconcile_def b g m)
  then show "live (world s') = live (world s) \<and> ({(ch_id c, ''Secret'', (sns, name))} \<subseteq> live (world s) \<longrightarrow> e = None)"
    using gl by (simp only: insert_subset) blast
qed

lemma pure_gentle:
  "gentle live N k NoOp" "gentle live N k (crd_reconcile sp)" "gentle live N k (role_binding_reconcile a)"
  "gentle live N k (mcp_deployment_reconcile x img i)" "gentle live N k (deployment_reconcile x ns obj ps images tf)"
  by (rule gentle_pure, auto simp: NoOp_def crd_reconcile_def role_binding_reconcile_def mcp_deployment_reconcile_def
      deployment_reconcile_def Let_def bind_eq_Some_conv split: payload.splits)+

lemma mcp_entry_gentle:
  assumes "e \<in> set (mcp_entries x obj images crds)" "moc_reconcile (snd e) = Some f"
  shows "gentle live N (kind_of (fst e)) f"
  using assms pure_gentle by (auto simp: mcp_entries_def namespace_entry_def service_account_entry_def crd_entry_def
      role_binding_entry_def deployment_entry_def)

lemma workload_entry_gentle:
  assumes env: "writes_at_once x live" and cfg: "ch_rest (cc_mcp cc) = Some cfg"
    and e: "e \<in> set (workload_entries x r obj pc images cc poll msa)" "moc_reconcile (snd e) = Some f"
  shows "gentle live (insert (account_item cc) (pull_sources r pc)) (kind_of (fst e)) f"
proof -
  have "gentle live (insert (account_item cc) (pull_sources r pc)) k
      (pull_secret_reconcile x (vr_platform r) name tns (vr_pod_namespace r))" if "name \<in> set (pc_pull_secrets pc)" for k name tns
    by (rule gentle_mono[OF pull_gentle[OF env]]) (use that in \<open>auto simp: pull_sources_def\<close>)
  moreover have "gentle live (insert (account_item cc) (pull_sources r pc)) k
      (token_reconcile x server_account (mcp_cluster cc) poll)" for k
    by (rule gentle_mono[OF token_gentle[OF env cfg]]) blast
  ultimately show ?thesis
    using e pure_gentle by (auto simp: workload_entries_def namespace_entry_def deployment_entry_def token_entry_def
      pull_secret_entry_def)
qed

subsection \<open>One managed object\<close>

lemma apply_object_live:
  assumes env: "writes_at_once x live" and run: "reconcileObject x iid mc mo D False s = Some (r, s')"
    and wb: "well_behaved R mo" and g: "gentle live N (kind_of (GetObject mo s)) (Reconcile mo)"
    and need: "N \<subseteq> live (world s)"
  shows "admitted (live (world s)) (item_of s (mc, mo)) \<Longrightarrow> res_error r = None
      \<and> live (world s') = insert (item_of s (mc, mo)) (live (world s)) \<and> (replies_ready x \<longrightarrow> certified_ready (GetObject mo s'))"
    and "\<not> admitted (live (world s)) (item_of s (mc, mo)) \<Longrightarrow> res_error r \<noteq> None \<and> live (world s') = live (world s)"
proof -
  note st = well_behaved_Reconcile[OF wb]
  let ?c = "ch_id (mc_cluster mc)" and ?o0 = "GetObject mo s"
  have "(admitted (live (world s)) (item_of s (mc, mo)) \<longrightarrow> res_error r = None
      \<and> live (world s') = insert (item_of s (mc, mo)) (live (world s)) \<and> (replies_ready x \<longrightarrow> certified_ready (GetObject mo s')))
    \<and> (\<not> admitted (live (world s)) (item_of s (mc, mo)) \<longrightarrow> res_error r \<noteq> None \<and> live (world s') = live (world s))"
    using run
  proof (cases rule: apply_object_cases)
    case (not_fetched o1 e w1)
    then show ?thesis using writes_at_onceD(1)[OF env] by fastforce
  next
    case (ran o1 w1 o2 e2 s2 o3 r3 e3 w3)
    note bl = writes_at_onceD(1)[OF env ran(1)]
    define oc where "oc = stamp iid (fill ?o0 o1)"
    have oc: "kind_of oc = kind_of ?o0" "object_key oc = object_key ?o0" using bl by (simp_all add: oc_def)
    have "live (world s2) = live w1 \<and> (N \<subseteq> live w1 \<longrightarrow> e2 = None)"
      using g ran(2) oc(1) unfolding gentle_def oc_def by (metis fetched_simps(2))
    then have gl: "live (world s2) = live (world s)" "e2 = None" using bl need by simp_all
    note fin = ran(3)[unfolded gl(2)]
    have same: "same_identity oc o2" using stamped_reconciler.same_object[OF st] ran(2) gl(2) unfolding oc_def by blast
    have it: "item_of s (mc, mo) = (?c, kind_of o2, object_key o2)"
      using same oc by (simp add: same_identity_def item_of_def)
    have rdy: "certified_ready o3" if "replies_ready x" "e3 = None"
      using that fin unfolding replies_ready_def by blast
    show ?thesis
      using writes_at_onceD(2,3)[OF env fin] rdy unfolding gl(1) it by (auto simp: ran(4,5) GetObject_def fill_def)
  qed
  then show "admitted (live (world s)) (item_of s (mc, mo)) \<Longrightarrow> res_error r = None
      \<and> live (world s') = insert (item_of s (mc, mo)) (live (world s)) \<and> (replies_ready x \<longrightarrow> certified_ready (GetObject mo s'))"
    and "\<not> admitted (live (world s)) (item_of s (mc, mo)) \<Longrightarrow> res_error r \<noteq> None \<and> live (world s') = live (world s)"
    by blast+
qed

lemma run_apply_live:
  assumes env: "writes_at_once x live" and run: "run_targets x iid D False ts s = Some (rs, s')"
    and wb: "\<forall>t \<in> set ts. well_behaved R (snd t) \<and> gentle live N (kind_of (GetObject (snd t) s)) (Reconcile (snd t))"
    and dist: "distinct (map (mo_ref \<circ> snd) ts)"
    and need: "N \<subseteq> live (world s)" and adm: "all_admitted (live (world s)) (map (item_of s) ts)"
  shows "(\<forall>r \<in> set rs. res_error r = None) \<and> live (world s') = live (world s) \<union> item_of s ` set ts
    \<and> (replies_ready x \<longrightarrow> (\<forall>t \<in> set ts. certified_ready (GetObject (snd t) s')))"
  using run wb dist need adm
proof (induction ts arbitrary: s rs)
  case Nil
  then show ?case by simp
next
  case (Cons t ts)
  obtain mc mo where t: "t = (mc, mo)" by force
  from Cons.prems(1) t obtain r s1 rs1 where r: "reconcileObject x iid mc mo D False s = Some (r, s1)"
    and rs: "run_targets x iid D False ts s1 = Some (rs1, s')" "rs = r # rs1" by auto
  have wb1: "well_behaved R mo" "gentle live N (kind_of (GetObject mo s)) (Reconcile mo)" using Cons.prems(2) t by simp_all
  note fr = apply_object_spec[OF r wb1(1)]
  have one: "res_error r = None" "live (world s1) = insert (item_of s t) (live (world s))"
    "replies_ready x \<Longrightarrow> certified_ready (GetObject mo s1)"
    using apply_object_live(1)[OF env r wb1 Cons.prems(4)] Cons.prems(5) t by simp_all
  have other: "GetObject (snd u) s1 = GetObject (snd u) s" if "u \<in> set ts" for u
  proof -
    have "mo_ref mo \<notin> (\<lambda>a. mo_ref (snd a)) ` set ts" using Cons.prems(3) t by (simp add: comp_def)
    with that have "mo_ref (snd u) \<noteq> mo_ref mo" by (metis imageI)
    with fr(4) show ?thesis by (simp add: GetObject_def)
  qed
  then have it: "item_of s1 u = item_of s u" if "u \<in> set ts" for u using that by (simp add: item_of_def)
  have maps: "map (item_of s1) ts = map (item_of s) ts" "item_of s1 ` set ts = item_of s ` set ts" using it by auto
  have ih: "\<forall>r \<in> set rs1. res_error r = None" "live (world s') = live (world s1) \<union> item_of s1 ` set ts"
    "replies_ready x \<Longrightarrow> \<forall>u \<in> set ts. certified_ready (GetObject (snd u) s')"
    using Cons.IH[OF rs(1)] Cons.prems(2-5) other one(2) unfolding maps by auto
  have "store s' (mo_ref mo) = store s1 (mo_ref mo)"
  proof -
    have "mo_ref mo \<notin> (mo_ref \<circ> snd) ` set ts" using Cons.prems(3) t by (simp add: comp_def)
    moreover have "distinct (map (mo_ref \<circ> snd) ts)" using Cons.prems(3) by (simp only: list.map distinct.simps)
    moreover have "\<forall>u \<in> set ts. well_behaved R (snd u)" using Cons.prems(2) by simp
    ultimately show ?thesis using run_apply_steps[OF rs(1)] by blast
  qed
  then have "replies_ready x \<Longrightarrow> certified_ready (GetObject mo s')" using one(3) by (simp add: GetObject_def)
  with ih one rs(2) t maps show ?case by auto
qed

subsection \<open>The items of a set-up manager\<close>

definition item_entry :: "cluster_handle \<Rightarrow> 'w entry \<Rightarrow> item" where
  "item_entry c e = (ch_id c, kind_of (fst e), object_key (fst e))"

lemma items_of_entries:
  assumes "list_all2 (stands_for s) mos es"
  shows "map (item_of s) (map (Pair mc) mos) = map (item_entry (mc_cluster mc)) es"
  using assms by (induction rule: list_all2_induct) (simp_all add: stands_for_def item_of_def item_entry_def)

definition namespace_item :: "cluster_context \<Rightarrow> string \<Rightarrow> item" where
  "namespace_item cc iid = (ch_id (cc_workload cc), ''Namespace'', ([], ''velero-'' @ iid))"

lemma mcp_items_admitted:
  fixes x :: "'w ext"
  shows "all_admitted L (map (item_entry c) (mcp_entries x obj images crds :: 'w entry list))"
proof -
  have "all_admitted (insert (ch_id c, ''Namespace'', ([], ''velero'')) L)
      (map (item_entry c) (tl (mcp_entries x obj images crds :: 'w entry list)))"
    by (rule all_admittedI) (auto simp: mcp_entries_def item_entry_def admitted_def namespace_entry_def service_account_entry_def
        crd_entry_def role_binding_entry_def deployment_entry_def server_account_def)
  then show ?thesis
    by (simp add: mcp_entries_def item_entry_def admitted_def namespace_entry_def)
qed

lemma workload_items:
  fixes x :: "'w ext" and r :: "'w velero_reconciler" and msa :: "'w managed_object"
  shows "\<exists>rest. map (item_entry (cc_workload cc)) (workload_entries x r obj pc images cc poll msa)
      = token_item cc (GetID (v_meta obj)) # namespace_item cc (GetID (v_meta obj)) # rest
    \<and> (\<forall>L. all_admitted (insert (namespace_item cc (GetID (v_meta obj))) L) rest)"
proof -
  define rest where "rest = map (item_entry (cc_workload cc)) (drop 2 (workload_entries x r obj pc images cc poll msa))"
  have "all_admitted (insert (namespace_item cc (GetID (v_meta obj))) L) rest" for L
    by (rule all_admittedI) (auto simp: rest_def workload_entries_def item_entry_def admitted_def deployment_entry_def
        pull_secret_entry_def namespace_item_def InstanceNamespace_eq)
  moreover have "map (item_entry (cc_workload cc)) (workload_entries x r obj pc images cc poll msa)
      = token_item cc (GetID (v_meta obj)) # namespace_item cc (GetID (v_meta obj)) # rest"
    by (simp add: rest_def workload_entries_def item_entry_def token_entry_def namespace_entry_def token_item_def
        namespace_item_def InstanceNamespace_eq kubeAPIAccess_def server_account_def)
  ultimately show ?thesis by (intro exI[of _ rest] conjI allI)
qed

definition inventory_items :: "'w ext \<Rightarrow> provider_config \<Rightarrow> cluster_context \<Rightarrow> string \<Rightarrow> item set" where
  "inventory_items x pc cc iid = (\<lambda>(ct, k, key, p). (cluster_id cc ct, k, key)) ` managed_items x pc iid"

lemma set_up_all_items:
  assumes su: "set_up x r obj pc images cc u m s1" and fr: "fresh_manager r"
  shows "item_of s1 ` set (targets m) = inventory_items x pc cc (GetID (v_meta obj))"
proof -
  have "parsed_names x = map fst (bp_crds u)" using su by (simp add: set_up_def parsed_names_def)
  then have "describe s1 ` set (targets m) = managed_items x pc (GetID (v_meta obj))"
    using arg_cong[OF set_up_inventory[OF su fr], of set] by (simp add: managed_items_def InstanceNamespace_eq)
  moreover have "item_of s1 ` set (targets m) = (\<lambda>t. (\<lambda>(ct, k, key, p). (cluster_id cc ct, k, key)) (describe s1 t)) ` set (targets m)"
    using set_up_items(2)[OF su fr] by (intro image_cong refl) (simp only: item_of_def describe_def prod.case)
  ultimately show ?thesis unfolding inventory_items_def by (simp only: image_image[symmetric])
qed

subsection \<open>The cleaner takes only what is not wanted\<close>

definition unwanted :: "cluster_context \<Rightarrow> provider_config \<Rightarrow> item set" where
  "unwanted cc pc = {(ch_id (cc_workload cc), ''Secret'', k) |k. snd k \<notin> set (kept_secrets pc)}"

lemma inventory_wanted: "inventory_items x pc cc iid \<inter> unwanted cc pc = {}"
  by (auto simp: inventory_items_def unwanted_def managed_items_def inventory_def kept_secrets_def)

lemma sources_wanted: "pull_sources r pc \<inter> unwanted cc pc = {}"
  by (auto simp: pull_sources_def unwanted_def kept_secrets_def)

lemma cleanup_loop_live:
  assumes "deletes_cleanly x live" "\<forall>v \<in> set items. kind_of v = ''Secret''"
    and "mc_cluster mc = cc_workload cc"
  shows "\<exists>s'. cleanup_loop x mc (kept_secrets pc) items rs s = (rs, s') \<and> store s' = store s
    \<and> live (world s) - unwanted cc pc \<subseteq> live (world s')"
  using assms(2)
proof (induction items arbitrary: s)
  case Nil
  show ?case by simp
next
  case (Cons v items)
  obtain e s1 where d: "k_delete x (mc_cluster mc) v s = (e, s1)" by force
  have once: "deletes_at_once x live" using assms(1) by (simp add: deletes_cleanly_def)
  note dl = k_delete_live[OF once d]
  obtain e3 w3 where dx: "x_delete x (ch_id (mc_cluster mc)) v (world s) = (e3, w3)" by (metis prod.exhaust)
  have "e = e3" using d by (simp add: k_delete_def dx)
  then have ok: "ignore_not_found e = None"
    using assms(1)[unfolded deletes_cleanly_def, THEN conjunct2, THEN conjunct1] dx by metis
  have ih: "\<exists>s'. cleanup_loop x mc (kept_secrets pc) items rs t = (rs, s') \<and> store s' = store t
      \<and> live (world t) - unwanted cc pc \<subseteq> live (world s')" for t
    using Cons by simp
  show ?case
  proof (cases "get_name v \<in> set (kept_secrets pc)")
    case True
    then show ?thesis using ih[of s] by (auto simp: list_ex_iff)
  next
    case False
    have "(ch_id (mc_cluster mc), kind_of v, object_key v) \<in> unwanted cc pc"
      using False Cons.prems by (simp add: unwanted_def object_key_def assms(3))
    then have "live (world s) - unwanted cc pc = live (world s1) - unwanted cc pc" using dl(1) by blast
    with ih[of s1] False d ok dl(3) show ?thesis by (auto simp: list_ex_iff)
  qed
qed

lemma cleaner_live:
  assumes "deletes_cleanly x live" "mc_cluster mc = cc_workload cc"
  shows "\<exists>s'. secretCleaner_Cleanup x mc ns (kept_secrets pc) s = (([], None), s') \<and> store s' = store s
    \<and> live (world s) - unwanted cc pc \<subseteq> live (world s')"
proof -
  obtain os w where l: "x_list_secrets x (ch_id (mc_cluster mc)) ns ManagedBy (world s) = (os, None, w)" "live w = live (world s)"
    using assms unfolding deletes_cleanly_def by meson
  obtain items s1 where k: "k_list_secrets x (mc_cluster mc) ns ManagedBy s = ((items, None), s1)"
    "store s1 = store s" "live (world s1) = live (world s)" "\<forall>v \<in> set items. kind_of v = ''Secret''"
    using l by (simp add: k_list_secrets_def)
  from cleanup_loop_live[OF assms(1) k(4) assms(2), of pc "[]" s1] k show ?thesis
    by (auto simp: secretCleaner_Cleanup_def)
qed

subsection \<open>One call of the update handler\<close>

lemma certified_status:
  assumes "e \<in> set (mcp_entries x obj images crds) \<union> set (workload_entries x r obj pc images cc poll msa)"
    "stands_for s1 mo e" "same_kinds s1 s" "certified_ready (GetObject mo s)" "GetStatus mo rl s = Some st'"
  shows "s_phase st' = Ready"
proof -
  have st: "mo_status mo = moc_status (snd e)" using assms(2) managed_of_simps(3) unfolding stands_for_def by metis
  have kd: "kind_of (GetObject mo s) = kind_of (fst e)"
    using assms(2) same_kinds_GetObject[OF assms(3)] by (simp add: stands_for_def)
  have "(moc_status (snd e) = Some deployment_status \<and> kind_of (fst e) = ''Deployment'')
      \<or> (moc_status (snd e) = Some SimpleStatus \<and> kind_of (fst e) \<noteq> ''Deployment'')"
    using assms(1) by (auto simp: mcp_entries_def workload_entries_def namespace_entry_def service_account_entry_def
      crd_entry_def role_binding_entry_def deployment_entry_def token_entry_def pull_secret_entry_def)
  then show ?thesis
  proof
    assume "moc_status (snd e) = Some deployment_status \<and> kind_of (fst e) = ''Deployment''"
    then show ?thesis using assms(4,5) st
      by (auto simp: GetStatus_def deployment_status_def certified_ready_def Let_def split: payload.splits if_splits)
  next
    assume "moc_status (snd e) = Some SimpleStatus \<and> kind_of (fst e) \<noteq> ''Deployment''"
    then show ?thesis using assms(4,5) st kd simple_ready_iff[of "GetObject mo s" rl st']
      by (cases "body (GetObject mo s)") (auto simp: GetStatus_def certified_ready_def kind_of_def)
  qed
qed

lemma set_up_gentle:
  assumes env: "writes_at_once x live" and cfg: "ch_rest (cc_mcp cc) \<noteq> None"
    and su: "set_up x r obj pc images cc u m s" and fr: "fresh_manager r"
  shows "mo \<in> set (mc_objects (bp_mcp u)) \<Longrightarrow> gentle live N (kind_of (GetObject mo s)) (Reconcile mo)"
    and "mo \<in> set (mc_objects (bp_workload u)) \<Longrightarrow>
      gentle live (insert (account_item cc) (pull_sources r pc)) (kind_of (GetObject mo s)) (Reconcile mo)"
proof -
  obtain cfg where cfg: "ch_rest (cc_mcp cc) = Some cfg" using cfg by blast
  have l: "list_all2 (stands_for s) (mc_objects (bp_mcp u)) (mcp_entries x obj images (bp_crds u))"
    "list_all2 (stands_for s) (mc_objects (bp_workload u))
          (workload_entries x r obj pc images cc (bp_poll u) (service_account_of u))"
    using su by (simp_all add: set_up_def)
  have pick: "mo \<in> set mos \<Longrightarrow> list_all2 P mos es \<Longrightarrow> \<exists>e \<in> set es. P mo e" for mo mos es and P :: "'a managed_object \<Rightarrow> 'a entry \<Rightarrow> bool"
    by (metis in_set_conv_nth list_all2_conv_all_nth)
  have rc: "Reconcile mo = f" "kind_of (GetObject mo s) = kind_of (fst e)"
    if "stands_for s mo e" "moc_reconcile (snd e) = Some f" for mo e and f :: "'a reconcile_func"
  proof -
    have "mo_reconcile mo = Some f" using that managed_of_simps(2) unfolding stands_for_def by metis
    then show "Reconcile mo = f" by (intro ext) (simp add: Reconcile_def)
    show "kind_of (GetObject mo s) = kind_of (fst e)" using that by (simp add: stands_for_def)
  qed
  have some: "\<exists>f. moc_reconcile (snd e) = Some f"
    if "e \<in> set (mcp_entries x obj images (bp_crds u)) \<union> set (workload_entries x r obj pc images cc (bp_poll u) (service_account_of u))" for e
    using that by (auto simp: mcp_entries_def workload_entries_def namespace_entry_def service_account_entry_def
      crd_entry_def role_binding_entry_def deployment_entry_def token_entry_def pull_secret_entry_def)
  show "mo \<in> set (mc_objects (bp_mcp u)) \<Longrightarrow> gentle live N (kind_of (GetObject mo s)) (Reconcile mo)"
    using pick[OF _ l(1)] some rc mcp_entry_gentle by (metis UnI1)
  show "mo \<in> set (mc_objects (bp_workload u)) \<Longrightarrow>
      gentle live (insert (account_item cc) (pull_sources r pc)) (kind_of (GetObject mo s)) (Reconcile mo)"
    using pick[OF _ l(2)] some rc workload_entry_gentle[OF env cfg] by (metis UnI2)
qed

lemma run_others_kept:
  assumes "run_targets x iid D False ts s = Some (rs, s')" "\<forall>t \<in> set ts. well_behaved R (snd t)"
    "distinct (map (mo_ref \<circ> snd) ts)" "mo_ref mo \<notin> (mo_ref \<circ> snd) ` set ts"
  shows "GetObject mo s' = GetObject mo s"
  using run_apply_steps[OF assms(1-3)] assms(4) unfolding GetObject_def by blast

lemma other_ref: "f ` S \<inter> (mo_ref \<circ> snd) ` T = {} \<Longrightarrow> t \<in> T \<Longrightarrow> mo_ref (snd t) \<notin> f ` S"
  by (auto simp: disjoint_iff)

lemma items_kept:
  assumes "\<forall>t \<in> set ts. GetObject (snd t) s' = GetObject (snd t) s"
  shows "map (item_of s') ts = map (item_of s) ts" "item_of s' ` set ts = item_of s ` set ts"
  using assms by (auto simp: item_of_def)

text \<open>When the first object of a run is refused, the others are still written.\<close>

lemma run_apply_first_refused:
  assumes env: "writes_at_once x live" and run: "run_targets x iid D False (t # ts) s = Some (rs, s')"
    and wb: "\<forall>t \<in> set (t # ts). well_behaved R (snd t) \<and> gentle live N (kind_of (GetObject (snd t) s)) (Reconcile (snd t))"
    and dist: "distinct (map (mo_ref \<circ> snd) (t # ts))" and need: "N \<subseteq> live (world s)"
    and ref: "\<not> admitted (live (world s)) (item_of s t)" and adm: "all_admitted (live (world s)) (map (item_of s) ts)"
  shows "(\<exists>r \<in> set rs. res_error r \<noteq> None) \<and> live (world s') = live (world s) \<union> item_of s ` set ts"
proof -
  obtain mc mo where t: "t = (mc, mo)" by force
  from run t obtain r1 s1 rs' where r1: "reconcileObject x iid mc mo D False s = Some (r1, s1)"
    and rs': "run_targets x iid D False ts s1 = Some (rs', s')" "rs = r1 # rs'" by auto
  have w1: "well_behaved R mo" "gentle live N (kind_of (GetObject mo s)) (Reconcile mo)" using wb t by simp_all
  have one: "res_error r1 \<noteq> None" "live (world s1) = live (world s)"
    using apply_object_live(2)[OF env r1 w1 need] ref t by simp_all
  have kept: "\<forall>u \<in> set ts. GetObject (snd u) s1 = GetObject (snd u) s"
  proof
    fix u assume "u \<in> set ts"
    moreover have "mo_ref mo \<notin> (mo_ref \<circ> snd) ` set ts" using dist t by (simp add: comp_def)
    ultimately have "mo_ref (snd u) \<noteq> mo_ref mo" by (metis comp_apply imageI)
    with apply_object_spec(4)[OF r1 w1(1)] show "GetObject (snd u) s1 = GetObject (snd u) s" by (simp add: GetObject_def)
  qed
  have "\<forall>u \<in> set ts. well_behaved R (snd u) \<and> gentle live N (kind_of (GetObject (snd u) s1)) (Reconcile (snd u))"
    using wb kept by simp
  moreover have "distinct (map (mo_ref \<circ> snd) ts)" using dist by simp
  ultimately have "live (world s') = live (world s1) \<union> item_of s ` set ts"
    using run_apply_live[OF env rs'(1)] need adm unfolding one(2) items_kept[OF kept] by auto
  with one rs'(2) show ?thesis by simp
qed

text \<open>The two halves of an update: the control plane's targets and the workload's.\<close>

lemma set_up_halves:
  assumes env: "writes_at_once x live" "sets_label x" "mutates_secret x" and cfg: "ch_rest (cc_mcp cc) \<noteq> None"
    and su: "set_up x r obj pc images cc u m s" and fr: "fresh_manager r"
  defines "nsi \<equiv> namespace_item cc (GetID (v_meta obj))" and "toki \<equiv> token_item cc (GetID (v_meta obj))"
    and "R \<equiv> closure_requests r pc cc" and "N \<equiv> insert (account_item cc) (pull_sources r pc)"
  obtains A B rest where "targets m = A @ B"
    and "\<forall>t \<in> set A. well_behaved R (snd t) \<and> gentle live {} (kind_of (GetObject (snd t) s)) (Reconcile (snd t))"
    and "\<forall>t \<in> set B. well_behaved R (snd t) \<and> gentle live N (kind_of (GetObject (snd t) s)) (Reconcile (snd t))"
    and "\<forall>L. all_admitted L (map (item_of s) A)"
    and "map (item_of s) B = toki # nsi # rest" "\<forall>L. all_admitted (insert nsi L) rest"
    and "item_of s ` set A \<union> item_of s ` set B = inventory_items x pc cc (GetID (v_meta obj))"
    and "account_item cc \<in> item_of s ` set A" "nsi \<notin> item_of s ` set A"
proof -
  note st = set_up_targets[OF su fr] and gent = set_up_gentle[OF env(1) cfg su fr]
  define A where "A = map (Pair (bp_mcp u)) (mc_objects (bp_mcp u))"
  define B where "B = map (Pair (bp_workload u)) (mc_objects (bp_workload u))"
  have AB: "targets m = A @ B" using st(1) by (simp add: A_def B_def)
  have wb: "\<forall>t \<in> set (targets m). well_behaved R (snd t)"
    using set_up_well_behaved[OF env(2,3) su fr] unfolding R_def by auto
  have iA: "map (item_of s) A = map (item_entry (cc_mcp cc)) (mcp_entries x obj images (bp_crds u))"
    using items_of_entries[of s "mc_objects (bp_mcp u)" _ "bp_mcp u"] su by (simp add: set_up_def A_def)
  have iB: "map (item_of s) B = map (item_entry (cc_workload cc))
      (workload_entries x r obj pc images cc (bp_poll u) (service_account_of u))"
    using items_of_entries[of s "mc_objects (bp_workload u)" _ "bp_workload u"] su by (simp add: set_up_def B_def)
  obtain rest where rest: "map (item_entry (cc_workload cc)) (workload_entries x r obj pc images cc (bp_poll u) (service_account_of u))
      = toki # nsi # rest" "\<forall>L. all_admitted (insert nsi L) rest"
    using workload_items[of cc x r obj pc images "bp_poll u" "service_account_of u"] unfolding nsi_def toki_def by (elim exE conjE)
  have iset: "item_of s ` set A = set (map (item_entry (cc_mcp cc)) (mcp_entries x obj images (bp_crds u)))"
    by (simp only: iA[symmetric] set_map)
  show thesis
  proof (rule that[OF AB, of rest])
    show "\<forall>t \<in> set A. well_behaved R (snd t) \<and> gentle live {} (kind_of (GetObject (snd t) s)) (Reconcile (snd t))"
      using wb gent(1) unfolding AB by (auto simp: A_def)
    show "\<forall>t \<in> set B. well_behaved R (snd t) \<and> gentle live N (kind_of (GetObject (snd t) s)) (Reconcile (snd t))"
      using wb gent(2) unfolding AB by (auto simp: B_def N_def)
    show "\<forall>L. all_admitted L (map (item_of s) A)" unfolding iA by (intro allI mcp_items_admitted)
    show "map (item_of s) B = toki # nsi # rest" unfolding iB rest(1) by (rule refl)
    show "\<forall>L. all_admitted (insert nsi L) rest" by (rule rest(2))
    show "item_of s ` set A \<union> item_of s ` set B = inventory_items x pc cc (GetID (v_meta obj))"
      using set_up_all_items[OF su fr] unfolding AB set_append image_Un .
    show "account_item cc \<in> item_of s ` set A"
      unfolding iset by (simp add: mcp_entries_def item_entry_def service_account_entry_def account_item_def server_account_def)
    show "nsi \<notin> item_of s ` set A"
      unfolding iset by (auto simp: mcp_entries_def item_entry_def nsi_def namespace_item_def namespace_entry_def
        service_account_entry_def crd_entry_def role_binding_entry_def deployment_entry_def)
  qed
qed

text \<open>The pass over the targets: everything but the token secret is written in any case.\<close>

lemma run_set_up:
  assumes env: "writes_at_once x live" "sets_label x" "mutates_secret x" and cfg: "ch_rest (cc_mcp cc) \<noteq> None"
    and su: "set_up x r obj pc images cc u m s" and fr: "fresh_manager r"
    and src: "pull_sources r pc \<subseteq> live (world s)"
    and run: "run_targets x iid D False (targets m) s = Some (rs, s')"
  defines "nsi \<equiv> namespace_item cc (GetID (v_meta obj))" and "toki \<equiv> token_item cc (GetID (v_meta obj))"
    and "ivs \<equiv> inventory_items x pc cc (GetID (v_meta obj))"
  shows "nsi \<in> live (world s) \<Longrightarrow> (\<forall>r \<in> set rs. res_error r = None) \<and> live (world s') = live (world s) \<union> ivs
      \<and> (replies_ready x \<longrightarrow> (\<forall>t \<in> set (targets m). certified_ready (GetObject (snd t) s')))"
    and "nsi \<notin> live (world s) \<Longrightarrow> (\<exists>r \<in> set rs. res_error r \<noteq> None)"
    and "live (world s) \<union> (ivs - {toki}) \<subseteq> live (world s')"
proof -
  obtain A B rest where AB: "targets m = A @ B"
    and gA: "\<forall>t \<in> set A. well_behaved (closure_requests r pc cc) (snd t)
      \<and> gentle live {} (kind_of (GetObject (snd t) s)) (Reconcile (snd t))"
    and gB: "\<forall>t \<in> set B. well_behaved (closure_requests r pc cc) (snd t)
      \<and> gentle live (insert (account_item cc) (pull_sources r pc)) (kind_of (GetObject (snd t) s)) (Reconcile (snd t))"
    and adA: "\<forall>L. all_admitted L (map (item_of s) A)"
    and iB: "map (item_of s) B = toki # nsi # rest" and adR: "\<forall>L. all_admitted (insert nsi L) rest"
    and items: "item_of s ` set A \<union> item_of s ` set B = ivs"
    and acc: "account_item cc \<in> item_of s ` set A" and nsA: "nsi \<notin> item_of s ` set A"
    by (rule set_up_halves[OF env cfg su fr, folded nsi_def toki_def ivs_def])
  have wA: "\<forall>t \<in> set A. well_behaved (closure_requests r pc cc) (snd t)"
    and wB: "\<forall>t \<in> set B. well_behaved (closure_requests r pc cc) (snd t)" using gA gB by blast+
  have dist: "distinct (map (mo_ref \<circ> snd) A)" "distinct (map (mo_ref \<circ> snd) B)"
    and disj: "(mo_ref \<circ> snd) ` set A \<inter> (mo_ref \<circ> snd) ` set B = {}"
    using set_up_targets(4)[OF su fr] unfolding AB by (simp_all only: map_append distinct_append set_map)
  from run obtain rsA sA rsB where rA: "run_targets x iid D False A s = Some (rsA, sA)"
    and rB: "run_targets x iid D False B sA = Some (rsB, s')" and rs: "rs = rsA @ rsB"
    unfolding AB run_targets_append by (auto simp: bind_eq_Some_conv)
  have A: "\<forall>r \<in> set rsA. res_error r = None" "live (world sA) = live (world s) \<union> item_of s ` set A"
    "replies_ready x \<Longrightarrow> \<forall>t \<in> set A. certified_ready (GetObject (snd t) sA)"
    using run_apply_live[OF env(1) rA gA dist(1) empty_subsetI spec[OF adA]] by simp_all
  have keptB: "\<forall>t \<in> set B. GetObject (snd t) sA = GetObject (snd t) s"
    by (intro ballI run_others_kept[OF rA wA dist(1)] other_ref[OF disj])
  have keptA: "\<forall>t \<in> set A. GetObject (snd t) s' = GetObject (snd t) sA"
    by (intro ballI run_others_kept[OF rB wB dist(2)] other_ref[OF disj[unfolded Int_commute[of "_ ` set A"]]])
  note itB = items_kept[OF keptB]
  have gB2: "\<forall>t \<in> set B. well_behaved (closure_requests r pc cc) (snd t)
      \<and> gentle live (insert (account_item cc) (pull_sources r pc)) (kind_of (GetObject (snd t) sA)) (Reconcile (snd t))"
    using gB keptB by simp
  have need: "insert (account_item cc) (pull_sources r pc) \<subseteq> live (world sA)" using src A(2) acc by auto
  have adm: "admitted L toki \<longleftrightarrow> nsi \<in> L" "admitted L nsi" for L
    by (simp_all add: admitted_def toki_def token_item_def nsi_def namespace_item_def)
  have full: "(\<forall>r \<in> set rs. res_error r = None) \<and> live (world s') = live (world s) \<union> ivs
      \<and> (replies_ready x \<longrightarrow> (\<forall>t \<in> set (targets m). certified_ready (GetObject (snd t) s')))" if ns: "nsi \<in> live (world s)"
  proof -
    have "all_admitted (live (world sA)) (map (item_of sA) B)"
      unfolding itB iB using adm spec[OF adR, of "insert toki (live (world sA))"] ns A(2) by simp
    note Bok = run_apply_live[OF env(1) rB gB2 dist(2) need this, unfolded itB]
    have "replies_ready x \<Longrightarrow> \<forall>t \<in> set A. certified_ready (GetObject (snd t) s')" using A(3) keptA by simp
    with A(1,2) Bok items show ?thesis unfolding AB rs by auto
  qed
  then show "nsi \<in> live (world s) \<Longrightarrow> (\<forall>r \<in> set rs. res_error r = None) \<and> live (world s') = live (world s) \<union> ivs
      \<and> (replies_ready x \<longrightarrow> (\<forall>t \<in> set (targets m). certified_ready (GetObject (snd t) s')))" .
  have part: "(\<exists>r \<in> set rs. res_error r \<noteq> None) \<and> live (world s) \<union> (ivs - {toki}) \<subseteq> live (world s')" if ns: "nsi \<notin> live (world s)"
  proof -
    obtain tok B' where B: "B = tok # B'" "item_of sA tok = toki" "map (item_of sA) B' = nsi # rest"
      using iB itB(1) by (cases B) auto
    have "\<not> admitted (live (world sA)) (item_of sA tok)" using adm(1) ns nsA A(2) B(2) by simp
    moreover have "all_admitted (live (world sA)) (map (item_of sA) B')" unfolding B(3) using adm(2) adR by simp
    ultimately have "(\<exists>r \<in> set rsB. res_error r \<noteq> None) \<and> live (world s') = live (world sA) \<union> item_of sA ` set B'"
      by (rule run_apply_first_refused[OF env(1) rB[unfolded B(1)] gB2[unfolded B(1)] dist(2)[unfolded B(1)] need])
    moreover have "ivs - {toki} \<subseteq> item_of s ` set A \<union> item_of sA ` set B'"
      using items itB(2) B(1,2) by auto
    ultimately show ?thesis using A(2) rs by auto
  qed
  then show "nsi \<notin> live (world s) \<Longrightarrow> \<exists>r \<in> set rs. res_error r \<noteq> None" by blast
  show "live (world s) \<union> (ivs - {toki}) \<subseteq> live (world s')" using full part by blast
qed

lemma all_ready_iff:
  assumes su: "set_up x r obj pc images cc u m s" and fr: "fresh_manager r"
    and map_rs: "map (\<lambda>r. (res_cluster r, res_object r)) rs = targets m" and sk: "same_kinds s s'"
    and rr: "resultsToResources rs s' = Some (mrs, bad)"
  shows "allResourcesReady mrs \<longleftrightarrow> (\<forall>t \<in> set (targets m). certified_ready (GetObject (snd t) s'))"
proof -
  note rep = resultsToResources_reports[OF rr]
  have entry: "\<exists>e \<in> set (mcp_entries x obj images (bp_crds u)) \<union>
      set (workload_entries x r obj pc images cc (bp_poll u) (service_account_of u)). stands_for s (snd t) e" if "t \<in> set (targets m)" for t
    using set_up_target_cases[OF su fr that] by (metis UnCI)
  have status: "s_phase st' = Ready \<longleftrightarrow> certified_ready (GetObject (snd t) s')"
    if t: "t \<in> set (targets m)" "GetStatus (snd t) rl s' = Some st'" for t rl st'
    using entry[OF t(1)] ready_certified[OF _ _ sk t(2)] certified_status[OF _ _ sk _ t(2)] by blast
  show ?thesis unfolding allResourcesReady_iff
  proof
    assume all: "\<forall>mr \<in> set mrs. mr_phase mr = Ready"
    show "\<forall>t \<in> set (targets m). certified_ready (GetObject (snd t) s')"
    proof
      fix t assume t: "t \<in> set (targets m)"
      then obtain a where a: "a \<in> set rs" "t = (res_cluster a, res_object a)" using map_rs by (metis (no_types, lifting) imageE list.set_map)
      then obtain mr where "mr \<in> set mrs" "reports s' a mr" using rep by (metis in_set_conv_nth list_all2_conv_all_nth)
      with all obtain st' where "GetStatus (snd t) (cluster_location (mc_type (fst t))) s' = Some st'" "s_phase st' = Ready"
        by (auto simp: reports_def a(2))
      with status[OF t] show "certified_ready (GetObject (snd t) s')" by blast
    qed
  next
    assume cert: "\<forall>t \<in> set (targets m). certified_ready (GetObject (snd t) s')"
    show "\<forall>mr \<in> set mrs. mr_phase mr = Ready"
    proof
      fix mr assume "mr \<in> set mrs"
      then obtain a where a: "a \<in> set rs" "reports s' a mr" using rep by (metis in_set_conv_nth list_all2_conv_all_nth)
      then have t: "(res_cluster a, res_object a) \<in> set (targets m)" using results_in_targets[OF map_rs] by blast
      from a(2) obtain st' where "GetStatus (res_object a) (cluster_location (mc_type (res_cluster a))) s' = Some st'" "mr_phase mr = s_phase st'"
        by (auto simp: reports_def)
      with status[OF t] cert t show "mr_phase mr = Ready" by fastforce
    qed
  qed
qed

text \<open>
  What a call reports once nothing stands in its way: readiness exactly if every managed object
  is ready as its write was answered, and otherwise that it is to be called again.
\<close>

definition settled_outcome :: "'w ext \<Rightarrow> velero \<Rightarrow> 'w manager \<Rightarrow> 'w st \<Rightarrow> velero \<times> ctrl_result \<times> error option \<Rightarrow> bool" where
  "settled_outcome x obj m s' out \<longleftrightarrow> (\<exists>mrs. map (\<lambda>mr. (mr_kind mr, mr_name mr)) mrs
       = map (\<lambda>t. (kind_of (GetObject (snd t) s'), get_name (GetObject (snd t) s'))) (targets m)
     \<and> (allResourcesReady mrs \<longleftrightarrow> (\<forall>t \<in> set (targets m). certified_ready (GetObject (snd t) s')))
     \<and> out = (if allResourcesReady mrs then (x_status_ready x (set_resources obj mrs), no_requeue, None)
         else (x_status_progressing x (set_resources obj mrs) ''Reconciling'' ''Reconcile in progress'', requeue_10s, None)))"

lemma settled_no_error: "settled_outcome x obj m s' (obj', res, e) \<Longrightarrow> e = None"
  unfolding settled_outcome_def by (auto split: if_splits)

lemma settled_ready:
  assumes "settled_outcome x obj m s' out" "\<forall>t \<in> set (targets m). certified_ready (GetObject (snd t) s')"
  shows "\<exists>mrs. allResourcesReady mrs \<and> out = (x_status_ready x (set_resources obj mrs), no_requeue, None)"
  using assms unfolding settled_outcome_def by auto

lemma update_call:
  assumes env: "writes_at_once x live" "deletes_cleanly x live" "sets_label x" "mutates_secret x"
    and cfg: "ch_rest (cc_mcp cc) \<noteq> None" and fr: "fresh_manager r" and ac: "accepted x pc obj"
    and src: "pull_sources r pc \<subseteq> live (world s)"
  obtains obj' res e s' m s1 where "reconciler_CreateOrUpdate x r obj pc cc s = Some ((obj', res, e), s')"
    "createObjectManager x r obj pc cc s = Some ((obj, Inr m), s1)"
    "namespace_item cc (GetID (v_meta obj)) \<in> live (world s) \<Longrightarrow>
       settled_outcome x obj m s' (obj', res, e) \<and> inventory_items x pc cc (GetID (v_meta obj)) \<subseteq> live (world s')
       \<and> (replies_ready x \<longrightarrow> (\<forall>t \<in> set (targets m). certified_ready (GetObject (snd t) s')))"
    "namespace_item cc (GetID (v_meta obj)) \<notin> live (world s) \<Longrightarrow> e \<noteq> None"
    "(live (world s) - unwanted cc pc) \<union> (inventory_items x pc cc (GetID (v_meta obj)) - {token_item cc (GetID (v_meta obj))})
       \<subseteq> live (world s')"
proof -
  define ivs where "ivs = inventory_items x pc cc (GetID (v_meta obj))"
  obtain m s1 images u where c: "createObjectManager x r obj pc cc s = Some ((obj, Inr m), s1)"
    and su: "set_up x r obj pc images cc u m s1" and w: "world s1 = world s"
    by (rule createObjectManager_accepted[OF ac])
  note st = set_up_targets[OF su fr]
  obtain rs ae s3 mrs bad where a: "Apply x m s1 = Some ((rs, ae), s3)" and rr: "resultsToResources rs s3 = Some (mrs, bad)"
    using Apply_total[OF su fr env(3,4) cfg] by (metis not_None_eq surj_pair)
  from a obtain rs1 s2 where
    run: "run_targets x (mgr_instance_id m) (getDependents m) False (targets m) s1 = Some (rs1, s2)"
    and cl: "run_cleaners (mgr_cleaners m) rs1 s2 = ((rs, ae), s3)"
    by (auto simp: Apply_def reconcileObjects_targets)
  have "mc_cluster (bp_workload u) = cc_workload cc" using su by (simp add: set_up_def)
  from cleaner_live[OF env(2) this, of "InstanceNamespace obj" pc s2] cl st(3)
  have k: "rs = rs1" "ae = None" "store s3 = store s2" "live (world s2) - unwanted cc pc \<subseteq> live (world s3)" by auto
  have same: "GetObject mo s3 = GetObject mo s2" for mo by (simp add: GetObject_def k(3))
  note steps = run_apply_steps[OF run set_up_well_behaved[OF env(3,4) su fr] st(4)]
  have map_rs: "map (\<lambda>r. (res_cluster r, res_object r)) rs = targets m" and sk: "same_kinds s1 s3"
    using steps k(1,3) by (auto simp: same_kinds_def)
  note pass = run_set_up[OF env(1,3,4) cfg su fr _ run, unfolded w, OF src, folded ivs_def]
  have bad: "bad \<longleftrightarrow> (\<exists>r \<in> set rs1. res_error r \<noteq> None)" using resultsToResources_bad[OF rr] k(1) by simp
  have kinds: "map (\<lambda>mr. (mr_kind mr, mr_name mr)) mrs
      = map (\<lambda>t. (kind_of (GetObject (snd t) s3), get_name (GetObject (snd t) s3))) (targets m)"
  proof -
    have "map (\<lambda>mr. (mr_kind mr, mr_name mr)) mrs
        = map (\<lambda>a. (kind_of (GetObject (res_object a) s3), get_name (GetObject (res_object a) s3))) rs"
      using resultsToResources_reports[OF rr] by (induction rule: list_all2_induct) (auto simp: reports_def)
    then show ?thesis unfolding map_rs[symmetric] by (simp add: comp_def)
  qed
  have "\<exists>obj' res e. reconciler_CreateOrUpdate x r obj pc cc s = Some ((obj', res, e), s3)
      \<and> (bad \<longrightarrow> e \<noteq> None) \<and> (\<not> bad \<longrightarrow> settled_outcome x obj m s3 (obj', res, e))"
    unfolding reconciler_CreateOrUpdate_def settled_outcome_def
    using all_ready_iff[OF su fr map_rs sk rr] kinds by (auto simp: c a rr k(2) Let_def)
  then obtain obj' res e where h: "reconciler_CreateOrUpdate x r obj pc cc s = Some ((obj', res, e), s3)"
    and out: "bad \<Longrightarrow> e \<noteq> None" "\<not> bad \<Longrightarrow> settled_outcome x obj m s3 (obj', res, e)" by blast
  show thesis
  proof (rule that[OF h c])
    assume ns: "namespace_item cc (GetID (v_meta obj)) \<in> live (world s)"
    note p = pass(1)[OF ns]
    have "inventory_items x pc cc (GetID (v_meta obj)) \<subseteq> live (world s3)"
      using p k(4) inventory_wanted[of x pc cc "GetID (v_meta obj)"] unfolding ivs_def by blast
    moreover have "\<not> bad" using p bad by simp
    ultimately show "settled_outcome x obj m s3 (obj', res, e) \<and> inventory_items x pc cc (GetID (v_meta obj)) \<subseteq> live (world s3)
       \<and> (replies_ready x \<longrightarrow> (\<forall>t \<in> set (targets m). certified_ready (GetObject (snd t) s3)))"
      using out(2) p unfolding same by blast
  next
    assume "namespace_item cc (GetID (v_meta obj)) \<notin> live (world s)"
    then show "e \<noteq> None" using pass(2) bad out(1) by blast
  next
    show "(live (world s) - unwanted cc pc) \<union> (inventory_items x pc cc (GetID (v_meta obj)) - {token_item cc (GetID (v_meta obj))})
       \<subseteq> live (world s3)"
      using pass(3) k(4) inventory_wanted[of x pc cc "GetID (v_meta obj)"] unfolding ivs_def by blast
  qed
qed

text \<open>
  C8. Updates get done. Let the version and the images of the resource be accepted, with its id
  stored, the pull secrets in place on the platform cluster, and the control plane have a REST
  configuration; let servers take writes and deletions at once but refuse an object whose
  namespace does not exist. Then the first call of the update handler reports an error exactly
  if the instance namespace does not exist yet on the workload cluster, since the token secret
  is written before that namespace; it creates everything else. The second call creates what
  is left, fails nowhere, lists every managed object in the status, and reports readiness
  exactly if each of them was ready in the answer to its write; otherwise, say while pods come up, it asks to
  be called again. On servers whose answers show the objects ready it reports readiness.
\<close>

theorem update_finishes:
  assumes "writes_at_once x live" "deletes_cleanly x live" "sets_label x" "mutates_secret x"
    and "ch_rest (cc_mcp cc) \<noteq> None" "fresh_manager r" "accepted x pc obj" "pull_sources r pc \<subseteq> live (world s)"
  shows "\<exists>o1 r1 e1 s1 m s0 out s2.
      reconciler_CreateOrUpdate x r obj pc cc s = Some ((o1, r1, e1), s1)
    \<and> (e1 = None \<longleftrightarrow> namespace_item cc (GetID (v_meta obj)) \<in> live (world s))
    \<and> inventory_items x pc cc (GetID (v_meta obj)) - {token_item cc (GetID (v_meta obj))} \<subseteq> live (world s1)
    \<and> createObjectManager x r obj pc cc s1 = Some ((obj, Inr m), s0)
    \<and> reconciler_CreateOrUpdate x r obj pc cc s1 = Some (out, s2)
    \<and> settled_outcome x obj m s2 out
    \<and> inventory_items x pc cc (GetID (v_meta obj)) \<subseteq> live (world s2)
    \<and> (replies_ready x \<longrightarrow>
         (\<exists>mrs. allResourcesReady mrs \<and> out = (x_status_ready x (set_resources obj mrs), no_requeue, None)))"
proof -
  define iid where "iid = GetID (v_meta obj)"
  obtain o1 r1 e1 s1 where c1: "reconciler_CreateOrUpdate x r obj pc cc s = Some ((o1, r1, e1), s1)"
    and e1: "namespace_item cc iid \<in> live (world s) \<Longrightarrow> e1 = None" "namespace_item cc iid \<notin> live (world s) \<Longrightarrow> e1 \<noteq> None"
    and l1: "(live (world s) - unwanted cc pc) \<union> (inventory_items x pc cc iid - {token_item cc iid}) \<subseteq> live (world s1)"
    unfolding iid_def by (rule update_call[OF assms]) (use settled_no_error in blast)
  have "pull_sources r pc \<subseteq> live (world s1)" using l1 assms(8) sources_wanted[of r pc cc] by blast
  note second = update_call[OF assms(1-7) this, folded iid_def]
  have "(WorkloadCluster, ''Namespace'', ([], ''velero-'' @ iid), Delete) \<in> managed_items x pc iid"
    by (simp add: managed_items_def inventory_def)
  then have "namespace_item cc iid \<in> inventory_items x pc cc iid"
    unfolding inventory_items_def by (rule rev_image_eqI) (simp add: namespace_item_def cluster_id_def)
  moreover have "namespace_item cc iid \<noteq> token_item cc iid" by (simp add: namespace_item_def token_item_def)
  ultimately have ns: "namespace_item cc iid \<in> live (world s1)" using l1 by blast
  obtain o2 r2 e2 s2 m s0 where c2: "reconciler_CreateOrUpdate x r obj pc cc s1 = Some ((o2, r2, e2), s2)"
    "createObjectManager x r obj pc cc s1 = Some ((obj, Inr m), s0)"
    and rd: "settled_outcome x obj m s2 (o2, r2, e2)" "inventory_items x pc cc iid \<subseteq> live (world s2)"
      "replies_ready x \<Longrightarrow> \<forall>t \<in> set (targets m). certified_ready (GetObject (snd t) s2)"
    using ns by (rule_tac second) blast
  have "\<exists>mrs. allResourcesReady mrs \<and> (o2, r2, e2) = (x_status_ready x (set_resources obj mrs), no_requeue, None)" if "replies_ready x"
    by (rule settled_ready[OF rd(1) rd(3)[OF that]])
  with c1 c2 e1 l1 rd(1,2) show ?thesis unfolding iid_def[symmetric] by blast
qed

end
