(* ===== verification/Version_Gate.thy ===== *)
theory Version_Gate
  imports Handlers
begin

text \<open>
  Which versions and images the controller accepts: the lookup in the provider configuration
  against a declarative reference, the supported version window, and how a plugin entry
  called \<open>velero\<close> gets around it.
\<close>

subsection \<open>Image lookup\<close>

lemma find_version_spec: "find_version img v vs = (if v \<in> set vs then Some (img @ '':'' @ v) else None)"
  by (induction vs) auto

definition offered :: "provider_config \<Rightarrow> string \<Rightarrow> string \<Rightarrow> available_images option" where
  "offered pc name v = find (\<lambda>ai. ai_name ai = name \<and> v \<in> set (ai_versions ai)) (pc_images pc)"

lemma resolve_in_find:
  "resolve_in name v ais =
     (case find (\<lambda>ai. ai_name ai = name \<and> v \<in> set (ai_versions ai)) ais of
        None \<Rightarrow> [] | Some ai \<Rightarrow> ai_image ai @ '':'' @ v)"
  by (induction ais) (auto simp: find_version_spec)

lemma resolveImage_offered:
  "resolveImage name v pc = (case offered pc name v of None \<Rightarrow> [] | Some ai \<Rightarrow> ai_image ai @ '':'' @ v)"
  by (simp add: resolveImage_def resolve_in_find offered_def)

lemma resolveImage_empty_iff: "resolveImage name v pc = [] \<longleftrightarrow> offered pc name v = None"
  by (simp add: resolveImage_offered split: option.splits)

text \<open>The last of several requests for one component decides.\<close>

definition last_request :: "velero_plugin list \<Rightarrow> string \<Rightarrow> velero_plugin option" where
  "last_request plugins name = find (\<lambda>p. vp_name p = name) (rev plugins)"

lemma find_append: "find P (as @ bs) = (case find P as of None \<Rightarrow> find P bs | Some a \<Rightarrow> Some a)"
  by (induction as) auto

lemma last_request_Cons:
  "last_request (p # ps) name =
     (case last_request ps name of None \<Rightarrow> if vp_name p = name then Some p else None | Some q \<Rightarrow> Some q)"
  by (auto simp: last_request_def find_append split: option.splits)

lemma resolve_plugins_spec:
  "resolve_plugins plugins pc res =
     (if \<exists>p \<in> set plugins. offered pc (vp_name p) (vp_version p) = None then None
      else Some (\<lambda>name. case last_request plugins name of
             None \<Rightarrow> res name | Some p \<Rightarrow> Some (resolveImage name (vp_version p) pc)))"
proof (induction plugins arbitrary: res)
  case Nil
  then show ?case by (simp add: last_request_def)
next
  case (Cons p plugins)
  then show ?case
    by (auto simp: resolveImage_empty_iff last_request_Cons fun_eq_iff Let_def split: option.splits)
qed

text \<open>
  C19. Images. Resolution succeeds exactly if the provider configuration offers the requested
  version of the server and of every plugin. Each component then gets the image of the first
  entry that offers it, tagged with the requested version, the last of several requests for
  one name deciding; so a plugin entry named \<open>velero\<close> replaces the server's own image.
\<close>

theorem resolve_images_spec:
  "resolveImages vs pc =
     (if offered pc ''velero'' (vs_version vs) = None
         \<or> (\<exists>p \<in> set (vs_plugins vs). offered pc (vp_name p) (vp_version p) = None) then None
      else Some (\<lambda>name. case last_request (vs_plugins vs) name of
             Some p \<Rightarrow> map_option (\<lambda>ai. ai_image ai @ '':'' @ vp_version p) (offered pc name (vp_version p))
           | None \<Rightarrow> if name = ''velero''
               then map_option (\<lambda>ai. ai_image ai @ '':'' @ vs_version vs) (offered pc ''velero'' (vs_version vs))
               else None))"
proof -
  have last: "last_request ps name = Some p \<Longrightarrow> p \<in> set ps \<and> vp_name p = name" for ps name p
    by (auto simp: last_request_def find_Some_iff) (metis length_rev nth_mem set_rev)
  show ?thesis
  proof (cases "offered pc ''velero'' (vs_version vs) = None \<or> (\<exists>p \<in> set (vs_plugins vs). offered pc (vp_name p) (vp_version p) = None)")
    case True
    then show ?thesis by (auto simp: resolveImages_def resolveImage_empty_iff resolve_plugins_spec Let_def)
  next
    case False
    then obtain server where server: "offered pc ''velero'' (vs_version vs) = Some server" by auto
    have "(case last_request (vs_plugins vs) name of
             None \<Rightarrow> [''velero'' \<mapsto> resolveImage ''velero'' (vs_version vs) pc] name
           | Some p \<Rightarrow> Some (resolveImage name (vp_version p) pc)) =
        (case last_request (vs_plugins vs) name of
             Some p \<Rightarrow> map_option (\<lambda>ai. ai_image ai @ '':'' @ vp_version p) (offered pc name (vp_version p))
           | None \<Rightarrow> if name = ''velero''
               then map_option (\<lambda>ai. ai_image ai @ '':'' @ vs_version vs) (offered pc ''velero'' (vs_version vs))
               else None)" for name
    proof (cases "last_request (vs_plugins vs) name")
      case None
      then show ?thesis by (simp add: server resolveImage_offered)
    next
      case (Some p)
      with last False obtain ai where "offered pc name (vp_version p) = Some ai" by fastforce
      with Some show ?thesis by (simp add: resolveImage_offered)
    qed
    with False show ?thesis
      by (simp add: resolveImages_def resolveImage_empty_iff resolve_plugins_spec Let_def)
  qed
qed

subsection \<open>The version window\<close>

text \<open>
  What the reconciler goes on with after the id is ensured: the resource itself when it has an
  id, otherwise what the API server answered to the update that stores the generated one.
\<close>

definition answered_by :: "'w ext \<Rightarrow> 'w velero_reconciler \<Rightarrow> velero \<Rightarrow> 'w \<Rightarrow> velero \<Rightarrow> bool" where
  "answered_by x r obj w obj1 = (if GetID (v_meta obj) \<noteq> [] then obj1 = obj
     else fst (x_update_velero x (ch_id (vr_onboarding r)) (SetID obj (GenerateID obj)) w) = obj1)"

lemma ensureInstanceID_answered:
  assumes "ensureInstanceID x r obj s = ((obj1, e), s1)"
  shows "answered_by x r obj (world s) obj1"
  using assms by (auto simp: answered_by_def ensureInstanceID_def k_update_velero_def split: prod.splits option.splits if_splits)

lemma server_image:
  assumes "resolveImages vs pc = Some images" "''velero'' \<notin> vp_name ` set (vs_plugins vs)"
  shows "\<exists>ai \<in> set (pc_images pc). ai_name ai = ''velero'' \<and> map_get (Some images) ''velero'' = ai_image ai @ '':'' @ vs_version vs"
proof -
  have "last_request (vs_plugins vs) ''velero'' = None"
    using assms(2) by (auto simp: last_request_def find_None_iff image_iff)
  moreover have off: "offered pc ''velero'' (vs_version vs) \<noteq> None"
    using assms(1) by (auto simp: resolveImages_def resolveImage_empty_iff Let_def split: if_splits)
  ultimately have "images ''velero'' = Some (resolveImage ''velero'' (vs_version vs) pc)"
    using assms(1) by (auto simp: resolveImages_def resolve_plugins_spec Let_def split: if_splits)
  moreover obtain ai where ai: "offered pc ''velero'' (vs_version vs) = Some ai" using off by blast
  moreover have "ai \<in> set (pc_images pc) \<and> ai_name ai = ''velero''"
    using ai by (auto simp: offered_def find_Some_iff)
  ultimately show ?thesis by (intro bexI[of _ ai]) (simp_all add: resolveImage_offered)
qed

text \<open>
  C20. Version gate. Take any resource, with an id or without, and a parser that reads the
  supported range. If the requested version does not parse or lies outside the range
  \<open>>=1.16.0 <1.19.0\<close>, the answer is an error that wraps the invalid-input error, the resource is as
  it was, and nothing was requested or changed: no id is stored. A manager is created only for
  a version that parses and lies in the range. Its images are then those resolved from the
  resource as it is once the id is ensured, and it is set up with them; if no plugin is named
  \<open>velero\<close>, the server image among them is the configured one, tagged with exactly the version.
\<close>

theorem version_gate:
  assumes "createObjectManager x r obj pc cc s = Some ((obj1, res), s')"
    and "x_parse_range x version_range = Some window"
  shows "((\<nexists>sv. x_parse_tolerant x (vs_version (v_spec obj)) = Some sv \<and> window sv) \<longrightarrow>
        (\<exists>t. res = Inl (errorf_wrap (x_err_invalid_input x) t)) \<and> obj1 = obj \<and> s' = s)
    \<and> (\<forall>m. res = Inr m \<longrightarrow>
        (\<exists>sv images u. x_parse_tolerant x (vs_version (v_spec obj)) = Some sv \<and> window sv
           \<and> answered_by x r obj (world s) obj1 \<and> resolveImages (v_spec obj1) pc = Some images
           \<and> set_up x r obj1 pc images cc u m s'
           \<and> (''velero'' \<notin> vp_name ` set (vs_plugins (v_spec obj1)) \<longrightarrow>
               (\<exists>ai \<in> set (pc_images pc). ai_name ai = ''velero''
                  \<and> map_get (Some images) ''velero'' = ai_image ai @ '':'' @ vs_version (v_spec obj1)))))"
proof (intro conjI allI impI)
  fix m assume "res = Inr m"
  with assms(1) have "createObjectManager x r obj pc cc s = Some ((obj1, Inr m), s')" by simp
  then obtain images s1 where ok: "validateRequestedVersion x (vs_version (v_spec obj)) = Some None"
    and id: "ensureInstanceID x r obj s = ((obj1, None), s1)" and images: "resolveImages (v_spec obj1) pc = Some images"
    and built: "build_manager x r obj1 pc images cc s1 = Some (Inr m, s')" by (rule createObjectManager_Inr)
  from ok assms(2) obtain sv where "x_parse_tolerant x (vs_version (v_spec obj)) = Some sv" "window sv"
    by (auto simp: validateRequestedVersion_def split: option.splits if_splits)
  moreover obtain u where "set_up x r obj1 pc images cc u m s'" using build_manager_set_up[OF built] by blast
  ultimately show "\<exists>sv images u. x_parse_tolerant x (vs_version (v_spec obj)) = Some sv \<and> window sv
           \<and> answered_by x r obj (world s) obj1 \<and> resolveImages (v_spec obj1) pc = Some images
           \<and> set_up x r obj1 pc images cc u m s'
           \<and> (''velero'' \<notin> vp_name ` set (vs_plugins (v_spec obj1)) \<longrightarrow>
               (\<exists>ai \<in> set (pc_images pc). ai_name ai = ''velero''
                  \<and> map_get (Some images) ''velero'' = ai_image ai @ '':'' @ vs_version (v_spec obj1)))"
    using ensureInstanceID_answered[OF id] images server_image[OF images] by blast
next
  assume bad: "\<nexists>sv. x_parse_tolerant x (vs_version (v_spec obj)) = Some sv \<and> window sv"
  then have "\<exists>t. validateRequestedVersion x (vs_version (v_spec obj)) = Some (Some (errorf_wrap (x_err_invalid_input x) t))"
    using assms(2) by (auto simp: validateRequestedVersion_def split: option.splits)
  with assms(1) show "\<exists>t. res = Inl (errorf_wrap (x_err_invalid_input x) t)" "obj1 = obj" "s' = s"
    by (auto simp: createObjectManager_def)
qed

text \<open>
  C33. The gate can be passed by. For a requested version that is accepted and any other
  version the provider configuration offers for \<open>velero\<close>, however old, a resource that lists
  this version as a plugin named \<open>velero\<close> gets a manager whose server deployments run it.
\<close>

theorem version_gate_bypass:
  assumes "validateRequestedVersion x v = Some None" "offered pc ''velero'' v \<noteq> None" "offered pc ''velero'' w = Some ai"
    and "v_spec obj = \<lparr>vs_version = v, vs_plugins = [\<lparr>vp_name = ''velero'', vp_version = w\<rparr>]\<rparr>" "GetID (v_meta obj) \<noteq> []"
    and "PollInterval pc \<noteq> None" "Parse x = Some (Inr crds)"
  shows "\<exists>m s' u images. createObjectManager x r obj pc cc s = Some ((obj, Inr m), s')
    \<and> set_up x r obj pc images cc u m s'
    \<and> c_image (velero_container ''velero'' images) = ai_image ai @ '':'' @ w"
proof -
  define images where "images = [''velero'' \<mapsto> resolveImage ''velero'' w pc]"
  have im: "resolveImages (v_spec obj) pc = Some images"
    using assms(2,3) by (simp add: assms(4) resolveImages_def resolveImage_empty_iff images_def Let_def)
  obtain m s1 where b: "build_manager x r obj pc images cc s = Some (Inr m, s1)"
    using assms(6,7) by (auto simp: build_manager_eq Let_def)
  have "createObjectManager x r obj pc cc s = Some ((obj, Inr m), s1)"
    using assms(1,5) b im by (simp add: createObjectManager_def ensureInstanceID_def assms(4))
  moreover from build_manager_set_up[OF b] obtain u where "set_up x r obj pc images cc u m s1" by blast
  moreover have "c_image (velero_container ''velero'' images) = ai_image ai @ '':'' @ w"
    using assms(3) by (simp add: velero_container_def images_def veleroName_def resolveImage_offered)
  ultimately show ?thesis by blast
qed

end
