(* ===== verification/Witnesses.thy ===== *)
theory Witnesses
  imports Reference_Server Update_Liveness Version_Gate
begin

text \<open>
  The properties at concrete inputs: the reference server, one control plane, one workload
  cluster, and the resource \<open>team/backup\<close> that asks for version v1.17.2. Every hypothesis is
  discharged there, so none of the properties is vacuous.
\<close>

subsection \<open>The reference inputs meet the hypotheses\<close>

lemma ref_Parse: "Parse ref_ext = Some (Inr [(''backups.velero.io'', CrdSpec ''backups'')])"
  using Parse_at[of ref_ext 1] by (simp add: ref_ext_def is_document_def)

lemma ref_valid: "validateRequestedVersion ref_ext ''v1.17.2'' = Some None"
  by (simp add: validateRequestedVersion_def ref_ext_def ref_versions_def)

lemma ref_old: "validateRequestedVersion ref_ext ''v1.5.0'' =
    Some (Some (errorf_wrap ref_invalid '': requested version (v1.5.0) is not supported''))"
  by (simp add: validateRequestedVersion_def ref_ext_def ref_versions_def)

lemma ref_velero_simps [simp]:
  "GetID (v_meta ref_velero) = ''abc''"
  "v_spec ref_velero = \<lparr>vs_version = ''v1.17.2'', vs_plugins = []\<rparr>"
  by (simp_all add: ref_velero_def sample_velero_def)

lemma ref_config_simps [simp]:
  "PollInterval ref_config = Some minute" "pc_pull_secrets ref_config = []"
  by (simp_all add: ref_config_def PollInterval_def)

lemma ref_clusters_simps [simp]:
  "ch_rest (cc_mcp ref_clusters) \<noteq> None" "ch_id (cc_mcp ref_clusters) = ''mcp''"
  "ch_id (cc_workload ref_clusters) = ''workload''"
  by (simp_all add: ref_clusters_def ref_mcp_def ref_workload_def)

lemma ref_images: "resolveImages \<lparr>vs_version = ''v1.17.2'', vs_plugins = []\<rparr> ref_config = Some [''velero'' \<mapsto> ''img:v1.17.2'']"
  by (simp add: resolveImages_def resolveImage_def ref_config_def)

lemma ref_accepted: "accepted ref_ext ref_config ref_velero"
  by (simp add: accepted_def ref_valid ref_images ref_Parse)

lemma ref_range: "x_parse_range ref_ext version_range = Some (\<lambda>v. sv_major v = 1 \<and> 16 \<le> sv_minor v \<and> sv_minor v < 19)"
  by (simp add: ref_ext_def)

lemma ref_ignores_invalid_input: "ignores_invalid_input ref_ext"
  by (simp add: ignores_invalid_input_def ref_ext_def errorf_wrap_def ref_invalid_def)

lemma ref_deletes_cleanly: "deletes_cleanly ref_ext ref_live"
proof -
  have "x_delete ref_ext c o' w = (e, w') \<Longrightarrow> ignore_not_found e = None" for c o' w e w'
    by (auto simp: ref_ext_def ref_not_found_def ignore_not_found_def split: option.splits)
  then show ?thesis
    unfolding deletes_cleanly_def using ref_deletes_at_once by (auto simp: ref_ext_def)
qed

lemma ref_empty: "ref_live (world ref_start) = {}"
  by (simp add: ref_live_def ref_start_def)

subsection \<open>The manager for the reference resource\<close>

lemma ref_created:
  obtains m s1 u images where "createObjectManager ref_ext ref_reconciler ref_velero ref_config ref_clusters ref_start
      = Some ((ref_velero, Inr m), s1)"
    "set_up ref_ext ref_reconciler ref_velero ref_config images ref_clusters u m s1" "ref_live (world s1) = {}"
  by (rule createObjectManager_accepted[OF ref_accepted, of ref_reconciler ref_clusters ref_start])
    (metis that ref_empty)

lemma ref_quiet:
  assumes "set_up ref_ext ref_reconciler obj pc images cc u m s1"
  shows "\<forall>c \<in> set (mgr_cleaners m). quiet_cleaner ref_live c"
  using set_up_targets(3)[OF assms ref_fresh_manager] secret_cleaner_quiet[OF ref_deletes_cleanly] by simp

lemma ref_ranked:
  assumes "set_up ref_ext ref_reconciler obj pc images cc u m s1"
  shows "ranked m (\<lambda>p. if p = mo_ref (service_account_of u) then 1 else 0) 1"
proof -
  have "mo_ref (dep_object d) \<noteq> mo_ref (service_account_of u) \<and> mo_policy (dep_object d) \<noteq> Orphan
      \<and> mo_ref (snd t) = mo_ref (service_account_of u)"
    if d: "depends_on m d (snd t)" for d t
  proof -
    note dp = set_up_dependency[OF assms ref_fresh_manager d]
    have "mo_policy (dep_object d) = Delete"
      using dp(2) managed_of_simps(5) unfolding stands_for_def token_entry_def
      by (metis deletion_policy.distinct(3) managed_object_context.select_convs(3) snd_conv)
    moreover have "kind_of (GetObject (dep_object d) s1) = ''Secret''"
      using dp(2) by (simp add: stands_for_def token_entry_def)
    moreover have "kind_of (GetObject (service_account_of u) s1) = ''ServiceAccount''"
    proof -
      have "list_all2 (stands_for s1) (mc_objects (bp_mcp u)) (mcp_entries ref_ext obj images (bp_crds u))"
        using assms by (simp add: set_up_def)
      then have "stands_for s1 (service_account_of u) (service_account_entry server_account)"
        by (auto simp: mcp_entries_def list_all2_Cons2 service_account_of_def)
      then show ?thesis by (simp add: stands_for_def service_account_entry_def)
    qed
    ultimately show ?thesis using dp(3) by (auto simp: GetObject_def)
  qed
  then show ?thesis by (auto simp: ranked_def)
qed

lemma ref_pass:
  obtains m s1 rs s2 where "createObjectManager ref_ext ref_reconciler ref_velero ref_config ref_clusters ref_start
      = Some ((ref_velero, Inr m), s1)"
    "DeleteAll ref_ext m s1 = Some ((rs, None), s2)" "AllDeleted rs" "length (targets m) = 8"
    "\<forall>c \<in> set (mgr_cleaners m). orphan_cleaner c (cleaner_requests ref_ext ''workload'' ''velero-abc'' [''kube-api-access-velero-server''])"
proof -
  obtain m s1 u images where c: "createObjectManager ref_ext ref_reconciler ref_velero ref_config ref_clusters ref_start
      = Some ((ref_velero, Inr m), s1)"
    and su: "set_up ref_ext ref_reconciler ref_velero ref_config images ref_clusters u m s1" "ref_live (world s1) = {}"
    by (rule ref_created)
  obtain rs s2 where d: "DeleteAll ref_ext m s1 = Some ((rs, None), s2)"
    and all: "(\<And>t. t \<in> set (targets m) \<Longrightarrow> mo_policy (snd t) = Orphan \<or> item_of s1 t \<notin> ref_live (world s1)) \<Longrightarrow>
       (\<And>t d. t \<in> set (targets m) \<Longrightarrow> depends_on m d (snd t) \<Longrightarrow> item_of s1 (dep_target d) \<notin> ref_live (world s1)) \<Longrightarrow>
       \<forall>r \<in> set rs. res_op r = OpDeleted \<and> res_error r = None"
    by (rule DeleteAll_live[OF ref_deletes_at_once ref_quiet[OF su(1)], of s1]) blast
  from all su(2) have "\<forall>r \<in> set rs. res_op r = OpDeleted" by simp
  then have "AllDeleted rs" by (simp add: AllDeleted_iff)
  moreover have "length (targets m) = 8"
  proof -
    have "bp_crds u = [(''backups.velero.io'', CrdSpec ''backups'')]"
      using su(1) by (simp add: set_up_def ref_Parse)
    then have "length (map (describe s1) (targets m)) = 8"
      unfolding set_up_inventory[OF su(1) ref_fresh_manager] by (simp add: inventory_def)
    then show ?thesis by simp
  qed
  moreover have "\<forall>c \<in> set (mgr_cleaners m). orphan_cleaner c (cleaner_requests ref_ext ''workload'' ''velero-abc'' [''kube-api-access-velero-server''])"
    using set_up_cleaners[OF su(1) ref_fresh_manager]
    by (simp add: kept_secrets_def SecretRef_def kubeAPIAccess_def server_account_def)
  ultimately show thesis using c d that by blast
qed

subsection \<open>Components\<close>

theorem parse_spec_witness:
  "Parse ref_ext = Some (Inr (named_docs ref_ext 0 1)) \<and> map fst (named_docs ref_ext 0 1) = [''backups.velero.io'']"
proof -
  have "\<not> is_document (x_decode ref_ext 1)" "\<forall>j < 1. is_document (x_decode ref_ext j)" "x_decode ref_ext 1 = DecodeEOF"
    by (simp_all add: ref_ext_def is_document_def)
  with conjunct2[OF parse_spec, of ref_ext, rule_format, of 1]
  have "Parse ref_ext = Some (Inr (named_docs ref_ext 0 1))" by simp
  moreover have "map fst (named_docs ref_ext 0 1) = [''backups.velero.io'']" by (simp add: ref_ext_def)
  ultimately show ?thesis by blast
qed

definition ref_mcp_cluster :: "ref_world managed_cluster" where
  "ref_mcp_cluster = mcp_cluster ref_clusters"

lemma ref_mcp_cluster_simps [simp]:
  "mc_cfg ref_mcp_cluster = ch_rest ref_mcp" "ch_rest ref_mcp \<noteq> None" "mc_cluster ref_mcp_cluster = ref_mcp"
  "mc_namespace ref_mcp_cluster = ''velero''"
  by (simp_all add: ref_mcp_cluster_def mcp_cluster_def ref_clusters_def ref_mcp_def)

lemma ref_host: "GetHostAndPort ref_mcp_cluster = Some (''mcp.example'', ''6443'')"
  using host_split(1)[of "''mcp.example''" ref_mcp_cluster _ "''6443''"]
  by (simp add: ref_mcp_cluster_def mcp_cluster_def ref_clusters_def ref_mcp_def)

theorem token_mount_spec_witness:
  "\<exists>ps'. token_apply server_account ref_mcp_cluster (velero_pod ''velero'' [] Map.empty) = Some ps'
     \<and> token_apply server_account ref_mcp_cluster ps' = Some ps' \<and> token_volume server_account \<in> set (ps_volumes ps')"
proof -
  note sp = token_mount_spec[of server_account ref_mcp_cluster "velero_pod ''velero'' [] Map.empty"]
  from conjunct1[OF sp] obtain ps' where run: "token_apply server_account ref_mcp_cluster (velero_pod ''velero'' [] Map.empty) = Some ps'"
    by (cases "token_apply server_account ref_mcp_cluster (velero_pod ''velero'' [] Map.empty)") simp_all
  from conjunct2[OF sp, rule_format, OF run] run show ?thesis by blast
qed

text \<open>A state whose control plane has the service account.\<close>

definition ref_account_state :: "ref_world st" where
  "ref_account_state = ref_start\<lparr>world := \<lparr>rw_objects = [(''mcp'', new_object ''velero-server'' ''velero'' ServiceAccount)],
     rw_clock = 0\<rparr>\<rparr>"

lemma ref_account_token:
  "\<exists>rc s'. generateToken ref_ext ref_mcp (ch_rest ref_mcp) server_account hour ref_account_state = (Inr rc, s')
     \<and> trace s' = [ReqGet ''mcp'' ''ServiceAccount'' (''velero'', ''velero-server'') None,
                   ReqCreateToken ''mcp'' (''velero'', ''velero-server'') 3600 None]"
proof -
  have "\<not> hour < 10 * minute" by (simp add: hour_def minute_def)
  then show ?thesis
    by (simp add: generateToken_def server_account_def ref_mcp_def ref_account_state_def k_get_def
        k_create_token_def ref_ext_def ref_lookup_def is_item_def ref_start_def log_request_def fill_def)
qed

lemma ref_gets_key_asked: "gets_key_asked ref_ext"
  by (auto simp: gets_key_asked_def ref_ext_def split: option.splits dest!: ref_lookup_Some)

theorem token_generation_spec_witness:
  "generateToken ref_ext ref_mcp (ch_rest ref_mcp) server_account minute ref_start = (Inl errExpirationInvalid, ref_start)
   \<and> (\<exists>rc s' sa w w'. generateToken ref_ext ref_mcp (ch_rest ref_mcp) server_account hour ref_account_state = (Inr rc, s')
        \<and> object_key sa = (''velero'', ''velero-server'')
        \<and> x_create_token ref_ext ''mcp'' sa 3600 w = ((tok_token rc, tok_expiry rc), None, w')
        \<and> trace s' = [ReqGet ''mcp'' ''ServiceAccount'' (''velero'', ''velero-server'') None,
             ReqCreateToken ''mcp'' (''velero'', ''velero-server'') 3600 None])"
proof -
  note sp = token_generation_spec[of server_account ref_ext ref_mcp "ch_rest ref_mcp"]
  have ne: "msa_name server_account = ''velero-server''" "msa_namespace server_account = ''velero''"
    by (simp_all add: server_account_def)
  have start: "trace ref_account_state = []" "ch_id ref_mcp = ''mcp''"
    by (simp_all add: ref_account_state_def ref_start_def ref_mcp_def)
  obtain rc s' where run: "generateToken ref_ext ref_mcp (ch_rest ref_mcp) server_account hour ref_account_state = (Inr rc, s')"
    using ref_account_token by blast
  have "\<exists>sa w1 w2. x_create_token ref_ext ''mcp'' sa 3600 w1 = ((tok_token rc, tok_expiry rc), None, w2)
      \<and> trace s' = [ReqGet ''mcp'' ''ServiceAccount'' (''velero'', ''velero-server'') None, ReqCreateToken ''mcp'' (object_key sa) 3600 None]
      \<and> object_key sa = (''velero'', ''velero-server'')"
    using conjunct2[OF conjunct2[OF conjunct2[OF sp[of hour ref_account_state]]], rule_format, OF run] ref_gets_key_asked
    unfolding granted_token_def ne start append_Nil duration_seconds_hour by blast
  moreover have "generateToken ref_ext ref_mcp (ch_rest ref_mcp) server_account minute ref_start = (Inl errExpirationInvalid, ref_start)"
    using sp[of minute ref_start] ne by (simp add: minute_def)
  ultimately show ?thesis using run by fastforce
qed




definition ref_deployment :: "int32 \<Rightarrow> client_object" where
  "ref_deployment rdy = new_object ''velero'' ''velero-abc''
     (Deployment (empty_deployment_spec\<lparr>ds_replicas := Some 1\<rparr>) rdy)"

lemma ref_deployment_simps [simp]:
  "body (ref_deployment rdy) = Deployment (empty_deployment_spec\<lparr>ds_replicas := Some 1\<rparr>) rdy"
  "om_deletion (meta (ref_deployment rdy)) = None"
  by (simp_all add: ref_deployment_def)

theorem deployment_rollout_witness:
  "\<exists>o2 d. deployment_reconcile ref_ext ''velero'' ref_velero [''pull''] [''velero'' \<mapsto> ''img:v1.17.2'']
        (token_apply server_account ref_mcp_cluster) (ref_deployment 0) ref_start = Some ((o2, None), ref_start)
     \<and> body o2 = Deployment d 0 \<and> ds_replicas d = Some 1 \<and> ps_pull_secrets (ds_template_spec d) = [''pull'']
     \<and> mounts_resolve (ds_template_spec d)"
  using deployment_rollout[OF ref_sets_label ref_deployment_simps(1) ref_host, where ns = "''velero''" and obj = ref_velero
      and pulls = "[''pull'']" and images = "[''velero'' \<mapsto> ''img:v1.17.2'']" and m = server_account
      and s = ref_start] by blast

theorem deployment_readiness_witness:
  "\<exists>st' o2 st2. deployment_status (ref_deployment 1) ''WorkloadCluster'' = Some st' \<and> s_phase st' = Ready
     \<and> mcp_deployment_reconcile ref_ext ''img'' ''abc'' (ref_deployment 1) ref_start = Some ((o2, None), ref_start)
     \<and> deployment_status o2 ''WorkloadCluster'' = Some st2 \<and> s_phase st2 \<noteq> Ready"
proof -
  obtain st' where st: "deployment_status (ref_deployment 1) ''WorkloadCluster'' = Some st'"
    by (simp add: deployment_status_def Let_def)
  note sp = deployment_readiness[OF ref_sets_label ref_deployment_simps(1) st]
  have z: "time_is_zero (om_deletion (meta (ref_deployment 1)))" by (simp add: time_is_zero_def)
  obtain o2 where run: "mcp_deployment_reconcile ref_ext ''img'' ''abc'' (ref_deployment 1) ref_start = Some ((o2, None), ref_start)"
    and k: "kind_of o2 = ''Deployment''"
    by (simp add: mcp_deployment_reconcile_def Let_def kind_of_def)
  obtain st2 where st2: "deployment_status o2 ''WorkloadCluster'' = Some st2"
    using deployment.total[of o2 "''WorkloadCluster''"] k by blast
  from sp z run st2 have "s_phase st2 = Ready \<longleftrightarrow> (1 :: int32) = 0" by blast
  moreover have "s_phase st' = Ready" using sp z by (simp add: empty_deployment_spec_def)
  ultimately show ?thesis using st run st2 by auto
qed

text \<open>A workload cluster with the token secret and a secret nobody wants any more.\<close>

definition ref_secret :: "string \<Rightarrow> client_object" where
  "ref_secret n = SetManagedBy (new_object n ''velero-abc'' (Secret None []))"

definition ref_secret_state :: "ref_world st" where
  "ref_secret_state = ref_start\<lparr>world := \<lparr>rw_objects = [(''workload'', ref_secret ''kube-api-access-velero-server''),
     (''workload'', ref_secret ''old'')], rw_clock = 0\<rparr>\<rparr>"

definition ref_workload_cluster :: "ref_world managed_cluster" where
  "ref_workload_cluster = workload_cluster ref_clusters ref_velero"

lemma ref_secret_simps [simp]:
  "kind_of (ref_secret n) = ''Secret''" "get_namespace (ref_secret n) = ''velero-abc''" "get_name (ref_secret n) = n"
  "map_get (get_labels (ref_secret n)) LabelManagedBy = LabelManagedByValue"
  by (simp_all add: ref_secret_def SetManagedBy_def set_labels_def get_labels_def kind_of_def get_name_def get_namespace_def new_object_def new_meta_def)

lemma ref_list_secrets:
  "k_list_secrets ref_ext (mc_cluster ref_workload_cluster) ''velero-abc'' ManagedBy ref_secret_state =
     (([ref_secret ''kube-api-access-velero-server'', ref_secret ''old''], None),
      log_request (ReqListSecrets ''workload'' ''velero-abc'' None) ref_secret_state)"
  by (simp add: k_list_secrets_def ref_workload_cluster_def workload_cluster_def ref_clusters_def ref_workload_def
      ref_ext_def ref_secret_state_def ManagedBy_def log_request_def ref_start_def del: map_get_simps)

theorem cleaner_exact_witness:
  "\<exists>s' a. secretCleaner_Cleanup ref_ext ref_workload_cluster ''velero-abc'' [''kube-api-access-velero-server''] ref_secret_state
        = (([], None), s')
     \<and> trace s' = [ReqListSecrets ''workload'' ''velero-abc'' None, ReqDelete ''workload'' ''Secret'' (''velero-abc'', ''old'') a]"
proof -
  obtain s' where run: "secretCleaner_Cleanup ref_ext ref_workload_cluster ''velero-abc'' [''kube-api-access-velero-server'']
      ref_secret_state = (([], None), s')"
    using secret_cleaner_quiet[OF ref_deletes_cleanly] unfolding quiet_cleaner_def by blast
  have id: "ch_id (mc_cluster ref_workload_cluster) = ''workload''"
    by (simp add: ref_workload_cluster_def workload_cluster_def)
  from cleaner_exact[OF run ref_lists_matching] obtain items s1 answered where
    l: "k_list_secrets ref_ext (mc_cluster ref_workload_cluster) ''velero-abc'' ManagedBy ref_secret_state = ((items, None), s1)"
    and a: "map fst answered = [o' \<leftarrow> items. get_name o' \<notin> set [''kube-api-access-velero-server'']]"
    and t: "trace s' = trace ref_secret_state @ ReqListSecrets (ch_id (mc_cluster ref_workload_cluster)) ''velero-abc'' None
         # map (\<lambda>(o', a). ReqDelete (ch_id (mc_cluster ref_workload_cluster)) ''Secret'' (''velero-abc'', get_name o') a) answered"
    by blast
  have "items = [ref_secret ''kube-api-access-velero-server'', ref_secret ''old'']"
    using l unfolding ref_list_secrets by simp
  with a have "map fst answered = [ref_secret ''old'']" by simp
  then obtain e where "answered = [(ref_secret ''old'', e)]" by auto
  with t id have "trace s' = [ReqListSecrets ''workload'' ''velero-abc'' None, ReqDelete ''workload'' ''Secret'' (''velero-abc'', ''old'') e]"
    by (simp add: ref_secret_state_def ref_start_def)
  with run show ?thesis by blast
qed

subsection \<open>Passes of the manager\<close>

theorem deletion_pass_safe_witness:
  "\<exists>m s1 rs s2 log clean. createObjectManager ref_ext ref_reconciler ref_velero ref_config ref_clusters ref_start
        = Some ((ref_velero, Inr m), s1)
     \<and> DeleteAll ref_ext m s1 = Some ((rs, None), s2) \<and> trace s2 = trace s1 @ log @ clean
     \<and> list_all (\<lambda>i. case log ! i of ReqDelete c k key ans \<Rightarrow> delete_justified s1 m (take i log) (c, k, key) | _ \<Rightarrow> True) [0..<length log]"
proof -
  obtain m s1 rs s2 where c: "createObjectManager ref_ext ref_reconciler ref_velero ref_config ref_clusters ref_start
      = Some ((ref_velero, Inr m), s1)" and d: "DeleteAll ref_ext m s1 = Some ((rs, None), s2)"
    and o: "\<forall>c \<in> set (mgr_cleaners m). orphan_cleaner c (cleaner_requests ref_ext ''workload'' ''velero-abc'' [''kube-api-access-velero-server''])"
    by (rule ref_pass)
  from deletion_pass_safe[OF d o ref_gets_own_key] obtain log clean where l: "trace s2 = trace s1 @ log @ clean"
    "\<And>pre c k key ans post. log = pre @ ReqDelete c k key ans # post \<Longrightarrow> delete_justified s1 m pre (c, k, key)" by blast
  have "case log ! i of ReqDelete c k key ans \<Rightarrow> delete_justified s1 m (take i log) (c, k, key) | _ \<Rightarrow> True" if "i < length log" for i
    using l(2)[of "take i log"] id_take_nth_drop[OF that] by (auto split: request.split)
  with c d l(1) show ?thesis by (fastforce simp: list_all_iff)
qed


theorem deletion_converges_witness:
  "\<exists>m s1 s2 rs s3. createObjectManager ref_ext ref_reconciler ref_velero ref_config ref_clusters ref_start
        = Some ((ref_velero, Inr m), s1)
     \<and> delete_passes ref_ext m 2 s1 = Some s2 \<and> DeleteAll ref_ext m s2 = Some ((rs, None), s3) \<and> AllDeleted rs"
proof -
  obtain m s1 u images where c: "createObjectManager ref_ext ref_reconciler ref_velero ref_config ref_clusters ref_start
      = Some ((ref_velero, Inr m), s1)"
    and su: "set_up ref_ext ref_reconciler ref_velero ref_config images ref_clusters u m s1"
    by (rule ref_created)
  have two: "Suc 1 = (2 :: nat)" by simp
  from deletion_converges[OF ref_deletes_at_once ref_quiet[OF su] ref_ranked[OF su], of s1, unfolded two]
  obtain s2 rs s3 where "delete_passes ref_ext m 2 s1 = Some s2" "DeleteAll ref_ext m s2 = Some ((rs, None), s3)" "AllDeleted rs" by blast
  with c show ?thesis by blast
qed

subsection \<open>The handlers\<close>

theorem manager_inventory_witness:
  "\<exists>m s1. createObjectManager ref_ext ref_reconciler ref_velero ref_config ref_clusters ref_start = Some ((ref_velero, Inr m), s1)
     \<and> map (describe s1) (targets m) = inventory ''velero-abc'' [''backups.velero.io''] []"
proof -
  obtain m s1 where c: "createObjectManager ref_ext ref_reconciler ref_velero ref_config ref_clusters ref_start
      = Some ((ref_velero, Inr m), s1)" by (rule ref_created)
  from manager_inventory[OF c ref_fresh_manager]
  have "\<exists>crds. Parse ref_ext = Some (Inr crds)
      \<and> map (describe s1) (targets m) = inventory (InstanceNamespace ref_velero) (map fst crds) (pc_pull_secrets ref_config)" by blast
  then have "map (describe s1) (targets m) = inventory ''velero-abc'' [''backups.velero.io''] []"
    by (simp add: ref_Parse InstanceNamespace_eq)
  with c show ?thesis by blast
qed

lemma ref_handlers_total:
  "\<exists>obj' res e s'. reconciler_CreateOrUpdate ref_ext ref_reconciler ref_velero ref_config ref_clusters s = Some ((obj', res, e), s')"
proof -
  have "reconciler_CreateOrUpdate ref_ext ref_reconciler ref_velero ref_config ref_clusters s \<noteq> None"
    using handlers_total[OF ref_fresh_manager ref_sets_label ref_mutates_secret, of ref_config ref_clusters ref_velero s]
    by (simp add: ref_Parse ref_range del: not_None_eq)
  then show ?thesis by (metis not_None_eq surj_pair)
qed

lemma ref_update_run:
  "\<exists>obj' res e s'. reconciler_CreateOrUpdate ref_ext ref_reconciler ref_velero ref_config ref_clusters ref_start = Some ((obj', res, e), s')"
  by (rule ref_handlers_total)

lemma ref_delete_run:
  "\<exists>obj' s'. reconciler_Delete ref_ext ref_reconciler ref_velero ref_config ref_clusters ref_start = Some ((obj', no_requeue, None), s')"
proof (rule delete_call[OF ref_deletes_cleanly ref_fresh_manager ref_accepted, of ref_clusters ref_start])
  fix obj' res e s'
  assume "reconciler_Delete ref_ext ref_reconciler ref_velero ref_config ref_clusters ref_start = Some ((obj', res, e), s')"
    and "\<forall>i \<in> deletable ref_ext ref_config ref_clusters (GetID (v_meta ref_velero)). i \<notin> ref_live (world ref_start) \<Longrightarrow>
       res = no_requeue \<and> e = None"
  then show ?thesis by (simp add: ref_empty)
qed

theorem deletion_requests_witness:
  "\<exists>obj' res e s' new. reconciler_Delete ref_ext ref_reconciler ref_velero ref_config ref_clusters ref_start = Some ((obj', res, e), s')
     \<and> trace s' = trace ref_start @ new \<and> list_all (delete_allowed ref_ext ref_reconciler ref_config ref_clusters ''abc'') new
     \<and> (\<forall>key a. ReqDelete ''mcp'' ''Namespace'' key a \<notin> set new)"
proof -
  obtain obj' res e s' where r: "reconciler_Delete ref_ext ref_reconciler ref_velero ref_config ref_clusters ref_start = Some ((obj', res, e), s')"
    using ref_delete_run by blast
  have "''mcp'' \<noteq> ''workload''" by simp
  with deletion_requests[OF r ref_fresh_manager ref_gets_own_key] obtain new where
    "trace s' = trace ref_start @ new" "\<forall>q \<in> set new. delete_allowed ref_ext ref_reconciler ref_config ref_clusters ''abc'' q"
    "\<forall>k key a. ReqDelete ''mcp'' k key a \<in> set new \<longrightarrow>
       (k, key) \<in> {(''ServiceAccount'', (''velero'', ''velero-server'')), (''ClusterRoleBinding'', ([], ''velero-server'')),
                     (''Deployment'', (''velero'', ''velero''))}"
    unfolding ref_clusters_simps ref_velero_simps by blast
  with r show ?thesis by (fastforce simp: list_all_iff)
qed

theorem handlers_return_witness:
  "(\<exists>a b. reconciler_CreateOrUpdate ref_ext ref_reconciler ref_velero ref_config ref_clusters ref_start = Some a
     \<and> reconciler_Delete ref_ext ref_reconciler ref_velero ref_config ref_clusters ref_start = Some b)
   \<and> reconciler_CreateOrUpdate ref_ext ref_reconciler ref_velero (ref_config\<lparr>pc_poll_interval := None\<rparr>) ref_clusters ref_start = None"
proof -
  note ret = handlers_return[OF ref_fresh_manager ref_sets_label ref_mutates_secret]
  have "resolveImages (v_spec ref_velero) (ref_config\<lparr>pc_poll_interval := None\<rparr>) \<noteq> None"
    by (simp add: resolveImages_def resolveImage_def ref_config_def)
  moreover have "pc_poll_interval ref_config = Some minute" by (simp add: ref_config_def)
  ultimately show ?thesis
    using ret[of ref_clusters ref_config ref_velero ref_start]
      ret[of ref_clusters "ref_config\<lparr>pc_poll_interval := None\<rparr>" ref_velero ref_start]
    by (simp add: PollInterval_def ref_valid ref_Parse ref_range)
qed

text \<open>A resource that asks for a version out of the supported range.\<close>

definition ref_old_velero :: velero where
  "ref_old_velero = ref_velero\<lparr>v_spec := \<lparr>vs_version = ''v1.5.0'', vs_plugins = []\<rparr>\<rparr>"

lemma ref_rejected: "rejected ref_ext ref_old_velero ref_config"
  by (simp add: rejected_def ref_old_velero_def ref_old)

theorem invalid_input_outcome_witness:
  "\<exists>obj'. reconciler_Delete ref_ext ref_reconciler ref_old_velero ref_config ref_clusters ref_account_state
      = Some ((obj', no_requeue, None), ref_account_state)"
proof -
  have "GetID (v_meta ref_old_velero) \<noteq> []" by (simp add: ref_old_velero_def)
  from invalid_input_outcome[OF ref_rejected this ref_ignores_invalid_input] show ?thesis by blast
qed

theorem deletion_done_means_gone_witness:
  "\<exists>obj' s' m s1 new. reconciler_Delete ref_ext ref_reconciler ref_velero ref_config ref_clusters ref_start = Some ((obj', no_requeue, None), s')
     \<and> createObjectManager ref_ext ref_reconciler ref_velero ref_config ref_clusters ref_start = Some ((ref_velero, Inr m), s1)
     \<and> trace s' = trace s1 @ new \<and> list_all (seen_gone s1 m (set new)) (targets m)"
proof -
  obtain obj' s' where r: "reconciler_Delete ref_ext ref_reconciler ref_velero ref_config ref_clusters ref_start = Some ((obj', no_requeue, None), s')"
    using ref_delete_run by blast
  obtain m s1 where c: "createObjectManager ref_ext ref_reconciler ref_velero ref_config ref_clusters ref_start
      = Some ((ref_velero, Inr m), s1)" by (rule ref_created)
  from deletion_done_means_gone[OF r ref_fresh_manager ref_gets_own_key, unfolded c]
  have "\<exists>new. trace s' = trace s1 @ new \<and> (\<forall>t \<in> set (targets m). seen_gone s1 m (set new) t)" by auto
  with r c show ?thesis by (auto simp: list_all_iff)
qed

theorem deletion_finishes_witness:
  "\<exists>o1 s1 o2 s2 o3 s3 r1 e1 r2 e2.
      reconciler_Delete ref_ext ref_reconciler ref_velero ref_config ref_clusters ref_account_state = Some ((o1, r1, e1), s1)
    \<and> reconciler_Delete ref_ext ref_reconciler ref_velero ref_config ref_clusters s1 = Some ((o2, r2, e2), s2)
    \<and> (''mcp'', ''ServiceAccount'', (''velero'', ''velero-server'')) \<notin> ref_live (world s2)
    \<and> reconciler_Delete ref_ext ref_reconciler ref_velero ref_config ref_clusters s2 = Some ((o3, no_requeue, None), s3)"
proof -
  have "(ManagedControlPlane, ''ServiceAccount'', (''velero'', ''velero-server''), Delete) \<in> managed_items ref_ext ref_config ''abc''"
    by (simp add: managed_items_def inventory_def)
  from deletableI[OF this, of ref_clusters]
  have d: "(''mcp'', ''ServiceAccount'', (''velero'', ''velero-server'')) \<in> deletable ref_ext ref_config ref_clusters (GetID (v_meta ref_velero))"
    by (simp add: cluster_id_def)
  from deletion_finishes[OF ref_deletes_cleanly ref_fresh_manager ref_accepted, of ref_clusters ref_account_state] d
  show ?thesis by blast
qed

theorem resolve_images_spec_witness:
  "resolveImages \<lparr>vs_version = ''v1.17.2'', vs_plugins = [\<lparr>vp_name = ''aws'', vp_version = ''v2''\<rparr>]\<rparr> ref_config \<noteq> None
   \<and> resolveImages \<lparr>vs_version = ''v1.17.2'', vs_plugins = [\<lparr>vp_name = ''aws'', vp_version = ''v3''\<rparr>]\<rparr> ref_config = None"
  unfolding resolve_images_spec by (simp add: offered_def ref_config_def)

text \<open>The resource before it has an id, with a version in the window and one out of it.\<close>

definition ref_new_velero :: velero where
  "ref_new_velero = sample_velero ''team'' ''backup''"

lemma ref_new_created:
  obtains m s1 where "createObjectManager ref_ext ref_reconciler ref_new_velero ref_config ref_clusters ref_start
      = Some ((SetID ref_new_velero (GenerateID ref_new_velero), Inr m), s1)"
proof -
  define v where "v = SetID ref_new_velero (GenerateID ref_new_velero)"
  obtain s1 where e: "ensureInstanceID ref_ext ref_reconciler ref_new_velero ref_start = ((v, None), s1)"
    by (simp add: ensureInstanceID_def ref_new_velero_def v_def sample_velero_def GetID_def k_update_velero_def) (simp add: ref_ext_def)
  have sp: "v_spec ref_new_velero = \<lparr>vs_version = ''v1.17.2'', vs_plugins = []\<rparr>" "v_spec v = v_spec ref_new_velero"
    by (simp_all add: ref_new_velero_def sample_velero_def v_def)
  obtain b s2 where b: "build_manager ref_ext ref_reconciler v ref_config [''velero'' \<mapsto> ''img:v1.17.2''] ref_clusters s1 = Some (b, s2)"
    using build_manager_total[of ref_config ref_ext ref_reconciler v "[''velero'' \<mapsto> ''img:v1.17.2'']" ref_clusters s1]
    by (auto simp: ref_Parse)
  have "\<exists>m. b = Inr m" using b by (auto simp: build_manager_eq ref_Parse Let_def split: prod.splits)
  then obtain m where "b = Inr m" ..
  with b have "createObjectManager ref_ext ref_reconciler ref_new_velero ref_config ref_clusters ref_start = Some ((v, Inr m), s2)"
    by (simp add: createObjectManager_def sp ref_valid e ref_images)
  then show thesis using that unfolding v_def by blast
qed

theorem version_gate_witness:
  "\<exists>m s' sv. createObjectManager ref_ext ref_reconciler ref_new_velero ref_config ref_clusters ref_start
        = Some ((SetID ref_new_velero (GenerateID ref_new_velero), Inr m), s')
     \<and> x_parse_tolerant ref_ext ''v1.17.2'' = Some sv \<and> sv_minor sv < 19
     \<and> (\<exists>t. createObjectManager ref_ext ref_reconciler (ref_new_velero\<lparr>v_spec := \<lparr>vs_version = ''v1.5.0'', vs_plugins = []\<rparr>\<rparr>)
             ref_config ref_clusters ref_start
         = Some ((ref_new_velero\<lparr>v_spec := \<lparr>vs_version = ''v1.5.0'', vs_plugins = []\<rparr>\<rparr>, Inl (errorf_wrap ref_invalid t)), ref_start))"
proof -
  obtain m s1 where c: "createObjectManager ref_ext ref_reconciler ref_new_velero ref_config ref_clusters ref_start
      = Some ((SetID ref_new_velero (GenerateID ref_new_velero), Inr m), s1)" by (rule ref_new_created)
  have v: "vs_version (v_spec ref_new_velero) = ''v1.17.2''" by (simp add: ref_new_velero_def sample_velero_def)
  from version_gate[OF c ref_range, unfolded v] have sv: "\<exists>sv. x_parse_tolerant ref_ext ''v1.17.2'' = Some sv \<and> sv_minor sv < 19" by blast
  define old where "old = ref_new_velero\<lparr>v_spec := \<lparr>vs_version = ''v1.5.0'', vs_plugins = []\<rparr>\<rparr>"
  obtain v1 res s' where o: "createObjectManager ref_ext ref_reconciler old ref_config ref_clusters ref_start = Some ((v1, res), s')"
    by (simp add: createObjectManager_def old_def ref_old)
  have "x_parse_tolerant ref_ext ''v1.5.0'' = Some sv \<Longrightarrow> \<not> (sv_major sv = 1 \<and> 16 \<le> sv_minor sv \<and> sv_minor sv < 19)" for sv
    by (auto simp: ref_ext_def ref_versions_def)
  moreover have "vs_version (v_spec old) = ''v1.5.0''" "x_err_invalid_input ref_ext = ref_invalid"
    by (simp_all add: old_def ref_ext_def)
  ultimately have "(\<exists>t. res = Inl (errorf_wrap ref_invalid t)) \<and> v1 = old \<and> s' = ref_start"
    using version_gate[OF o ref_range] by simp
  with o c sv show ?thesis unfolding old_def by blast
qed

theorem version_gate_bypass_witness:
  "\<exists>obj m s' images. vs_version (v_spec obj) = ''v1.17.2''
     \<and> createObjectManager ref_ext ref_reconciler obj ref_config ref_clusters ref_start = Some ((obj, Inr m), s')
     \<and> c_image (velero_container ''velero'' images) = ''img:v1.5.0''"
proof -
  define obj where "obj = ref_velero\<lparr>v_spec := \<lparr>vs_version = ''v1.17.2'', vs_plugins = [\<lparr>vp_name = ''velero'', vp_version = ''v1.5.0''\<rparr>]\<rparr>\<rparr>"
  have o1: "offered ref_config ''velero'' ''v1.17.2'' \<noteq> None" by (simp add: offered_def ref_config_def)
  have o2: "offered ref_config ''velero'' ''v1.5.0'' = Some \<lparr>ai_name = ''velero'', ai_versions = [''v1.5.0'', ''v1.17.2''], ai_image = ''img''\<rparr>"
    by (simp add: offered_def ref_config_def)
  have sp: "v_spec obj = \<lparr>vs_version = ''v1.17.2'', vs_plugins = [\<lparr>vp_name = ''velero'', vp_version = ''v1.5.0''\<rparr>]\<rparr>"
    "GetID (v_meta obj) \<noteq> []" by (simp_all add: obj_def)
  have pi: "PollInterval ref_config \<noteq> None" by simp
  from version_gate_bypass[OF ref_valid o1 o2 sp pi ref_Parse, of ref_reconciler ref_clusters ref_start]
  obtain m s' images where "createObjectManager ref_ext ref_reconciler obj ref_config ref_clusters ref_start = Some ((obj, Inr m), s')"
    "c_image (velero_container ''velero'' images) = ''img:v1.5.0''" by auto
  moreover have "vs_version (v_spec obj) = ''v1.17.2''" using sp(1) by simp
  ultimately show ?thesis by blast
qed

subsection \<open>Updates\<close>

lemma ref_begin:
  "x_cou_begin ref_ext c o' w = (o1, e, w') \<Longrightarrow> e = None \<and> w' = w \<and> object_key (fill o' o1) = object_key o'"
  by (auto simp: ref_ext_def fill_def split: option.splits dest: ref_lookup_Some)

lemma ref_settled: "certified_ready (ref_settle o')"
  by (simp add: certified_ready_def time_is_zero_def) (simp add: ref_settle_def split: payload.split)

lemma ref_replies_ready: "replies_ready ref_ext"
  by (auto simp: replies_ready_def ref_ext_def Let_def ref_settled split: if_splits)

lemma ref_finish:
  "x_cou_finish ref_ext c oa ob er w = (oc, res, e, w') \<Longrightarrow>
     (if er = None \<and> admitted (ref_live w) (c, kind_of ob, object_key ob)
      then e = None \<and> ref_live w' = insert (c, kind_of ob, object_key ob) (ref_live w)
           \<and> kind_of oc = kind_of ob
      else e \<noteq> None \<and> ref_live w' = ref_live w)"
proof -
  have ad: "admitted (ref_live w) (c, kind_of ob, object_key ob) \<longleftrightarrow>
      \<not> (get_namespace ob \<noteq> [] \<and> ref_lookup (c, ''Namespace'', ([], get_namespace ob)) w = None)"
    by (simp add: admitted_def object_key_def ref_lookup_None)
  assume "x_cou_finish ref_ext c oa ob er w = (oc, res, e, w')"
  then show ?thesis
    unfolding ad by (cases er) (auto simp: ref_ext_def Let_def ref_live_put ref_settled split: if_splits)
qed

lemma ref_writes_at_once: "writes_at_once ref_ext ref_live"
proof -
  have triple: "(case t of (a, b, c) \<Rightarrow> P a b c)" if "\<And>a b c. t = (a, b, c) \<Longrightarrow> P a b c"
    for t :: "'a \<times> 'b \<times> 'c" and P
    using that by (cases t) simp
  have quad: "(case t of (a, b, c, d) \<Rightarrow> P a b c d)" if "\<And>a b c d. t = (a, b, c, d) \<Longrightarrow> P a b c d"
    for t :: "'a \<times> 'b \<times> 'c \<times> 'd" and P
    using that by (cases t) simp
  have get: "x_get ref_ext c k o' w = (o2, e, w') \<Longrightarrow> ref_live w' = ref_live w \<and> ((c, kind_of o', k) \<in> ref_live w \<longrightarrow> e = None)"
    for c k o' w o2 e w'
    by (auto simp: ref_ext_def ref_lookup_None split: option.splits)
  have fetch: "x_cou_begin ref_ext c o' w = (o1, e, w') \<Longrightarrow> e = None \<and> ref_live w' = ref_live w \<and> object_key (fill o' o1) = object_key o'"
    for c o' w o1 e w'
    using ref_begin[of c o' w o1 e w'] by simp
  show ?thesis
    unfolding writes_at_once_def
    by (intro conjI allI) (rule triple, erule fetch, rule quad, erule ref_finish, rule triple, erule get,
        simp_all add: ref_ext_def)
qed

lemma ref_no_sources: "pull_sources ref_reconciler ref_config \<subseteq> L"
  by (simp add: pull_sources_def)

theorem update_finishes_witness:
  "\<exists>o1 r1 e1 s1 mrs s2.
      reconciler_CreateOrUpdate ref_ext ref_reconciler ref_velero ref_config ref_clusters ref_start = Some ((o1, r1, Some e1), s1)
    \<and> reconciler_CreateOrUpdate ref_ext ref_reconciler ref_velero ref_config ref_clusters s1
        = Some ((x_status_ready ref_ext (set_resources ref_velero mrs), no_requeue, None), s2)
    \<and> allResourcesReady mrs
    \<and> (''workload'', ''Deployment'', (''velero-abc'', ''velero'')) \<in> ref_live (world s2)"
proof -
  have "namespace_item ref_clusters ''abc'' \<notin> ref_live (world ref_start)" by (simp add: ref_empty)
  note ns = this
  from update_finishes[OF ref_writes_at_once ref_deletes_cleanly ref_sets_label ref_mutates_secret ref_clusters_simps(1)
      ref_fresh_manager ref_accepted ref_no_sources, of ref_start, unfolded ref_velero_simps]
  obtain o1 r1 e1 s1 m s0 out s2 where r:
    "reconciler_CreateOrUpdate ref_ext ref_reconciler ref_velero ref_config ref_clusters ref_start = Some ((o1, r1, e1), s1)"
    "e1 = None \<longleftrightarrow> namespace_item ref_clusters ''abc'' \<in> ref_live (world ref_start)"
    "reconciler_CreateOrUpdate ref_ext ref_reconciler ref_velero ref_config ref_clusters s1 = Some (out, s2)"
    "inventory_items ref_ext ref_config ref_clusters ''abc'' \<subseteq> ref_live (world s2)"
    "replies_ready ref_ext \<longrightarrow> (\<exists>mrs. allResourcesReady mrs
       \<and> out = (x_status_ready ref_ext (set_resources ref_velero mrs), no_requeue, None))"
    by (elim exE conjE)
  from r(5) ref_replies_ready obtain mrs where out: "allResourcesReady mrs"
    "out = (x_status_ready ref_ext (set_resources ref_velero mrs), no_requeue, None)" by blast
  from r(2) ns obtain err where err: "e1 = Some err" by auto
  have "(WorkloadCluster, ''Deployment'', (''velero-abc'', ''velero''), Delete) \<in> managed_items ref_ext ref_config ''abc''"
    by (simp add: managed_items_def inventory_def)
  then have "(''workload'', ''Deployment'', (''velero-abc'', ''velero'')) \<in> inventory_items ref_ext ref_config ref_clusters ''abc''"
    unfolding inventory_items_def by (rule rev_image_eqI) (simp add: cluster_id_def)
  then have "(''workload'', ''Deployment'', (''velero-abc'', ''velero'')) \<in> ref_live (world s2)" by (rule subsetD[OF r(4)])
  with r(1,3) out show ?thesis unfolding err by (intro exI conjI) simp_all
qed

text \<open>A workload cluster that has the instance namespace already.\<close>

definition ref_ns_state :: "ref_world st" where
  "ref_ns_state = ref_start\<lparr>world := \<lparr>rw_objects = [(''workload'', new_object ''velero-abc'' [] Namespace)], rw_clock = 0\<rparr>\<rparr>"

theorem update_done_means_ready_witness:
  "\<exists>obj' s' m s1 rs mrs. reconciler_CreateOrUpdate ref_ext ref_reconciler ref_velero ref_config ref_clusters ref_ns_state
        = Some ((obj', no_requeue, None), s')
     \<and> createObjectManager ref_ext ref_reconciler ref_velero ref_config ref_clusters ref_ns_state = Some ((ref_velero, Inr m), s1)
     \<and> list_all2 (reports s') rs mrs \<and> map (\<lambda>r. (res_cluster r, res_object r)) rs = targets m
     \<and> list_all (\<lambda>t. certified_ready (GetObject (snd t) s')) (targets m)"
proof -
  have ns: "namespace_item ref_clusters (GetID (v_meta ref_velero)) \<in> ref_live (world ref_ns_state)"
    by (simp add: namespace_item_def ref_ns_state_def ref_live_def)
  obtain obj' s' where r: "reconciler_CreateOrUpdate ref_ext ref_reconciler ref_velero ref_config ref_clusters ref_ns_state
        = Some ((obj', no_requeue, None), s')"
    by (rule update_call[OF ref_writes_at_once ref_deletes_cleanly ref_sets_label ref_mutates_secret ref_clusters_simps(1)
      ref_fresh_manager ref_accepted ref_no_sources, of ref_ns_state])
      (use ns ref_replies_ready settled_ready in blast)
  obtain m s1 where c: "createObjectManager ref_ext ref_reconciler ref_velero ref_config ref_clusters ref_ns_state
      = Some ((ref_velero, Inr m), s1)"
    by (rule createObjectManager_accepted[OF ref_accepted, of ref_reconciler ref_clusters ref_ns_state])
  from update_done_means_ready[OF r ref_fresh_manager ref_sets_label ref_mutates_secret, unfolded c]
  have "\<exists>rs mrs. map (\<lambda>r. (res_cluster r, res_object r)) rs = targets m \<and> list_all2 (reports s') rs mrs
      \<and> (\<forall>t \<in> set (targets m). certified_ready (GetObject (snd t) s'))"
    by (simp only: option.inject prod.inject sum.simps simp_thms) blast
  then obtain rs mrs where k: "map (\<lambda>r. (res_cluster r, res_object r)) rs = targets m" "list_all2 (reports s') rs mrs"
    "\<forall>t \<in> set (targets m). certified_ready (GetObject (snd t) s')" by blast
  show ?thesis using r c k by (intro exI conjI) (simp_all only: list_all_iff)
qed

end
