(* ===== verification/Permissions.thy ===== *)
theory Permissions
  imports Handlers
begin

text \<open>
  \<open>cmd/service-provider-velero/main.go\<close>, the access the program asks for: the RBAC rules of
  the two cluster kinds and of the onboarding cluster. The rules are measured against the requests the handlers may issue.
\<close>

subsection \<open>The requested rules\<close>

text \<open>\<open>rbacv1.PolicyRule\<close>; \<open>rbacv1.VerbAll\<close> is the asterisk.\<close>

record policy_rule =
  pr_groups :: "string list"
  pr_resources :: "string list"
  pr_verbs :: "string list"

definition VerbAll :: string where
  "VerbAll = ''*''"

definition adminPermissions :: "policy_rule list list" where
  "adminPermissions = [[\<lparr>pr_groups = [''*''], pr_resources = [''*''], pr_verbs = [''*'']\<rparr>]]"

definition mcpPermissions :: "policy_rule list list" where
  "mcpPermissions =
     [[\<lparr>pr_groups = [''''], pr_resources = [''namespaces'', ''serviceaccounts''], pr_verbs = [VerbAll]\<rparr>,
       \<lparr>pr_groups = [''''], pr_resources = [''serviceaccounts/token''], pr_verbs = [''create'']\<rparr>,
       \<lparr>pr_groups = [''apiextensions.k8s.io''], pr_resources = [''customresourcedefinitions''], pr_verbs = [VerbAll]\<rparr>,
       \<lparr>pr_groups = [''apps''], pr_resources = [''deployments''], pr_verbs = [VerbAll]\<rparr>,
       \<lparr>pr_groups = [''rbac.authorization.k8s.io''], pr_resources = [''clusterroles'', ''clusterrolebindings''],
        pr_verbs = [VerbAll]\<rparr>]]"

definition workloadPermissions :: "policy_rule list list" where
  "workloadPermissions =
     [[\<lparr>pr_groups = [''''], pr_resources = [''namespaces'', ''secrets'', ''serviceaccounts''], pr_verbs = [VerbAll]\<rparr>,
       \<lparr>pr_groups = [''apps''], pr_resources = [''deployments''], pr_verbs = [VerbAll]\<rparr>,
       \<lparr>pr_groups = [''rbac.authorization.k8s.io''], pr_resources = [''clusterroles'', ''clusterrolebindings''],
        pr_verbs = [VerbAll]\<rparr>]]"

subsection \<open>What RBAC grants and what the requests need\<close>

text \<open>A rule grants an access if it names the group, the resource and the verb, or all of them.\<close>

definition names :: "string list \<Rightarrow> string \<Rightarrow> bool" where
  "names xs a = (''*'' \<in> set xs \<or> a \<in> set xs)"

definition granted :: "policy_rule list list \<Rightarrow> string \<Rightarrow> string \<Rightarrow> string \<Rightarrow> bool" where
  "granted ps grp resource verb =
     (\<exists>rules \<in> set ps. \<exists>r \<in> set rules. names (pr_groups r) grp \<and> names (pr_resources r) resource \<and> names (pr_verbs r) verb)"

text \<open>The API group and the resource name of a kind.\<close>

definition resource_of :: "string \<Rightarrow> string \<times> string" where
  "resource_of k =
     (if k = ''Namespace'' then ('''', ''namespaces'') else if k = ''ServiceAccount'' then ('''', ''serviceaccounts'')
      else if k = ''Secret'' then ('''', ''secrets'')
      else if k = ''CustomResourceDefinition'' then (''apiextensions.k8s.io'', ''customresourcedefinitions'')
      else if k = ''ClusterRoleBinding'' then (''rbac.authorization.k8s.io'', ''clusterrolebindings'')
      else if k = ''Deployment'' then (''apps'', ''deployments'')
      else (''velero.services.open-control-plane.io'', ''veleroes''))"

text \<open>
  The accesses a request needs: \<open>CreateOrUpdate\<close> reads the object and then creates or updates
  it; writing a role binding also needs \<open>bind\<close> on the bound cluster role; a token is created
  on the subresource of the account.
\<close>

definition access :: "string \<Rightarrow> string list \<Rightarrow> (string \<times> string \<times> string) list" where
  "access k verbs = map (\<lambda>v. (fst (resource_of k), snd (resource_of k), v)) verbs"

definition needs :: "request \<Rightarrow> string \<times> (string \<times> string \<times> string) list" where
  "needs q = (case q of
     ReqGet c k key e \<Rightarrow> (c, access k [''get''])
   | ReqDelete c k key e \<Rightarrow> (c, access k [''delete''])
   | ReqListSecrets c ns e \<Rightarrow> (c, access ''Secret'' [''list''])
   | ReqUpdateVelero c key e \<Rightarrow> (c, access ''Velero'' [''update''])
   | ReqCreateToken c key secs e \<Rightarrow> (c, [('''', ''serviceaccounts/token'', ''create'')])
   | ReqFetch c k key \<Rightarrow> (c, access k [''get''])
   | ReqPersist c o' \<Rightarrow> (c, access (kind_of o') [''create'', ''update'']
       @ (if kind_of o' = ''ClusterRoleBinding'' then [(''rbac.authorization.k8s.io'', ''clusterroles'', ''bind'')] else [])))"

text \<open>On the clusters the program asked access to, a request is covered by the rules asked for.\<close>

definition covered :: "'w velero_reconciler \<Rightarrow> cluster_context \<Rightarrow> request \<Rightarrow> bool" where
  "covered r cc q =
     (case needs q of (c, as) \<Rightarrow> \<forall>(g, res, v) \<in> set as.
        (c = ch_id (cc_mcp cc) \<longrightarrow> granted mcpPermissions g res v)
      \<and> (c = ch_id (cc_workload cc) \<longrightarrow> granted workloadPermissions g res v)
      \<and> (c = ch_id (vr_onboarding r) \<longrightarrow> granted adminPermissions g res v))"

definition clusters_distinct :: "'w velero_reconciler \<Rightarrow> cluster_context \<Rightarrow> bool" where
  "clusters_distinct r cc =
     distinct [ch_id (cc_mcp cc), ch_id (cc_workload cc), ch_id (vr_onboarding r), ch_id (vr_platform r)]"

lemma granted_mcp:
  "k \<in> {''Namespace'', ''ServiceAccount'', ''CustomResourceDefinition'', ''ClusterRoleBinding'', ''Deployment''} \<Longrightarrow>
     granted mcpPermissions (fst (resource_of k)) (snd (resource_of k)) v"
  "granted mcpPermissions [] ''serviceaccounts/token'' ''create''"
  "granted mcpPermissions ''rbac.authorization.k8s.io'' ''clusterroles'' v"
  by (auto simp: granted_def mcpPermissions_def names_def VerbAll_def resource_of_def)

lemma granted_workload:
  "k \<in> {''Namespace'', ''Secret'', ''Deployment''} \<Longrightarrow> granted workloadPermissions (fst (resource_of k)) (snd (resource_of k)) v"
  by (auto simp: granted_def workloadPermissions_def names_def VerbAll_def resource_of_def)

lemma granted_admin: "granted adminPermissions g res v"
  by (simp add: granted_def adminPermissions_def names_def)

lemma managed_kinds:
  assumes "(ct, k, key, p) \<in> managed_items x pc iid"
  shows "ct = ManagedControlPlane \<Longrightarrow>
      k \<in> {''Namespace'', ''ServiceAccount'', ''CustomResourceDefinition'', ''ClusterRoleBinding'', ''Deployment''}"
    and "ct = WorkloadCluster \<Longrightarrow> k \<in> {''Namespace'', ''Secret'', ''Deployment''}"
proof -
  show "ct = ManagedControlPlane \<Longrightarrow>
      k \<in> {''Namespace'', ''ServiceAccount'', ''CustomResourceDefinition'', ''ClusterRoleBinding'', ''Deployment''}"
    using assms by (cases key) (auto simp: managed_items_def inventory_def)
  show "ct = WorkloadCluster \<Longrightarrow> k \<in> {''Namespace'', ''Secret'', ''Deployment''}"
    using assms by (cases key) (auto simp: managed_items_def inventory_def)
qed

text \<open>Requests for a managed object in its own cluster are covered.\<close>

lemma item_covered:
  assumes d: "clusters_distinct r cc" and i: "(ct, k, key, p) \<in> managed_items x pc iid"
  shows "\<forall>(g, res, v) \<in> set (access k vs).
        (cluster_id cc ct = ch_id (cc_mcp cc) \<longrightarrow> granted mcpPermissions g res v)
      \<and> (cluster_id cc ct = ch_id (cc_workload cc) \<longrightarrow> granted workloadPermissions g res v)
      \<and> (cluster_id cc ct = ch_id (vr_onboarding r) \<longrightarrow> granted adminPermissions g res v)"
proof (cases ct)
  case ManagedControlPlane
  have "cluster_id cc ct = ch_id (cc_mcp cc)" "cluster_id cc ct \<noteq> ch_id (cc_workload cc)"
    using d ManagedControlPlane by (simp_all add: cluster_id_def clusters_distinct_def)
  then show ?thesis using granted_mcp(1)[OF managed_kinds(1)[OF i ManagedControlPlane]] granted_admin
    by (auto simp only: access_def set_map prod.case split_beta image_iff)
next
  case WorkloadCluster
  have "ch_id (cc_mcp cc) \<noteq> ch_id (cc_workload cc)" using d by (simp add: clusters_distinct_def)
  then have "cluster_id cc ct = ch_id (cc_workload cc)" "cluster_id cc ct \<noteq> ch_id (cc_mcp cc)"
    using WorkloadCluster by (simp_all add: cluster_id_def not_sym)
  then show ?thesis using granted_workload(1)[OF managed_kinds(2)[OF i WorkloadCluster]] granted_admin
    by (auto simp only: access_def set_map prod.case split_beta image_iff)
qed

text \<open>\<open>covered\<close> request by request.\<close>

lemma covered_access:
  "needs q = (c, access k vs) \<Longrightarrow> covered r cc q \<longleftrightarrow> (\<forall>(g, res, v) \<in> set (access k vs).
        (c = ch_id (cc_mcp cc) \<longrightarrow> granted mcpPermissions g res v)
      \<and> (c = ch_id (cc_workload cc) \<longrightarrow> granted workloadPermissions g res v)
      \<and> (c = ch_id (vr_onboarding r) \<longrightarrow> granted adminPermissions g res v))"
  by (simp add: covered_def)

lemma covered_elsewhere:
  assumes "fst (needs q) \<noteq> ch_id (cc_mcp cc)" "fst (needs q) \<noteq> ch_id (cc_workload cc)"
  shows "covered r cc q"
  using assms granted_admin by (auto simp: covered_def split: prod.split)

lemma secret_covered:
  assumes "clusters_distinct r cc" "needs q = (ch_id (cc_workload cc), access ''Secret'' vs)"
  shows "covered r cc q"
proof -
  have "ch_id (cc_workload cc) \<noteq> ch_id (cc_mcp cc)" using assms(1) by (simp add: clusters_distinct_def not_sym)
  moreover have "granted workloadPermissions (fst (resource_of ''Secret'')) (snd (resource_of ''Secret'')) v" for v
    by (rule granted_workload) simp
  ultimately show ?thesis unfolding covered_access[OF assms(2)] using granted_admin
    by (auto simp only: access_def set_map prod.case split_beta image_iff)
qed

lemma apply_allowed_covered:
  assumes d: "clusters_distinct r cc" and a: "apply_allowed x r pc cc iid q"
  shows "covered r cc q"
proof (cases q)
  case (ReqGet c k key e)
  from a[unfolded apply_allowed_def ReqGet request.case] consider (account) "c = ch_id (cc_mcp cc)" "k = ''ServiceAccount''" | (pull) "c = ch_id (vr_platform r)" by blast
  then show ?thesis
  proof cases
    case account
    have "ch_id (cc_mcp cc) \<noteq> ch_id (cc_workload cc)" using d by (simp add: clusters_distinct_def)
    moreover have "granted mcpPermissions (fst (resource_of ''ServiceAccount'')) (snd (resource_of ''ServiceAccount'')) v" for v
      by (rule granted_mcp) simp
    ultimately show ?thesis using granted_admin account
      by (simp add: covered_def needs_def ReqGet access_def)
  next
    case pull
    then show ?thesis using d by (intro covered_elsewhere) (simp_all add: needs_def ReqGet clusters_distinct_def not_sym)
  qed
next
  case (ReqDelete c k key e)
  from a[unfolded apply_allowed_def ReqDelete request.case] have "c = ch_id (cc_workload cc)" "k = ''Secret''" by blast+
  then show ?thesis by (intro secret_covered[OF d]) (simp add: needs_def ReqDelete)
next
  case (ReqListSecrets c ns e)
  from a[unfolded apply_allowed_def ReqListSecrets request.case] have "c = ch_id (cc_workload cc)" by blast
  then show ?thesis by (intro secret_covered[OF d]) (simp add: needs_def ReqListSecrets)
next
  case (ReqUpdateVelero c key e)
  from a[unfolded apply_allowed_def ReqUpdateVelero request.case] have "c = ch_id (vr_onboarding r)" by blast
  then show ?thesis using d by (intro covered_elsewhere) (simp_all add: needs_def ReqUpdateVelero clusters_distinct_def not_sym)
next
  case (ReqCreateToken c key secs e)
  from a[unfolded apply_allowed_def ReqCreateToken request.case] have "c = ch_id (cc_mcp cc)" by blast
  moreover have "ch_id (cc_mcp cc) \<noteq> ch_id (cc_workload cc)" using d by (simp add: clusters_distinct_def)
  ultimately show ?thesis using granted_mcp(2) granted_admin by (simp add: covered_def needs_def ReqCreateToken)
next
  case (ReqFetch c k key)
  from a[unfolded apply_allowed_def ReqFetch request.case] obtain ct p where i: "(ct, k, key, p) \<in> managed_items x pc iid" "c = cluster_id cc ct" by blast
  have nq: "needs q = (c, access k [''get''])" by (simp add: needs_def ReqFetch)
  show ?thesis unfolding covered_access[OF nq] i(2) by (rule item_covered[OF d i(1)])
next
  case (ReqPersist c o')
  from a[unfolded apply_allowed_def ReqPersist request.case] obtain ct key p where i: "(ct, kind_of o', key, p) \<in> managed_items x pc iid" "c = cluster_id cc ct" by blast
  have "c = ch_id (cc_mcp cc) \<and> c \<noteq> ch_id (cc_workload cc)" if "kind_of o' = ''ClusterRoleBinding''"
  proof -
    have "ct \<noteq> WorkloadCluster" using managed_kinds(2)[OF i(1)] that by auto
    then have "ct = ManagedControlPlane" by (cases ct) simp_all
    then show ?thesis using d i(2) by (simp add: cluster_id_def clusters_distinct_def)
  qed
  with item_covered[OF d i(1), of "[''create'', ''update'']"] i(2) granted_mcp(3) granted_admin show ?thesis
    by (auto simp: covered_def needs_def ReqPersist)
qed

lemma delete_allowed_covered:
  assumes d: "clusters_distinct r cc" and a: "delete_allowed x r pc cc iid q"
  shows "covered r cc q"
proof (cases q)
  case (ReqDelete c k key e)
  from a[unfolded delete_allowed_def ReqDelete request.case] consider (item) ct where "(ct, k, key, Delete) \<in> managed_items x pc iid" "c = cluster_id cc ct"
    | (secret) "c = ch_id (cc_workload cc)" "k = ''Secret''" by blast
  then show ?thesis
  proof cases
    case item
    have nq: "needs q = (c, access k [''delete''])" by (simp add: needs_def ReqDelete)
    show ?thesis unfolding covered_access[OF nq] item(2) by (rule item_covered[OF d item(1)])
  next
    case secret
    then show ?thesis by (intro secret_covered[OF d]) (simp add: needs_def ReqDelete)
  qed
next
  case (ReqGet c k key e)
  from a[unfolded delete_allowed_def ReqGet request.case] have "c = ch_id (cc_workload cc)" "k = ''Secret''" by blast+
  then show ?thesis by (intro secret_covered[OF d]) (simp add: needs_def ReqGet)
next
  case (ReqListSecrets c ns e)
  from a[unfolded delete_allowed_def ReqListSecrets request.case] have "c = ch_id (cc_workload cc)" by blast
  then show ?thesis by (intro secret_covered[OF d]) (simp add: needs_def ReqListSecrets)
next
  case (ReqUpdateVelero c key e)
  from a[unfolded delete_allowed_def ReqUpdateVelero request.case] have "c = ch_id (vr_onboarding r)" by blast
  then show ?thesis using d by (intro covered_elsewhere) (simp_all add: needs_def ReqUpdateVelero clusters_distinct_def not_sym)
qed (use a in \<open>simp_all add: delete_allowed_def\<close>)

text \<open>
  C5. Permissions suffice. With four different clusters, every request either handler
  issues on the control plane, on the workload cluster or on the onboarding cluster is
  granted by the rules the program asked for there: reading, writing and deleting the
  managed objects, binding the cluster role, the token subresource, the secret listing and
  the update of the resource.
\<close>

theorem permissions_suffice:
  assumes "clusters_distinct r cc" "fresh_manager r" "sets_label x" "mutates_secret x" "gets_own_key x"
    and "reconciler_CreateOrUpdate x r obj pc cc s = Some ((obj', res, e), s')
       \<or> reconciler_Delete x r obj pc cc s = Some ((obj', res, e), s')"
  shows "\<exists>new. trace s' = trace s @ new \<and> (\<forall>q \<in> set new. covered r cc q)"
  using assms(6)
proof
  assume "reconciler_CreateOrUpdate x r obj pc cc s = Some ((obj', res, e), s')"
  from update_log[OF this assms(2,3,4)] show ?thesis using apply_allowed_covered[OF assms(1)] by blast
next
  assume "reconciler_Delete x r obj pc cc s = Some ((obj', res, e), s')"
  from deletion_log[OF this assms(2,5)] show ?thesis using delete_allowed_covered[OF assms(1)] by blast
qed

end
