(* ===== verification/Main_Program.thy ===== *)
theory Main_Program
  imports Permissions
begin

text \<open>
  \<open>cmd/service-provider-velero/main.go\<close>: the client schemes, the command line, the options
  of the webhook and metrics servers, access to the onboarding cluster, and the start-up
  sequence of the two commands \<open>init\<close> and \<open>run\<close>. Every call that leaves the program is a step
  with an answer of the environment \<open>main_ext\<close>; the state logs the steps with their answers.
\<close>

subsection \<open>Schemes\<close>

text \<open>The type packages whose \<open>AddToScheme\<close> is called; a scheme is a value of the library.\<close>

datatype api_types = ClientGo | ApiExtensions | VeleroTypes | ClusterTypes | ProviderTypes

type_synonym 's adder = "api_types \<Rightarrow> 's \<Rightarrow> error option \<times> 's"

text \<open>\<open>utilruntime.Must(AddToScheme(scheme))\<close> panics on an error.\<close>

definition must_add :: "'s adder \<Rightarrow> api_types \<Rightarrow> 's \<Rightarrow> 's option" where
  "must_add add g sc = (case add g sc of (None, sc1) \<Rightarrow> Some sc1 | (Some err, sc1) \<Rightarrow> None)"

definition initPlatformScheme :: "'s adder \<Rightarrow> 's \<Rightarrow> 's option" where
  "initPlatformScheme add sc = do {
     sc \<leftarrow> must_add add ClientGo sc;
     sc \<leftarrow> must_add add ApiExtensions sc;
     sc \<leftarrow> must_add add VeleroTypes sc;
     sc \<leftarrow> must_add add ClusterTypes sc;
     must_add add ProviderTypes sc }"

definition initOnboardingScheme :: "'s adder \<Rightarrow> 's \<Rightarrow> 's option" where
  "initOnboardingScheme add sc = do {
     sc \<leftarrow> must_add add ClientGo sc;
     sc \<leftarrow> must_add add ApiExtensions sc;
     must_add add VeleroTypes sc }"

definition initMcpScheme :: "'s adder \<Rightarrow> 's \<Rightarrow> 's option" where
  "initMcpScheme add sc = do {
     sc \<leftarrow> must_add add ClientGo sc;
     must_add add ApiExtensions sc }"

definition initWorkloadScheme :: "'s adder \<Rightarrow> 's \<Rightarrow> 's option" where
  "initWorkloadScheme add sc = must_add add ClientGo sc"

record 's schemes =
  platformScheme :: 's
  onboardingScheme :: 's
  mcpScheme :: 's
  workloadScheme :: 's

text \<open>The package's \<open>init\<close> runs before \<open>main\<close> on four new schemes.\<close>

definition init_schemes :: "'s adder \<Rightarrow> 's \<Rightarrow> 's schemes option" where
  "init_schemes add new = do {
     p \<leftarrow> initPlatformScheme add new;
     ob \<leftarrow> initOnboardingScheme add new;
     m \<leftarrow> initMcpScheme add new;
     w \<leftarrow> initWorkloadScheme add new;
     Some \<lparr>platformScheme = p, onboardingScheme = ob, mcpScheme = m, workloadScheme = w\<rparr> }"

subsection \<open>Command line\<close>

record flags =
  fl_environment :: string
  fl_provider_name :: string
  fl_metrics_addr :: string
  fl_probe_addr :: string
  fl_leader_elect :: bool
  fl_secure_metrics :: bool
  fl_webhook_cert_path :: string
  fl_webhook_cert_name :: string
  fl_webhook_cert_key :: string
  fl_metrics_cert_path :: string
  fl_metrics_cert_name :: string
  fl_metrics_cert_key :: string
  fl_enable_http2 :: bool

definition default_flags :: flags where
  "default_flags = \<lparr>fl_environment = '''', fl_provider_name = '''', fl_metrics_addr = ''0'',
     fl_probe_addr = '':8081'', fl_leader_elect = False, fl_secure_metrics = True,
     fl_webhook_cert_path = '''', fl_webhook_cert_name = ''tls.crt'', fl_webhook_cert_key = ''tls.key'',
     fl_metrics_cert_path = '''', fl_metrics_cert_name = ''tls.crt'', fl_metrics_cert_key = ''tls.key'',
     fl_enable_http2 = False\<rparr>"

text \<open>The command is taken out of \<open>os.Args\<close>: the command and the remaining arguments.\<close>

definition split_command :: "string list \<Rightarrow> string \<times> string list" where
  "split_command args =
     (if length args > 1 then (args ! 1, args ! 0 # drop 2 args) else ('''', args))"

subsection \<open>Server options\<close>

record tls_config =
  next_protos :: "string list"

datatype tls_opt = DisableHTTP2

fun apply_tls_opt :: "tls_opt \<Rightarrow> tls_config \<Rightarrow> tls_config" where
  "apply_tls_opt DisableHTTP2 c = c\<lparr>next_protos := [''http/1.1'']\<rparr>"

record webhook_options =
  wo_tls :: "tls_opt list"
  wo_cert_dir :: string
  wo_cert_name :: string
  wo_key_name :: string

record metrics_options =
  met_addr :: string
  met_secure :: bool
  met_tls :: "tls_opt list"
  met_filter :: bool              \<comment> \<open>\<open>FilterProvider\<close> is set\<close>
  met_cert_dir :: string
  met_cert_name :: string
  met_key_name :: string

definition tlsOpts :: "flags \<Rightarrow> tls_opt list" where
  "tlsOpts fl = (if \<not> fl_enable_http2 fl then [] @ [DisableHTTP2] else [])"

definition webhookServerOptions :: "flags \<Rightarrow> webhook_options" where
  "webhookServerOptions fl =
     (let opts = \<lparr>wo_tls = tlsOpts fl, wo_cert_dir = '''', wo_cert_name = '''', wo_key_name = ''''\<rparr>
      in if length (fl_webhook_cert_path fl) > 0
         then opts\<lparr>wo_cert_dir := fl_webhook_cert_path fl, wo_cert_name := fl_webhook_cert_name fl,
                   wo_key_name := fl_webhook_cert_key fl\<rparr>
         else opts)"

definition metricsServerOptions :: "flags \<Rightarrow> metrics_options" where
  "metricsServerOptions fl =
     (let opts = \<lparr>met_addr = fl_metrics_addr fl, met_secure = fl_secure_metrics fl, met_tls = tlsOpts fl,
            met_filter = False, met_cert_dir = '''', met_cert_name = '''', met_key_name = ''''\<rparr>;
          opts1 = (if fl_secure_metrics fl then opts\<lparr>met_filter := True\<rparr> else opts)
      in if length (fl_metrics_cert_path fl) > 0
         then opts1\<lparr>met_cert_dir := fl_metrics_cert_path fl, met_cert_name := fl_metrics_cert_name fl,
                    met_key_name := fl_metrics_cert_key fl\<rparr>
         else opts1)"

subsection \<open>Steps and their environment\<close>

record manager_options =
  mg_metrics :: metrics_options
  mg_webhook :: webhook_options
  mg_probe_addr :: string
  mg_leader_elect :: bool
  mg_leader_id :: string

record access_setup =
  as_name :: string
  as_mcp :: "policy_rule list list"
  as_workload :: "policy_rule list list"
  as_retry :: duration
  as_local :: bool                 \<comment> \<open>wrapped for local access\<close>

record reconciler_setup =
  rs_onboarding :: cluster_handle
  rs_platform :: cluster_handle
  rs_pod_namespace :: string
  rs_workload_cluster :: bool      \<comment> \<open>\<open>WorkloadCluster(true)\<close>: workload access is requested too\<close>
  rs_access :: access_setup

datatype main_step =
    GetLogger
  | LoadConfig
  | InitPlatformClient
  | RequestAccess string string "policy_rule list list"     \<comment> \<open>local name, purpose, permissions\<close>
  | GetAccessRequest string string                          \<comment> \<open>name, namespace\<close>
  | CreateOrUpdateCRDs "(string \<times> cluster_handle) list"    \<comment> \<open>clusters by the label of a definition\<close>
  | RegisterGVK cluster_handle string string string string  \<comment> \<open>provider, group, version, kind\<close>
  | NewCtrlManager cluster_handle manager_options
  | AddPlatformCluster cluster_handle
  | SetupWithManager reconciler_setup string
  | AddHealthzCheck
  | AddReadyzCheck
  | StartManager

text \<open>
  What is outside: the environment variables and three constants of a library, flag parsing
  (which may end the process with a status), the FIPS check, the patch of a client and the
  controller builder (which may panic), the answer of every other step, and the cluster
  handles the platform and access steps leave behind.
\<close>

record 'm main_ext =
  me_getenv :: "string \<Rightarrow> string"
  me_env_pod_namespace :: string
  me_purpose_platform :: string
  me_purpose_onboarding :: string
  me_parse_flags :: "string list \<Rightarrow> flags \<Rightarrow> nat + flags"
  me_fips :: "'m \<Rightarrow> 'm option"
  me_do :: "main_step \<Rightarrow> 'm \<Rightarrow> error option \<times> 'm"
  me_platform_handle :: "'m \<Rightarrow> cluster_handle"
  me_access_handle :: "string \<Rightarrow> 'm \<Rightarrow> cluster_handle"
  me_patch_client :: "cluster_handle \<Rightarrow> 'm \<Rightarrow> (cluster_handle \<times> 'm) option"
  me_stable_name :: "string \<Rightarrow> string \<Rightarrow> string"
  me_build :: "'m \<Rightarrow> 'm option"

record 'm ms =
  ms_world :: 'm
  ms_log :: "(main_step \<times> error option) list"

datatype process_end = Returned | Exited nat | Panicked

definition perform :: "'m main_ext \<Rightarrow> main_step \<Rightarrow> 'm ms \<Rightarrow> error option \<times> 'm ms" where
  "perform x st s = (let (e, w) = me_do x st (ms_world s) in (e, \<lparr>ms_world = w, ms_log = ms_log s @ [(st, e)]\<rparr>))"

text \<open>The pattern of \<open>main\<close>: on an error log it and \<open>os.Exit(1)\<close>, otherwise go on.\<close>

definition or_exit :: "'m main_ext \<Rightarrow> main_step \<Rightarrow> ('m ms \<Rightarrow> process_end \<times> 'm ms) \<Rightarrow> 'm ms
    \<Rightarrow> process_end \<times> 'm ms" where
  "or_exit x st k s = (case perform x st s of (Some err, s1) \<Rightarrow> (Exited 1, s1) | (None, s1) \<Rightarrow> k s1)"

subsection \<open>Helpers of \<open>main\<close>\<close>

text \<open>\<open>strings.ToLower\<close> on bytes: other characters never lower to the letters compared with.\<close>

definition lower_char :: "char \<Rightarrow> char" where
  "lower_char c = (if 65 \<le> (of_char c :: nat) \<and> (of_char c :: nat) \<le> 90 then char_of (of_char c + 32 :: nat) else c)"

definition debugEnvVar :: string where
  "debugEnvVar = ''DEV_DEBUG''"

definition debugEnabled :: "'m main_ext \<Rightarrow> bool" where
  "debugEnabled x = (let v = map lower_char (me_getenv x debugEnvVar) in v = ''1'' \<or> v = ''true'')"

definition service_name :: string where
  "service_name = ''velero.velero.services.openmcp.cloud''"

text \<open>\<open>ctrl.GetConfigOrDie\<close> ends the process itself, the outer \<open>Inl\<close>.\<close>

definition initializePlatformCluster :: "'m main_ext \<Rightarrow> 'm ms
    \<Rightarrow> (process_end + (cluster_handle \<times> error option)) \<times> 'm ms" where
  "initializePlatformCluster x s =
     (case perform x LoadConfig s of
        (Some err, s1) \<Rightarrow> (Inl (Exited 1), s1)
      | (None, s1) \<Rightarrow>
          (case perform x InitPlatformClient s1 of (e, s2) \<Rightarrow> (Inr (me_platform_handle x (ms_world s2), e), s2)))"

definition patchOnboardingClient :: "'m main_ext \<Rightarrow> cluster_handle \<Rightarrow> string \<Rightarrow> 'm ms
    \<Rightarrow> (process_end + (cluster_handle \<times> error option)) \<times> 'm ms" where
  "patchOnboardingClient x onboardingCluster cmdSuffix s =
     (case perform x (GetAccessRequest (me_stable_name x service_name cmdSuffix) (me_getenv x ''POD_NAMESPACE'')) s of
        (Some err, s1) \<Rightarrow> (Inr (onboardingCluster, Some err), s1)
      | (None, s1) \<Rightarrow>
          (case me_patch_client x onboardingCluster (ms_world s1) of
             None \<Rightarrow> (Inl Panicked, s1)
           | Some (c, w) \<Rightarrow> (Inr (c, None), s1\<lparr>ms_world := w\<rparr>)))"

definition requestOnboardingClusterAccess :: "'m main_ext \<Rightarrow> policy_rule list list \<Rightarrow> string \<Rightarrow> 'm ms
    \<Rightarrow> (process_end + (cluster_handle \<times> error option)) \<times> 'm ms" where
  "requestOnboardingClusterAccess x permissions cmdSuffix s =
     (case perform x (RequestAccess (''onboarding-'' @ cmdSuffix) (me_purpose_onboarding x) permissions) s of
        (e, s1) \<Rightarrow>
          (let cluster = me_access_handle x (''onboarding-'' @ cmdSuffix) (ms_world s1)
           in if e \<noteq> None then (Inr (cluster, e), s1)
              else if debugEnabled x then patchOnboardingClient x cluster (''onboarding-'' @ cmdSuffix) s1
              else (Inr (cluster, None), s1)))"

text \<open>Waiting for access, as both commands do it.\<close>

definition with_cluster :: "(process_end + (cluster_handle \<times> error option)) \<times> 'm ms
    \<Rightarrow> (cluster_handle \<Rightarrow> 'm ms \<Rightarrow> process_end \<times> 'm ms) \<Rightarrow> process_end \<times> 'm ms" where
  "with_cluster r k =
     (case r of
        (Inl ended, s1) \<Rightarrow> (ended, s1)
      | (Inr (c, Some err), s1) \<Rightarrow> (Exited 1, s1)
      | (Inr (c, None), s1) \<Rightarrow> k c s1)"

definition clusterAccessReconciler :: "'m main_ext \<Rightarrow> access_setup" where
  "clusterAccessReconciler x = \<lparr>as_name = ''velero'', as_mcp = mcpPermissions, as_workload = workloadPermissions,
     as_retry = 10 * second, as_local = debugEnabled x\<rparr>"

text \<open>The reconciler that is set up, with the manager constructor \<open>main\<close> passes.\<close>

definition installed_reconciler :: "reconciler_setup \<Rightarrow> 'w velero_reconciler" where
  "installed_reconciler rs = \<lparr>vr_onboarding = rs_onboarding rs, vr_platform = rs_platform rs,
     vr_pod_namespace = rs_pod_namespace rs, vr_create_manager = (\<lambda>obj. NewManager (GetID (v_meta obj)))\<rparr>"

subsection \<open>The two commands\<close>

text \<open>\<open>init\<close> installs the definitions and registers the API; errors of either are only logged.\<close>

definition init_command :: "'m main_ext \<Rightarrow> flags \<Rightarrow> cluster_handle \<Rightarrow> 'm ms \<Rightarrow> process_end \<times> 'm ms" where
  "init_command x fl platformCluster s =
     with_cluster (requestOnboardingClusterAccess x adminPermissions ''init'' s) (\<lambda>onboardingCluster s1.
       (case perform x (CreateOrUpdateCRDs [(me_purpose_platform x, platformCluster),
               (me_purpose_onboarding x, onboardingCluster)]) s1 of
          (e, s2) \<Rightarrow>
            (case perform x (RegisterGVK platformCluster (fl_provider_name fl) group_name ''v1alpha1'' ''Velero'') s2 of
               (Some err, s3) \<Rightarrow> (Returned, s3)
             | (None, s3) \<Rightarrow> (Returned, s3))))"

definition run_command :: "'m main_ext \<Rightarrow> flags \<Rightarrow> cluster_handle \<Rightarrow> string \<Rightarrow> 'm ms \<Rightarrow> process_end \<times> 'm ms" where
  "run_command x fl platformCluster podNamespace s =
     with_cluster (requestOnboardingClusterAccess x adminPermissions ''run'' s) (\<lambda>onboardingCluster.
       or_exit x (NewCtrlManager onboardingCluster \<lparr>mg_metrics = metricsServerOptions fl, mg_webhook = webhookServerOptions fl,
           mg_probe_addr = fl_probe_addr fl, mg_leader_elect = fl_leader_elect fl,
           mg_leader_id = ''services.open-control-plane.io.velero''\<rparr>)
       (or_exit x (AddPlatformCluster platformCluster)
       (\<lambda>s1. case me_build x (ms_world s1) of
          None \<Rightarrow> (Panicked, s1)
        | Some w \<Rightarrow>
            or_exit x (SetupWithManager \<lparr>rs_onboarding = onboardingCluster, rs_platform = platformCluster,
                rs_pod_namespace = podNamespace, rs_workload_cluster = True, rs_access = clusterAccessReconciler x\<rparr> (fl_provider_name fl))
            (or_exit x AddHealthzCheck
            (or_exit x AddReadyzCheck
            (or_exit x StartManager
            (\<lambda>s2. (Returned, s2))))) (s1\<lparr>ms_world := w\<rparr>))))"

definition main_setup :: "'m main_ext \<Rightarrow> string \<Rightarrow> flags \<Rightarrow> 'm ms \<Rightarrow> process_end \<times> 'm ms" where
  "main_setup x command fl =
     or_exit x GetLogger (\<lambda>s1.
       with_cluster (initializePlatformCluster x s1) (\<lambda>platformCluster s2.
         (let podNamespace = me_getenv x (me_env_pod_namespace x)
          in if podNamespace = [] then (Exited 1, s2)
             else if command = ''init'' then init_command x fl platformCluster s2
             else run_command x fl platformCluster podNamespace s2)))"

definition main :: "'m main_ext \<Rightarrow> string list \<Rightarrow> 'm ms \<Rightarrow> process_end \<times> 'm ms" where
  "main x os_args s =
     (case me_fips x (ms_world s) of
        None \<Rightarrow> (Panicked, s)
      | Some w \<Rightarrow>
          (let (command, args) = split_command os_args
           in case me_parse_flags x (tl args) default_flags of
                Inl status \<Rightarrow> (Exited status, s\<lparr>ms_world := w\<rparr>)
              | Inr fl \<Rightarrow> main_setup x command fl (s\<lparr>ms_world := w\<rparr>)))"

subsection \<open>Server options and schemes\<close>

text \<open>
  Unless HTTP/2 is enabled, both servers offer HTTP/1.1 only, whatever
  their TLS configuration was; otherwise the configuration is left alone. The metrics
  endpoint has the authentication filter exactly if it is served securely, which the
  defaults do, and a server has certificate files exactly if a path was given.
\<close>

lemma server_options_spec:
  "(\<forall>opts. opts = wo_tls (webhookServerOptions fl) \<or> opts = met_tls (metricsServerOptions fl) \<longrightarrow>
     (\<forall>c. fold apply_tls_opt opts c = (if fl_enable_http2 fl then c else c\<lparr>next_protos := [''http/1.1'']\<rparr>)))
   \<and> (met_filter (metricsServerOptions fl) \<longleftrightarrow> met_secure (metricsServerOptions fl))
   \<and> met_secure (metricsServerOptions default_flags) \<and> \<not> fl_enable_http2 default_flags
   \<and> wo_cert_dir (webhookServerOptions fl) = fl_webhook_cert_path fl
   \<and> met_cert_dir (metricsServerOptions fl) = fl_metrics_cert_path fl"
  by (simp add: webhookServerOptions_def metricsServerOptions_def tlsOpts_def default_flags_def Let_def)

text \<open>The documented behaviour of \<open>AddToScheme\<close>: without an error it registers the package's types.\<close>

definition registers :: "'s adder \<Rightarrow> ('s \<Rightarrow> api_types set) \<Rightarrow> bool" where
  "registers add types = (\<forall>g sc sc1. add g sc = (None, sc1) \<longrightarrow> types sc1 = insert g (types sc))"

text \<open>The package that holds the type of a kind; the kinds of Kubernetes itself are client-go's.\<close>

definition types_of_kind :: "string \<Rightarrow> api_types" where
  "types_of_kind k = (if k = ''CustomResourceDefinition'' then ApiExtensions
     else if k \<in> {''Velero'', ''ProviderConfig''} then VeleroTypes
     else if k = ''AccessRequest'' then ClusterTypes
     else if k = ''ServiceProvider'' then ProviderTypes else ClientGo)"

datatype role = Platform | Onboarding | Mcp | Workload

definition scheme_of :: "'s schemes \<Rightarrow> role \<Rightarrow> 's" where
  "scheme_of ss ro = (case ro of Platform \<Rightarrow> platformScheme ss | Onboarding \<Rightarrow> onboardingScheme ss
     | Mcp \<Rightarrow> mcpScheme ss | Workload \<Rightarrow> workloadScheme ss)"

text \<open>
  The kinds a start-up step handles on a cluster: access is asked for and looked up with an
  \<open>AccessRequest\<close> on the platform cluster, where the API is registered at the \<open>ServiceProvider\<close>;
  definitions are installed on both clusters; the controller that is set up watches the
  resource on the onboarding cluster and its configuration on the platform cluster.
\<close>

definition step_kinds :: "main_step \<Rightarrow> (role \<times> string) list" where
  "step_kinds st = (case st of
     RequestAccess n p perms \<Rightarrow> [(Platform, ''AccessRequest'')]
   | GetAccessRequest n ns \<Rightarrow> [(Platform, ''AccessRequest'')]
   | CreateOrUpdateCRDs maps \<Rightarrow> [(Platform, ''CustomResourceDefinition''), (Onboarding, ''CustomResourceDefinition'')]
   | RegisterGVK cl a b c d \<Rightarrow> [(Platform, ''ServiceProvider'')]
   | SetupWithManager rs prov \<Rightarrow> [(Onboarding, ''Velero''), (Platform, ''ProviderConfig''), (Platform, ''AccessRequest'')]
   | _ \<Rightarrow> [])"

text \<open>The cluster and the kind of a request of the handlers.\<close>

definition request_kind :: "request \<Rightarrow> string \<times> string" where
  "request_kind q = (case q of
     ReqGet c k key e \<Rightarrow> (c, k) | ReqDelete c k key e \<Rightarrow> (c, k) | ReqListSecrets c ns e \<Rightarrow> (c, ''Secret'')
   | ReqUpdateVelero c key e \<Rightarrow> (c, ''Velero'') | ReqCreateToken c key secs e \<Rightarrow> (c, ''ServiceAccount'')
   | ReqFetch c k key \<Rightarrow> (c, k) | ReqPersist c o' \<Rightarrow> (c, kind_of o'))"

definition role_of :: "'w velero_reconciler \<Rightarrow> cluster_context \<Rightarrow> string \<Rightarrow> role" where
  "role_of r cc c = (if c = ch_id (cc_mcp cc) then Mcp else if c = ch_id (cc_workload cc) then Workload
     else if c = ch_id (vr_onboarding r) then Onboarding else Platform)"

lemma must_add_types:
  "registers add types \<Longrightarrow> must_add add g sc = Some sc1 \<Longrightarrow> types sc1 = insert g (types sc)"
  unfolding must_add_def registers_def by (cases "add g sc"; cases "fst (add g sc)") auto

lemma init_schemes_types:
  assumes "registers add types" "init_schemes add new = Some ss"
  shows "types (platformScheme ss) = {ClientGo, ApiExtensions, VeleroTypes, ClusterTypes, ProviderTypes} \<union> types new"
    "types (onboardingScheme ss) = {ClientGo, ApiExtensions, VeleroTypes} \<union> types new"
    "types (mcpScheme ss) = {ClientGo, ApiExtensions} \<union> types new"
    "types (workloadScheme ss) = {ClientGo} \<union> types new"
  using assms(2) must_add_types[OF assms(1)]
  by (auto simp: init_schemes_def initPlatformScheme_def initOnboardingScheme_def initMcpScheme_def
      initWorkloadScheme_def bind_eq_Some_conv)

text \<open>The kinds the handlers handle, cluster by cluster.\<close>

lemma allowed_kinds:
  assumes "apply_allowed x r pc cc iid q \<or> delete_allowed x r pc cc iid q"
  shows "(\<exists>ct k key p. (ct, k, key, p) \<in> managed_items x pc iid \<and> request_kind q = (cluster_id cc ct, k))
    \<or> request_kind q \<in> {(ch_id (cc_mcp cc), ''ServiceAccount''), (ch_id (cc_workload cc), ''Secret''),
        (ch_id (vr_onboarding r), ''Velero''), (ch_id (vr_platform r), ''Secret'')}"
  using assms
  by (cases q) (auto simp: apply_allowed_def delete_allowed_def request_kind_def)

lemma managed_kind_known:
  assumes "registers add types" "init_schemes add new = Some ss" "clusters_distinct r cc"
    and "(ct, k, key, p) \<in> managed_items x pc iid"
  shows "types_of_kind k \<in> types (scheme_of ss (role_of r cc (cluster_id cc ct)))"
proof (cases ct)
  case ManagedControlPlane
  then have "role_of r cc (cluster_id cc ct) = Mcp" by (simp add: role_of_def cluster_id_def)
  then show ?thesis using managed_kinds(1)[OF assms(4) ManagedControlPlane] init_schemes_types(3)[OF assms(1,2)]
    by (auto simp: types_of_kind_def scheme_of_def)
next
  case WorkloadCluster
  then have "role_of r cc (cluster_id cc ct) = Workload"
    using assms(3) by (simp add: role_of_def cluster_id_def clusters_distinct_def not_sym)
  then show ?thesis using managed_kinds(2)[OF assms(4) WorkloadCluster] init_schemes_types(4)[OF assms(1,2)]
    by (auto simp: types_of_kind_def scheme_of_def)
qed

lemma request_kind_known:
  assumes "registers add types" "init_schemes add new = Some ss" "clusters_distinct r cc"
    and "apply_allowed x r pc cc iid q \<or> delete_allowed x r pc cc iid q" "request_kind q = (c, k)"
  shows "types_of_kind k \<in> types (scheme_of ss (role_of r cc c))"
proof -
  note ts = init_schemes_types[OF assms(1,2)]
  have ro: "role_of r cc (ch_id (cc_mcp cc)) = Mcp" "role_of r cc (ch_id (cc_workload cc)) = Workload"
    "role_of r cc (ch_id (vr_onboarding r)) = Onboarding" "role_of r cc (ch_id (vr_platform r)) = Platform"
    using assms(3) by (simp_all add: role_of_def clusters_distinct_def not_sym)
  from allowed_kinds[OF assms(4), unfolded assms(5)]
  consider ct key p where "(ct, k, key, p) \<in> managed_items x pc iid" "c = cluster_id cc ct"
    | "c = ch_id (cc_mcp cc)" "k = ''ServiceAccount''" | "c = ch_id (cc_workload cc)" "k = ''Secret''"
    | "c = ch_id (vr_onboarding r)" "k = ''Velero''" | "c = ch_id (vr_platform r)" "k = ''Secret''" by blast
  then show ?thesis
  proof cases
    case 1
    then show ?thesis using managed_kind_known[OF assms(1-3)] by simp
  qed (simp_all add: ro ts scheme_of_def types_of_kind_def)
qed

text \<open>
  C36. Schemes. After a start-up in which no registration panicked, every client knows the types
  it is used with. Each request of either handler is for a kind whose type the scheme of the
  cluster it goes to holds, the four clusters being different; and so is each kind the steps of
  the start-up handle: access requests, the provider's registration, the definitions and the
  configuration on the platform cluster, the resource and the definitions on the onboarding cluster.
\<close>

theorem schemes_cover:
  assumes "registers add types" "init_schemes add new = Some ss" "clusters_distinct r cc"
    and "fresh_manager r" "sets_label x" "mutates_secret x" "gets_own_key x"
    and "reconciler_CreateOrUpdate x r obj pc cc s = Some ((obj', res, e), s')
       \<or> reconciler_Delete x r obj pc cc s = Some ((obj', res, e), s')"
  shows "(\<exists>log. trace s' = trace s @ log \<and> (\<forall>q \<in> set log. \<forall>c k. request_kind q = (c, k) \<longrightarrow>
        types_of_kind k \<in> types (scheme_of ss (role_of r cc c))))
    \<and> (\<forall>st ro k. (ro, k) \<in> set (step_kinds st) \<longrightarrow> types_of_kind k \<in> types (scheme_of ss ro))"
proof
  show "\<forall>st ro k. (ro, k) \<in> set (step_kinds st) \<longrightarrow> types_of_kind k \<in> types (scheme_of ss ro)"
    using init_schemes_types[OF assms(1,2)]
    by (auto simp: step_kinds_def types_of_kind_def scheme_of_def split: main_step.splits)
  from assms(8) obtain log iid where "trace s' = trace s @ log"
    "\<forall>q \<in> set log. apply_allowed x r pc cc iid q \<or> delete_allowed x r pc cc iid q"
    using update_log[OF _ assms(4-6)] deletion_log[OF _ assms(4,7)] by metis
  then show "\<exists>log. trace s' = trace s @ log \<and> (\<forall>q \<in> set log. \<forall>c k. request_kind q = (c, k) \<longrightarrow>
        types_of_kind k \<in> types (scheme_of ss (role_of r cc c)))"
    using request_kind_known[OF assms(1-3)] by blast
qed

end
