(* ===== verification/Start_Up.thy ===== *)
theory Start_Up
  imports Main_Program
begin

text \<open>
  How the program starts and ends: the steps of the \<open>run\<close> command come in their order, none is
  left out and each needs all before it; the \<open>init\<close> job ends normally whatever its two installation steps
  answered. \<open>orderly\<close> and \<open>init_log\<close> are the invariants the two proofs carry along the
  continuations of \<open>main\<close>.
\<close>

subsection \<open>The start-up sequence\<close>

fun step_rank :: "main_step \<Rightarrow> nat" where
  "step_rank GetLogger = 0"
| "step_rank LoadConfig = 1"
| "step_rank InitPlatformClient = 2"
| "step_rank (RequestAccess _ _ _) = 3"
| "step_rank (GetAccessRequest _ _) = 4"
| "step_rank (CreateOrUpdateCRDs _) = 5"
| "step_rank (RegisterGVK _ _ _ _ _) = 6"
| "step_rank (NewCtrlManager _ _) = 7"
| "step_rank (AddPlatformCluster _) = 8"
| "step_rank (SetupWithManager _ _) = 9"
| "step_rank AddHealthzCheck = 10"
| "step_rank AddReadyzCheck = 11"
| "step_rank StartManager = 12"

text \<open>What a step of the \<open>run\<close> command carries.\<close>

definition step_ok :: "'m main_ext \<Rightarrow> main_step \<Rightarrow> bool" where
  "step_ok x st = (case st of
     RequestAccess n p perms \<Rightarrow> n = ''onboarding-run'' \<and> perms = adminPermissions
   | GetAccessRequest n ns \<Rightarrow> debugEnabled x
   | CreateOrUpdateCRDs maps \<Rightarrow> False
   | RegisterGVK cl a b c d \<Rightarrow> False
   | SetupWithManager rs prov \<Rightarrow> rs_pod_namespace rs = me_getenv x (me_env_pod_namespace x) \<and> rs_pod_namespace rs \<noteq> []
       \<and> rs_workload_cluster rs \<and> as_mcp (rs_access rs) = mcpPermissions \<and> as_workload (rs_access rs) = workloadPermissions
       \<and> (as_local (rs_access rs) \<longleftrightarrow> debugEnabled x)
   | _ \<Rightarrow> True)"

text \<open>The steps of the \<open>run\<close> command, all of them, in their order; the lookup only in a debugging environment.\<close>

definition run_ranks :: "'m main_ext \<Rightarrow> nat list" where
  "run_ranks x = [0, 1, 2, 3] @ (if debugEnabled x then [4] else []) @ [7, 8, 9, 10, 11, 12]"

text \<open>
  The steps a computation takes of those that are left, \<open>rs\<close>, with the way it ends: they are the first ones
  of \<open>rs\<close>, none left out, all but the last succeeded, a failure of the last ends the process with
  status 1, and it returns normally exactly if all of \<open>rs\<close> were taken and the last succeeded.
\<close>

definition start_log :: "'m main_ext \<Rightarrow> nat list \<Rightarrow> (main_step \<times> error option) list \<Rightarrow> process_end \<Rightarrow> bool" where
  "start_log x rs new out \<longleftrightarrow> (\<exists>left. rs = map (step_rank \<circ> fst) new @ left
       \<and> (out = Returned \<longleftrightarrow> left = [] \<and> (\<forall>p \<in> set new. snd p = None)))
     \<and> (\<forall>p \<in> set new. step_ok x (fst p)) \<and> (\<forall>p \<in> set (butlast new). snd p = None)
     \<and> (new \<noteq> [] \<and> snd (last new) \<noteq> None \<longrightarrow> out = Exited 1)"

lemma start_log_Nil: "out \<noteq> Returned \<Longrightarrow> rs \<noteq> [] \<Longrightarrow> start_log x rs [] out"
  by (simp add: start_log_def)

lemma start_log_failed: "step_ok x st \<Longrightarrow> start_log x (step_rank st # rs) [(st, Some err)] (Exited 1)"
  by (simp add: start_log_def)

lemma start_log_Cons:
  assumes "start_log x rs new out" "step_ok x st"
  shows "start_log x (step_rank st # rs) ((st, None) # new) out"
  using assms by (cases "new = []") (auto simp: start_log_def)

definition orderly :: "'m main_ext \<Rightarrow> nat list \<Rightarrow> ('m ms \<Rightarrow> process_end \<times> 'm ms) \<Rightarrow> bool" where
  "orderly x rs k = (\<forall>s out s'. k s = (out, s') \<longrightarrow> (\<exists>new. ms_log s' = ms_log s @ new \<and> start_log x rs new out))"

lemma orderly_ended: "out \<noteq> Returned \<Longrightarrow> rs \<noteq> [] \<Longrightarrow> orderly x rs (\<lambda>s. (out, s))"
  by (simp add: orderly_def start_log_Nil)

lemma orderly_returned: "orderly x [] (\<lambda>s. (Returned, s))"
  by (simp add: orderly_def start_log_def)

text \<open>The log of one step, and a step before an orderly rest.\<close>

lemma perform_log: "perform x st s = (e, s1) \<Longrightarrow> ms_log s1 = ms_log s @ [(st, e)]"
  by (auto simp: perform_def Let_def split: prod.splits)

lemma orderly_perform:
  assumes "step_rank st = n" "step_ok x st" "\<And>s. orderly x rs (k s)"
  shows "orderly x (n # rs) (\<lambda>s. case perform x st s of (None, s1) \<Rightarrow> k s1 s1 | (Some err, s1) \<Rightarrow> (Exited 1, s1))"
  unfolding orderly_def
proof (intro allI impI, goal_cases)
  case (1 s out s')
  obtain e s1 where p: "perform x st s = (e, s1)" by force
  note l = perform_log[OF p]
  show ?case
  proof (cases e)
    case (Some err)
    with 1 p have "out = Exited 1" "ms_log s' = ms_log s @ [(st, Some err)]" using l by auto
    then show ?thesis using start_log_failed[of x st rs err] assms(1,2) by blast
  next
    case None
    with 1 p have "k s1 s1 = (out, s')" by simp
    from assms(3)[of s1, unfolded orderly_def, rule_format, OF this]
    obtain new where "ms_log s' = ms_log s1 @ new" "start_log x rs new out" by blast
    then have "ms_log s' = ms_log s @ (st, None) # new" "start_log x (n # rs) ((st, None) # new) out"
      using start_log_Cons[of x rs new out st] assms(1,2) l None by simp_all
    then show ?thesis by blast
  qed
qed

text \<open>Changes of the world that log nothing, and continuations that depend on the state.\<close>

lemma orderly_state:
  assumes "\<And>s. orderly x rs (k s)" "\<And>s. ms_log (f s) = ms_log s"
  shows "orderly x rs (\<lambda>s. k s (f s))"
  unfolding orderly_def
proof (intro allI impI, goal_cases)
  case (1 s out s')
  from assms(1)[of s, unfolded orderly_def, rule_format, OF 1] show ?case by (simp only: assms(2))
qed

lemma orderly_step:
  assumes "orderly x rs k" "step_rank st = n" "step_ok x st"
  shows "orderly x (n # rs) (or_exit x st k)"
proof -
  have "or_exit x st k = (\<lambda>s. case perform x st s of (None, s1) \<Rightarrow> (\<lambda>_. k) s1 s1 | (Some err, s1) \<Rightarrow> (Exited 1, s1))"
    by (intro ext) (auto simp: or_exit_def split: prod.splits option.splits)
  moreover have "orderly x (n # rs) (\<lambda>s. case perform x st s of (None, s1) \<Rightarrow> (\<lambda>_. k) s1 s1 | (Some err, s1) \<Rightarrow> (Exited 1, s1))"
    by (intro orderly_perform) (use assms in auto)
  ultimately show ?thesis by simp
qed

text \<open>Waiting for the onboarding cluster, the second step only in a debugging environment.\<close>

lemma orderly_patch:
  assumes "debugEnabled x" "\<And>c. orderly x rs (k c)" "rs \<noteq> []"
  shows "orderly x (4 # rs) (\<lambda>s. with_cluster (patchOnboardingClient x c suffix s) k)"
proof -
  define g where "g s1 = (case me_patch_client x c (ms_world s1) of None \<Rightarrow> (\<lambda>s. (Panicked, s))
      | Some (c', w) \<Rightarrow> (\<lambda>s. k c' (s\<lparr>ms_world := w\<rparr>)))" for s1 :: "'a ms"
  have "orderly x rs (g s1)" for s1 unfolding g_def
    by (cases "me_patch_client x c (ms_world s1)")
      (auto intro!: orderly_ended assms(3) orderly_state[where k = "\<lambda>_. k _", OF assms(2)])
  then have o: "orderly x (4 # rs) (\<lambda>s. case perform x (GetAccessRequest (me_stable_name x service_name suffix) (me_getenv x ''POD_NAMESPACE'')) s
      of (None, s1) \<Rightarrow> g s1 s1 | (Some err, s1) \<Rightarrow> (Exited 1, s1))"
    by (intro orderly_perform) (auto simp: step_ok_def assms(1))
  have "with_cluster (patchOnboardingClient x c suffix s) k =
      (case perform x (GetAccessRequest (me_stable_name x service_name suffix) (me_getenv x ''POD_NAMESPACE'')) s
      of (None, s1) \<Rightarrow> g s1 s1 | (Some err, s1) \<Rightarrow> (Exited 1, s1))" for s
    by (auto simp: with_cluster_def patchOnboardingClient_def g_def split: prod.splits option.splits)
  with o show ?thesis by simp
qed

lemma orderly_request:
  assumes "\<And>c. orderly x rs (k c)" "rs \<noteq> []"
  shows "orderly x (3 # (if debugEnabled x then [4] else []) @ rs)
    (\<lambda>s. with_cluster (requestOnboardingClusterAccess x adminPermissions ''run'' s) k)"
proof -
  let ?st = "RequestAccess ''onboarding-run'' (me_purpose_onboarding x) adminPermissions"
  define g where "g s1 = (let c = me_access_handle x ''onboarding-run'' (ms_world s1) in
      if debugEnabled x then (\<lambda>s. with_cluster (patchOnboardingClient x c ''onboarding-run'' s) k) else k c)" for s1 :: "'a ms"
  have "orderly x ((if debugEnabled x then [4] else []) @ rs) (g s1)" for s1
    using orderly_patch[of x rs k] assms by (auto simp: g_def Let_def)
  then have o: "orderly x (3 # (if debugEnabled x then [4] else []) @ rs)
      (\<lambda>s. case perform x ?st s of (None, s1) \<Rightarrow> g s1 s1 | (Some err, s1) \<Rightarrow> (Exited 1, s1))"
    by (intro orderly_perform) (auto simp: step_ok_def)
  have "with_cluster (requestOnboardingClusterAccess x adminPermissions ''run'' s) k =
      (case perform x ?st s of (None, s1) \<Rightarrow> g s1 s1 | (Some err, s1) \<Rightarrow> (Exited 1, s1))" for s
    by (auto simp: with_cluster_def requestOnboardingClusterAccess_def g_def Let_def split: prod.splits option.splits)
  with o show ?thesis by simp
qed

lemma orderly_run:
  assumes "pn = me_getenv x (me_env_pod_namespace x)" "pn \<noteq> []"
  shows "orderly x (3 # (if debugEnabled x then [4] else []) @ [7, 8, 9, 10, 11, 12]) (run_command x fl pc pn)"
  unfolding run_command_def
proof (rule orderly_request)
  fix c
  let ?rest = "or_exit x AddHealthzCheck (or_exit x AddReadyzCheck (or_exit x StartManager (\<lambda>s2. (Returned, s2))))"
  let ?install = "or_exit x (SetupWithManager \<lparr>rs_onboarding = c, rs_platform = pc, rs_pod_namespace = pn,
      rs_workload_cluster = True, rs_access = clusterAccessReconciler x\<rparr> (fl_provider_name fl)) ?rest"
  have "orderly x [10, 11, 12] ?rest"
    by (intro orderly_step orderly_returned) (simp_all add: step_ok_def)
  then have "orderly x [9, 10, 11, 12] ?install"
    by (rule orderly_step) (use assms in \<open>simp_all add: step_ok_def clusterAccessReconciler_def\<close>)
  then have "orderly x [9, 10, 11, 12] (case me_build x v of None \<Rightarrow> (\<lambda>s. (Panicked, s)) | Some w \<Rightarrow> (\<lambda>s. ?install (s\<lparr>ms_world := w\<rparr>)))" for v
    by (auto intro!: orderly_ended orderly_state[where k = "\<lambda>_. ?install"] split: option.split)
  from orderly_state[where f = "\<lambda>s. s", OF this]
  have "orderly x [9, 10, 11, 12] (\<lambda>s. (case me_build x (ms_world s) of None \<Rightarrow> (\<lambda>s. (Panicked, s)) | Some w \<Rightarrow> (\<lambda>s. ?install (s\<lparr>ms_world := w\<rparr>))) s)"
    by simp
  also have "(\<lambda>s. (case me_build x (ms_world s) of None \<Rightarrow> (\<lambda>s. (Panicked, s)) | Some w \<Rightarrow> (\<lambda>s. ?install (s\<lparr>ms_world := w\<rparr>))) s)
      = (\<lambda>s1. case me_build x (ms_world s1) of None \<Rightarrow> (Panicked, s1) | Some w \<Rightarrow> ?install (s1\<lparr>ms_world := w\<rparr>))"
    by (intro ext) (simp split: option.split)
  finally have "orderly x [8, 9, 10, 11, 12] (or_exit x (AddPlatformCluster pc)
       (\<lambda>s1. case me_build x (ms_world s1) of None \<Rightarrow> (Panicked, s1) | Some w \<Rightarrow> ?install (s1\<lparr>ms_world := w\<rparr>)))"
    by (rule orderly_step) (simp_all add: step_ok_def)
  then show "orderly x [7, 8, 9, 10, 11, 12] (or_exit x (NewCtrlManager c \<lparr>mg_metrics = metricsServerOptions fl, mg_webhook = webhookServerOptions fl,
           mg_probe_addr = fl_probe_addr fl, mg_leader_elect = fl_leader_elect fl,
           mg_leader_id = ''services.open-control-plane.io.velero''\<rparr>)
       (or_exit x (AddPlatformCluster pc)
       (\<lambda>s1. case me_build x (ms_world s1) of None \<Rightarrow> (Panicked, s1) | Some w \<Rightarrow> ?install (s1\<lparr>ms_world := w\<rparr>))))"
    by (rule orderly_step) (simp_all add: step_ok_def)
qed simp

lemma orderly_platform:
  assumes "\<And>c. orderly x rs (k c)"
  shows "orderly x (1 # 2 # rs) (\<lambda>s. with_cluster (initializePlatformCluster x s) k)"
proof -
  let ?init = "\<lambda>s. case perform x InitPlatformClient s of
      (None, s1) \<Rightarrow> k (me_platform_handle x (ms_world s1)) s1 | (Some err, s1) \<Rightarrow> (Exited 1, s1)"
  have o: "orderly x (2 # rs) ?init"
    using orderly_perform[where n = 2 and st = InitPlatformClient and k = "\<lambda>s1. k (me_platform_handle x (ms_world s1))" and x = x]
      assms by (simp add: step_ok_def)
  have "orderly x (1 # 2 # rs) (\<lambda>s. case perform x LoadConfig s of (None, s1) \<Rightarrow> (\<lambda>_. ?init) s1 s1 | (Some err, s1) \<Rightarrow> (Exited 1, s1))"
    by (rule orderly_perform) (use o in \<open>simp_all add: step_ok_def\<close>)
  moreover have "with_cluster (initializePlatformCluster x s) k
      = (case perform x LoadConfig s of (None, s1) \<Rightarrow> (\<lambda>_. ?init) s1 s1 | (Some err, s1) \<Rightarrow> (Exited 1, s1))" for s
    by (auto simp: with_cluster_def initializePlatformCluster_def split: prod.splits option.splits)
  ultimately show ?thesis by simp
qed

lemma orderly_setup:
  assumes "command \<noteq> ''init''"
  shows "orderly x (run_ranks x) (main_setup x command fl)"
proof -
  let ?pn = "me_getenv x (me_env_pod_namespace x)"
  let ?rs = "3 # (if debugEnabled x then [4] else []) @ [7, 8, 9, 10, 11, 12]"
  have "orderly x ?rs (\<lambda>s2. if ?pn = [] then (Exited 1, s2) else run_command x fl c ?pn s2)" for c
    using orderly_run[of ?pn x fl c] by (cases "?pn = []") (simp_all add: orderly_ended)
  then have "orderly x (1 # 2 # ?rs) (\<lambda>s. with_cluster (initializePlatformCluster x s)
      (\<lambda>c s2. if ?pn = [] then (Exited 1, s2) else run_command x fl c ?pn s2))"
    by (rule orderly_platform)
  moreover have "run_ranks x = 0 # 1 # 2 # ?rs" by (simp add: run_ranks_def)
  ultimately show ?thesis unfolding main_setup_def using assms
    by (simp only: if_False Let_def) (rule orderly_step, auto simp: step_ok_def)
qed

text \<open>
  C18. The start of the controller. With any command but \<open>init\<close> the program takes the steps of
  \<open>run\<close> from the first on, in their order and without leaving one out, stops at the first that
  fails, then with status 1, or at a check between them (FIPS, flags, namespace, builder). It ends
  normally exactly if it took every one of them, the setting up of the controller and both probes
  included, and all succeeded. Nothing in this path installs definitions; the controller is set up
  only with a namespace to read secrets from, with workload access and with the permissions of
  both clusters, and access is looked up and redirected exactly in a debugging environment.
\<close>

theorem main_run:
  assumes "main x os_args s = (out, s')" "fst (split_command os_args) \<noteq> ''init''"
  shows "\<exists>new left. ms_log s' = ms_log s @ new \<and> run_ranks x = map (step_rank \<circ> fst) new @ left
     \<and> (out = Returned \<longleftrightarrow> left = [] \<and> (\<forall>p \<in> set new. snd p = None))
     \<and> (\<forall>p \<in> set new. step_ok x (fst p)) \<and> (\<forall>p \<in> set (butlast new). snd p = None)
     \<and> (new \<noteq> [] \<and> snd (last new) \<noteq> None \<longrightarrow> out = Exited 1)"
proof -
  have ranks: "run_ranks x \<noteq> []" by (simp add: run_ranks_def)
  obtain command args where c: "split_command os_args = (command, args)" by force
  have "\<exists>new. ms_log s' = ms_log s @ new \<and> start_log x (run_ranks x) new out"
  proof (cases "me_fips x (ms_world s)")
    case None
    then have "ms_log s' = ms_log s @ []" "out \<noteq> Returned" using assms(1) by (auto simp: main_def)
    then show ?thesis using start_log_Nil[OF _ ranks] by blast
  next
    case (Some w)
    show ?thesis
    proof (cases "me_parse_flags x (tl args) default_flags")
      case (Inl status)
      then have "ms_log s' = ms_log s @ []" "out \<noteq> Returned" using assms(1) Some by (auto simp: main_def c)
      then show ?thesis using start_log_Nil[OF _ ranks] by blast
    next
      case (Inr fl)
      with Some assms c have "main_setup x command fl (s\<lparr>ms_world := w\<rparr>) = (out, s')" "command \<noteq> ''init''"
        by (simp_all add: main_def)
      with orderly_setup[of command x fl] show ?thesis unfolding orderly_def by fastforce
    qed
  qed
  then show ?thesis unfolding start_log_def by blast
qed

text \<open>Waiting for a cluster logs set-up steps only, and all of them succeeded if there is a cluster.\<close>

definition waited :: "'m ms \<Rightarrow> (process_end + (cluster_handle \<times> error option)) \<times> 'm ms \<Rightarrow> bool" where
  "waited s r \<longleftrightarrow> fst r \<noteq> Inl Returned \<and> (\<exists>new. ms_log (snd r) = ms_log s @ new
     \<and> (\<forall>p \<in> set new. step_rank (fst p) \<le> 4 \<and> ((\<exists>c. fst r = Inr (c, None)) \<longrightarrow> snd p = None)))"

lemma waited_step:
  assumes "perform x st s = (None, s1)" "step_rank st \<le> 4" "waited s1 r"
  shows "waited s r"
proof -
  from assms(3) obtain new where new: "fst r \<noteq> Inl Returned" "ms_log (snd r) = ms_log s1 @ new"
    "\<forall>p \<in> set new. step_rank (fst p) \<le> 4 \<and> ((\<exists>c. fst r = Inr (c, None)) \<longrightarrow> snd p = None)"
    unfolding waited_def by blast
  then show ?thesis unfolding waited_def using perform_log[OF assms(1)] assms(2)
    by (intro conjI exI[of _ "(st, None) # new"]) simp_all
qed

lemma waited_platform: "waited s (initializePlatformCluster x s)"
proof -
  obtain e s1 where p: "perform x LoadConfig s = (e, s1)" by force
  obtain e2 s2 where q: "perform x InitPlatformClient s1 = (e2, s2)" by force
  show ?thesis using perform_log[OF p] perform_log[OF q]
    by (cases e) (auto simp: waited_def initializePlatformCluster_def p q)
qed

lemma waited_patch: "waited s (patchOnboardingClient x c suffix s)"
proof -
  obtain e s1 where p: "perform x (GetAccessRequest (me_stable_name x service_name suffix) (me_getenv x ''POD_NAMESPACE'')) s = (e, s1)"
    by force
  show ?thesis using perform_log[OF p]
    by (cases e; cases "me_patch_client x c (ms_world s1)") (auto simp: waited_def patchOnboardingClient_def p)
qed

lemma waited_request: "waited s (requestOnboardingClusterAccess x perms suffix s)"
proof -
  define n where "n = ''onboarding-'' @ suffix"
  note d = requestOnboardingClusterAccess_def[of x perms suffix s, folded n_def]
  obtain e s1 where p: "perform x (RequestAccess n (me_purpose_onboarding x) perms) s = (e, s1)" by force
  note l = perform_log[OF p]
  define c where "c = me_access_handle x n (ms_world s1)"
  show ?thesis
  proof (cases "e = None \<and> debugEnabled x")
    case True
    then have r: "requestOnboardingClusterAccess x perms suffix s = patchOnboardingClient x c n s1"
      by (simp add: d p Let_def c_def)
    then show ?thesis using waited_step[OF p[unfolded conjunct1[OF True]] _ waited_patch] by simp
  next
    case False
    then have "requestOnboardingClusterAccess x perms suffix s = (Inr (c, e), s1)"
      by (auto simp: d p Let_def c_def)
    then show ?thesis using l by (simp add: waited_def)
  qed
qed

text \<open>
  The log of \<open>init\<close>: either set-up steps only and another end than a normal one, or set-up steps
  that all succeeded, the two installation steps, and a normal end.
\<close>

definition init_log :: "(main_step \<times> error option) list \<Rightarrow> process_end \<Rightarrow> bool" where
  "init_log new out \<longleftrightarrow> (if out = Returned
     then \<exists>pre maps e c prov e2. (\<forall>p \<in> set pre. snd p = None \<and> step_rank (fst p) \<le> 4)
       \<and> new = pre @ [(CreateOrUpdateCRDs maps, e), (RegisterGVK c prov group_name ''v1alpha1'' ''Velero'', e2)]
     else \<forall>p \<in> set new. step_rank (fst p) \<le> 4)"

lemma init_log_with_cluster:
  assumes "waited s r" "with_cluster r k = (out, s')"
    "\<And>c s1. k c s1 = (out, s') \<Longrightarrow> \<exists>new. ms_log s' = ms_log s1 @ new \<and> init_log new out"
  shows "\<exists>new. ms_log s' = ms_log s @ new \<and> init_log new out"
proof -
  obtain q s1 where r: "r = (q, s1)" by force
  from assms(1) obtain new where new: "q \<noteq> Inl Returned" "ms_log s1 = ms_log s @ new"
    "\<forall>p \<in> set new. step_rank (fst p) \<le> 4 \<and> ((\<exists>c. q = Inr (c, None)) \<longrightarrow> snd p = None)"
    by (auto simp: waited_def r)
  show ?thesis
  proof (cases "\<exists>c. q = Inr (c, None)")
    case True
    then obtain c where q: "q = Inr (c, None)" by blast
    with assms(2) r have "k c s1 = (out, s')" by (simp add: with_cluster_def)
    from assms(3)[OF this] obtain more where more: "ms_log s' = ms_log s1 @ more" "init_log more out" by blast
    have "init_log (new @ more) out"
    proof (cases "out = Returned")
      case True
      with more(2) obtain pre maps e cl prov e2 where m: "\<forall>p \<in> set pre. snd p = None \<and> step_rank (fst p) \<le> 4"
        "more = pre @ [(CreateOrUpdateCRDs maps, e), (RegisterGVK cl prov group_name ''v1alpha1'' ''Velero'', e2)]"
        unfolding init_log_def by (simp only: if_True refl) blast
      have "\<forall>p \<in> set (new @ pre). snd p = None \<and> step_rank (fst p) \<le> 4" using m(1) new(3) q by auto
      moreover have "new @ more = (new @ pre) @ [(CreateOrUpdateCRDs maps, e), (RegisterGVK cl prov group_name ''v1alpha1'' ''Velero'', e2)]"
        using m(2) by (simp only: append_assoc)
      ultimately show ?thesis unfolding init_log_def using True by (simp only: if_True refl) blast
    next
      case False
      then show ?thesis using more(2) new(3) by (auto simp: init_log_def)
    qed
    then show ?thesis using more(1) new(2) by (intro exI[of _ "new @ more"]) simp
  next
    case False
    then have "out \<noteq> Returned" "s' = s1" using assms(2) new(1) r
      by (auto simp: with_cluster_def split: sum.splits prod.splits option.splits)
    then show ?thesis using new by (intro exI[of _ new]) (auto simp: init_log_def)
  qed
qed

lemma init_command_log:
  assumes "init_command x fl pc s = (out, s')"
  shows "\<exists>new. ms_log s' = ms_log s @ new \<and> init_log new out"
proof (rule init_log_with_cluster[OF waited_request assms[unfolded init_command_def]], goal_cases)
  case (1 c s1)
  let ?crds = "CreateOrUpdateCRDs [(me_purpose_platform x, pc), (me_purpose_onboarding x, c)]"
  let ?reg = "RegisterGVK pc (fl_provider_name fl) group_name ''v1alpha1'' ''Velero''"
  obtain e s2 where p: "perform x ?crds s1 = (e, s2)" by force
  obtain e2 s3 where q: "perform x ?reg s2 = (e2, s3)" by force
  have "out = Returned" "s' = s3" using 1 unfolding p q prod.case by (auto split: option.splits)
  moreover have "ms_log s3 = ms_log s1 @ [(?crds, e), (?reg, e2)]"
    using perform_log[OF p] perform_log[OF q] by (simp only: append_assoc append_Cons append_Nil)
  moreover have "init_log ([] @ [(?crds, e), (?reg, e2)]) Returned"
    unfolding init_log_def if_P[OF refl] by (intro exI[of _ "[]"] exI conjI) (rule ballI, simp, rule refl)
  ultimately show ?case unfolding append_Nil by blast
qed

lemma init_setup_log:
  assumes "main_setup x ''init'' fl s = (out, s')"
  shows "\<exists>new. ms_log s' = ms_log s @ new \<and> init_log new out"
proof -
  obtain e s1 where p: "perform x GetLogger s = (e, s1)" by force
  define r where "r = (case e of None \<Rightarrow> (case initializePlatformCluster x s1 of (q, s2) \<Rightarrow> (q, s2))
    | Some err \<Rightarrow> (Inl (Exited 1), s1))"
  have "waited s r"
  proof (cases e)
    case None
    then show ?thesis using waited_step[OF p[unfolded None] _ waited_platform] by (simp add: r_def)
  next
    case (Some err)
    then show ?thesis using perform_log[OF p] by (simp add: r_def waited_def)
  qed
  moreover have "with_cluster r (\<lambda>platformCluster s2.
         (let podNamespace = me_getenv x (me_env_pod_namespace x)
          in if podNamespace = [] then (Exited 1, s2) else init_command x fl platformCluster s2)) = (out, s')"
    using assms[unfolded main_setup_def, simplified refl if_True, unfolded or_exit_def p]
    by (cases e) (simp_all add: r_def with_cluster_def Let_def)
  ultimately show ?thesis
  proof (rule init_log_with_cluster, goal_cases)
    case (1 c s2)
    show ?case
    proof (cases "me_getenv x (me_env_pod_namespace x) = []")
      case True
      with 1 have "out = Exited 1" "ms_log s' = ms_log s2 @ []" by simp_all
      then show ?thesis by (intro exI[of _ "[]"]) (simp add: init_log_def)
    next
      case False
      with 1 init_command_log[of x fl c s2] show ?thesis by simp
    qed
  qed
qed

text \<open>
  C32. The outcome of \<open>init\<close>. The job ends normally exactly if it had access to both clusters and
  came to installing the definitions, whose answer, like that of the registration of the API after
  it, then makes no difference: a job that could not install the definitions still succeeds. It
  never starts the controller.
\<close>

theorem init_outcome:
  assumes "main x os_args s = (out, s')" "fst (split_command os_args) = ''init''"
  shows "\<exists>new. ms_log s' = ms_log s @ new \<and> StartManager \<notin> fst ` set new
     \<and> (out = Returned \<longleftrightarrow> (\<exists>maps. CreateOrUpdateCRDs maps \<in> fst ` set new))
     \<and> (out = Returned \<longleftrightarrow> (\<exists>pre maps e c prov e2. (\<forall>p \<in> set pre. snd p = None \<and> step_rank (fst p) \<le> 4)
          \<and> new = pre @ [(CreateOrUpdateCRDs maps, e), (RegisterGVK c prov group_name ''v1alpha1'' ''Velero'', e2)]))"
proof -
  obtain command args where c: "split_command os_args = (command, args)" by force
  have "\<exists>new. ms_log s' = ms_log s @ new \<and> init_log new out"
  proof (cases "me_fips x (ms_world s)")
    case None
    then have "ms_log s' = ms_log s @ []" "out = Panicked" using assms(1) by (simp_all add: main_def)
    then show ?thesis by (intro exI[of _ "[]"]) (simp add: init_log_def)
  next
    case (Some w)
    show ?thesis
    proof (cases "me_parse_flags x (tl args) default_flags")
      case (Inl status)
      then have "ms_log s' = ms_log s @ []" "out = Exited status" using assms(1) Some by (auto simp: main_def c)
      then show ?thesis by (intro exI[of _ "[]"]) (simp add: init_log_def)
    next
      case (Inr fl)
      have "command = ''init''" using assms(2) unfolding c by (simp only: fst_conv)
      moreover have "main_setup x command fl (s\<lparr>ms_world := w\<rparr>) = (out, s')" using Inr Some assms(1) c by (simp add: main_def)
      ultimately have "main_setup x ''init'' fl (s\<lparr>ms_world := w\<rparr>) = (out, s')" by (simp only:)
      from init_setup_log[OF this] show ?thesis by simp
    qed
  qed
  then obtain new where new: "ms_log s' = ms_log s @ new" "init_log new out" by blast
  show ?thesis
  proof (cases "out = Returned")
    case True
    with new(2) obtain pre maps e cl prov e2 where m: "\<forall>p \<in> set pre. snd p = None \<and> step_rank (fst p) \<le> 4"
      "new = pre @ [(CreateOrUpdateCRDs maps, e), (RegisterGVK cl prov group_name ''v1alpha1'' ''Velero'', e2)]"
      unfolding init_log_def by (simp only: if_True refl) blast
    have "StartManager \<notin> fst ` set pre" using m(1) by force
    moreover have "CreateOrUpdateCRDs maps \<in> fst ` set new" using m(2) by simp
    ultimately show ?thesis using new(1) m True by (intro exI[of _ new]) auto
  next
    case False
    with new(2) have m: "\<forall>p \<in> set new. step_rank (fst p) \<le> 4" by (simp add: init_log_def)
    then have "StartManager \<notin> fst ` set new" "\<And>maps. CreateOrUpdateCRDs maps \<notin> fst ` set new" by force+
    moreover from calculation have "new \<noteq> pre @ [(CreateOrUpdateCRDs maps, e), q]" for pre maps e q by force
    ultimately show ?thesis using new(1) False by (intro exI[of _ new]) blast
  qed
qed

end
