(* ===== verification/Program_Witnesses.thy ===== *)
theory Program_Witnesses
  imports Witnesses Start_Up
begin

text \<open>
  The properties of the start-up at concrete inputs: schemes that are the lists of the
  packages added to them, and an environment that answers every step without an error except
  the steps of a given list.
\<close>

definition test_add :: "api_types list adder" where
  "test_add g sc = (None, g # sc)"

definition test_main :: "main_step list \<Rightarrow> unit main_ext" where
  "test_main bad = \<lparr>me_getenv = (\<lambda>v. if v = ''POD_NAMESPACE'' then ''openmcp-system'' else ''''),
     me_env_pod_namespace = ''POD_NAMESPACE'', me_purpose_platform = ''platform'', me_purpose_onboarding = ''onboarding'',
     me_parse_flags = (\<lambda>as fl. Inr fl), me_fips = Some,
     me_do = (\<lambda>st w. (if st \<in> set bad then Some (ErrorNew ''refused'') else None, w)),
     me_platform_handle = (\<lambda>w. ref_mcp), me_access_handle = (\<lambda>n w. ref_workload),
     me_patch_client = (\<lambda>c w. Some (c, w)), me_stable_name = (\<lambda>c n. n), me_build = Some\<rparr>"

definition test_crds :: main_step where
  "test_crds = CreateOrUpdateCRDs [(''platform'', ref_mcp), (''onboarding'', ref_workload)]"

lemmas test_run = test_crds_def main_def main_setup_def run_command_def init_command_def split_command_def test_main_def or_exit_def
  perform_def with_cluster_def initializePlatformCluster_def requestOnboardingClusterAccess_def
  debugEnabled_def debugEnvVar_def Let_def

theorem permissions_suffice_witness:
  "\<exists>obj' res e s' new. reconciler_CreateOrUpdate ref_ext ref_reconciler ref_velero ref_config ref_clusters ref_start = Some ((obj', res, e), s')
     \<and> trace s' = trace ref_start @ new \<and> list_all (covered ref_reconciler ref_clusters) new"
proof -
  obtain obj' res e s' where r: "reconciler_CreateOrUpdate ref_ext ref_reconciler ref_velero ref_config ref_clusters ref_start = Some ((obj', res, e), s')"
    using ref_update_run by blast
  have d: "clusters_distinct ref_reconciler ref_clusters"
    by (simp add: clusters_distinct_def ref_reconciler_def ref_clusters_def ref_mcp_def ref_workload_def)
  from permissions_suffice[OF d ref_fresh_manager ref_sets_label ref_mutates_secret ref_gets_own_key disjI1[OF r]] r show ?thesis
    by (auto simp: list_all_iff)
qed

theorem schemes_cover_witness:
  "\<exists>ss obj' res e s' log. init_schemes test_add [] = Some ss
     \<and> ClusterTypes \<in> set (platformScheme ss) \<and> ProviderTypes \<in> set (platformScheme ss)
     \<and> reconciler_CreateOrUpdate ref_ext ref_reconciler ref_velero ref_config ref_clusters ref_start = Some ((obj', res, e), s')
     \<and> trace s' = trace ref_start @ log
     \<and> list_all (\<lambda>q. types_of_kind (snd (request_kind q)) \<in>
          set (scheme_of ss (role_of ref_reconciler ref_clusters (fst (request_kind q))))) log"
proof -
  obtain ss where ss: "init_schemes test_add [] = Some ss"
    by (simp add: init_schemes_def initPlatformScheme_def initOnboardingScheme_def initMcpScheme_def initWorkloadScheme_def
        must_add_def test_add_def)
  have reg: "registers test_add set" by (simp add: registers_def test_add_def)
  obtain obj' res e s' where r: "reconciler_CreateOrUpdate ref_ext ref_reconciler ref_velero ref_config ref_clusters ref_start = Some ((obj', res, e), s')"
    using ref_update_run by blast
  have d: "clusters_distinct ref_reconciler ref_clusters"
    by (simp add: clusters_distinct_def ref_reconciler_def ref_clusters_def ref_mcp_def ref_workload_def)
  from schemes_cover[OF reg ss d ref_fresh_manager ref_sets_label ref_mutates_secret ref_gets_own_key disjI1[OF r]]
  obtain log where log: "trace s' = trace ref_start @ log"
    "\<forall>q \<in> set log. \<forall>c k. request_kind q = (c, k) \<longrightarrow> types_of_kind k \<in> set (scheme_of ss (role_of ref_reconciler ref_clusters c))"
    and st: "\<forall>st ro k. (ro, k) \<in> set (step_kinds st) \<longrightarrow> types_of_kind k \<in> set (scheme_of ss ro)" by blast
  have all: "list_all (\<lambda>q. types_of_kind (snd (request_kind q)) \<in>
      set (scheme_of ss (role_of ref_reconciler ref_clusters (fst (request_kind q))))) log"
    using log(2) by (simp add: list_all_iff)
  have "ClusterTypes \<in> set (platformScheme ss)" "ProviderTypes \<in> set (platformScheme ss)"
    using st[rule_format, of Platform "''AccessRequest''" "GetAccessRequest [] []"]
      st[rule_format, of Platform "''ServiceProvider''" "RegisterGVK ref_mcp [] [] [] []"]
    by (simp_all add: step_kinds_def types_of_kind_def scheme_of_def)
  with ss r log(1) all show ?thesis by blast
qed

theorem main_run_witness:
  "\<exists>s'. main (test_main []) [''prog'', ''run''] \<lparr>ms_world = (), ms_log = []\<rparr> = (Returned, s')
     \<and> map (step_rank \<circ> fst) (ms_log s') = [0, 1, 2, 3, 7, 8, 9, 10, 11, 12]"
proof -
  obtain out s' where r: "main (test_main []) [''prog'', ''run''] \<lparr>ms_world = (), ms_log = []\<rparr> = (out, s')" by force
  then have "out = Returned" by (auto simp: test_run)
  moreover have "run_ranks (test_main []) = [0, 1, 2, 3, 7, 8, 9, 10, 11, 12]" by (simp add: run_ranks_def test_run)
  ultimately show ?thesis using main_run[OF r] r by (auto simp: split_command_def)
qed

theorem init_outcome_witness:
  "\<exists>s'. main (test_main [test_crds]) [''prog'', ''init''] \<lparr>ms_world = (), ms_log = []\<rparr> = (Returned, s')
     \<and> StartManager \<notin> fst ` set (ms_log s') \<and> (test_crds, Some (ErrorNew ''refused'')) \<in> set (ms_log s')"
proof -
  obtain out s' where r: "main (test_main [test_crds]) [''prog'', ''init''] \<lparr>ms_world = (), ms_log = []\<rparr> = (out, s')"
    by force
  then have "out = Returned" "(test_crds, Some (ErrorNew ''refused'')) \<in> set (ms_log s')" by (auto simp: test_run)
  with init_outcome[OF r] r show ?thesis by (auto simp: split_command_def)
qed

end
