(* ===== verification/Deletion_Refinement.thy ===== *)
theory Deletion_Refinement
  imports Managers
begin

text \<open>
  The deletion pass of a manager against an abstract machine that knows neither objects nor
  clusters nor requests: a set of existing items and a plan, a list of items each with the
  items that have to be gone first. On servers whose deletions take effect at once,
  \<open>DeleteAll\<close> computes exactly what the machine does.
\<close>

subsection \<open>The abstract machine\<close>

datatype verdict = Blocked | Requested | Gone

text \<open>One entry of a plan: the item, whether it stays, and what depends on it.\<close>

type_synonym plan_entry = "item \<times> bool \<times> item list"

fun abs_step :: "plan_entry \<Rightarrow> item set \<Rightarrow> verdict \<times> item set" where
  "abs_step (i, stays, deps) L =
     (if list_ex (\<lambda>d. d \<in> L) deps then (Blocked, L)
      else if stays \<or> i \<notin> L then (Gone, L)
      else (Requested, L - {i}))"

fun abs_pass :: "plan_entry list \<Rightarrow> item set \<Rightarrow> verdict list \<times> item set" where
  "abs_pass [] L = ([], L)"
| "abs_pass (p # ps) L =
     (let (v, L1) = abs_step p L; (vs, L2) = abs_pass ps L1 in (v # vs, L2))"

text \<open>The plan a manager stands for, and the verdict a result reports.\<close>

definition plan_of :: "'w st \<Rightarrow> 'w target list \<Rightarrow> 'w target \<Rightarrow> plan_entry" where
  "plan_of s ts t = (item_of s t, mo_policy (snd t) = Orphan,
     map (item_of s) [u \<leftarrow> ts. mo_ref (snd t) \<in> set (mo_deps (snd u))])"

definition verdict_of :: "'w result \<Rightarrow> verdict" where
  "verdict_of r = (if res_op r = OpDeleted then Gone
     else if res_op r = OpDeletionRequested then Requested else Blocked)"

subsection \<open>Step by step\<close>

lemma verdict_Gone: "verdict_of r = Gone \<longleftrightarrow> res_op r = OpDeleted"
  by (simp add: verdict_of_def)

lemma plan_of_same_ids: "same_ids s s' \<Longrightarrow> plan_of s' ts t = plan_of s ts t"
  by (simp add: plan_of_def same_ids_item)

lemma blocked_iff:
  "(\<exists>d \<in> set (dependents_at (getDependents m) (mo_ref mo)). item_of s (dep_target d) \<in> L)
     \<longleftrightarrow> list_ex (\<lambda>i. i \<in> L) (map (item_of s) [u \<leftarrow> targets m. mo_ref mo \<in> set (mo_deps (snd u))])"
  (is "?l \<longleftrightarrow> ?r")
proof
  assume ?l
  then obtain d where d: "dep_target d \<in> set (targets m)" "mo_ref mo \<in> set (mo_deps (dep_object d))"
    "item_of s (dep_target d) \<in> L" by (auto simp: mem_dependents dep_target_def)
  have "snd (dep_target d) = dep_object d" by (simp add: dep_target_def)
  with d show ?r unfolding list_ex_iff by fastforce
next
  assume ?r
  then obtain u where u: "u \<in> set (targets m)" "mo_ref mo \<in> set (mo_deps (snd u))" "item_of s u \<in> L"
    by (auto simp: list_ex_iff)
  define d where "d = \<lparr>dep_object = snd u, dep_cluster = fst u\<rparr>"
  have "dep_target d = u" "dep_object d = snd u" "dep_cluster d = fst u" by (simp_all add: d_def dep_target_def)
  with u show ?l by (intro bexI[of _ d]) (simp_all add: mem_dependents)
qed

lemma delete_object_verdict:
  assumes live: "deletes_at_once x live" and run: "reconcileObject x iid mc mo D True s = Some (r, s')"
  defines "blocked \<equiv> \<exists>d \<in> set (dependents_at D (mo_ref mo)). item_of s (dep_target d) \<in> live (world s)"
  shows "verdict_of r = (if blocked then Blocked
     else if mo_policy mo = Orphan \<or> item_of s (mc, mo) \<notin> live (world s) then Gone else Requested)"
proof -
  obtain errs s1 where c: "check_loop x (dependents_at D (mo_ref mo)) s = (errs, s1)" by force
  note cl = check_loop_live[OF live c]
  obtain e2 s2 where d: "k_delete x (mc_cluster mc) (GetObject mo s1) s1 = (e2, s2)" by force
  have it: "(ch_id (mc_cluster mc), kind_of (GetObject mo s1), object_key (GetObject mo s1)) = item_of s (mc, mo)"
    using same_ids_item[of s s1 "(mc, mo)"] cl by (simp add: item_of_def)
  have b: "errs = [] \<longleftrightarrow> \<not> blocked" using cl unfolding blocked_def by blast
  have gone: "is_not_found e2 \<longleftrightarrow> item_of s (mc, mo) \<notin> live (world s)"
    using k_delete_live(2)[OF live d] it cl by simp
  have cf: "checkForDependents x (dependents_at D (mo_ref mo)) s = (errors_join errs, s1)"
    by (simp add: checkForDependents_def c)
  consider (bl) "blocked" | (kept) "\<not> blocked" "mo_policy mo = Orphan" | (del) "\<not> blocked" "mo_policy mo \<noteq> Orphan" by blast
  then show ?thesis
  proof cases
    case bl
    then have "res_op r = OpNone"
      using run cf b by (auto simp: reconcileObject_def errors_join_def Let_def)
    with bl show ?thesis by (simp add: verdict_of_def)
  next
    case kept
    then have "res_op r = OpDeleted"
      using run cf b by (auto simp: reconcileObject_def errors_join_def GetDeletionPolicy_def OpOrphaned_def Let_def)
    with kept show ?thesis by (simp add: verdict_of_def)
  next
    case del
    then have "res_op r = (if is_not_found e2 then OpDeleted else OpDeletionRequested)"
      using run cf b d by (auto simp: reconcileObject_def errors_join_def GetDeletionPolicy_def Let_def split: if_splits)
    with del gone show ?thesis by (auto simp: verdict_of_def)
  qed
qed

lemma delete_object_refines:
  assumes live: "deletes_at_once x live"
    and run: "reconcileObject x iid mc mo (getDependents m) True s = Some (r, s')"
  shows "(verdict_of r, live (world s')) = abs_step (plan_of s (targets m) (mc, mo)) (live (world s))"
  using delete_object_verdict[OF live run] delete_object_live(2)[OF live run]
  unfolding blocked_iff by (auto simp: plan_of_def)

lemma run_delete_refines:
  assumes live: "deletes_at_once x live" and run: "run_targets x iid (getDependents m) True ts s = Some (rs, s')"
  shows "(map verdict_of rs, live (world s')) = abs_pass (map (plan_of s (targets m)) ts) (live (world s)) \<and> same_ids s s'"
  using run
proof (induction ts arbitrary: s rs)
  case Nil
  then show ?case by simp
next
  case (Cons t ts)
  obtain mc mo where t: "t = (mc, mo)" by force
  from Cons.prems t obtain r s1 rs1 where r: "reconcileObject x iid mc mo (getDependents m) True s = Some (r, s1)"
    and rs: "run_targets x iid (getDependents m) True ts s1 = Some (rs1, s')" "rs = r # rs1" by auto
  note ids = delete_object_live(1)[OF live r]
  note ih = Cons.IH[OF rs(1)]
  have "map (plan_of s1 (targets m)) ts = map (plan_of s (targets m)) ts" by (simp add: plan_of_same_ids[OF ids])
  with ih delete_object_refines[OF live r, symmetric] rs(2) t same_ids_trans[OF ids] show ?case
    by (auto simp: Let_def split: prod.splits)
qed

lemma DeleteAll_refines:
  assumes "deletes_at_once x live" "\<forall>c \<in> set (mgr_cleaners m). quiet_cleaner live c"
  defines "plan \<equiv> \<lambda>s. map (plan_of s (targets m)) (targets m)"
  shows "\<exists>rs s'. DeleteAll x m s = Some ((rs, None), s')
    \<and> map verdict_of rs = fst (abs_pass (plan s) (live (world s)))
    \<and> live (world s') \<subseteq> snd (abs_pass (plan s) (live (world s)))
    \<and> (mgr_cleaners m = [] \<longrightarrow> live (world s') = snd (abs_pass (plan s) (live (world s))))
    \<and> (AllDeleted rs \<longleftrightarrow> list_all (\<lambda>v. v = Gone) (fst (abs_pass (plan s) (live (world s)))))
    \<and> plan s' = plan s"
proof -
  obtain rs s1 where r: "run_targets x (mgr_instance_id m) (getDependents m) True (targets m) s = Some (rs, s1)"
    using run_delete_total by (metis not_None_eq surj_pair)
  have rl: "map verdict_of rs = fst (abs_pass (plan s) (live (world s)))"
    "live (world s1) = snd (abs_pass (plan s) (live (world s)))" "same_ids s s1"
    using run_delete_refines[OF assms(1) r] unfolding plan_def by (metis fst_conv, metis snd_conv, simp)
  obtain s2 where c: "run_cleaners (mgr_cleaners m) rs s1 = ((rs, None), s2)" "store s2 = store s1"
    "live (world s2) \<subseteq> live (world s1)" using run_quiet_cleaners[OF assms(2)] by metis
  have "DeleteAll x m s = Some ((rs, None), s2)"
    using r c(1) by (simp add: DeleteAll_def reconcileObjects_targets)
  moreover have "mgr_cleaners m = [] \<Longrightarrow> s2 = s1" using c(1) by simp
  moreover have "AllDeleted rs \<longleftrightarrow> list_all (\<lambda>v. v = Gone) (map verdict_of rs)"
    by (simp add: AllDeleted_iff list_all_iff verdict_Gone)
  moreover have "same_ids s s2" using rl(3) c(2) by (simp add: same_ids_def)
  then have "plan s2 = plan s" by (simp add: plan_def plan_of_same_ids)
  ultimately show ?thesis using rl c(3) by auto
qed

text \<open>If the machine finds everything gone, nothing that had to go was there.\<close>

lemma abs_pass_gone:
  assumes "list_all (\<lambda>v. v = Gone) (fst (abs_pass ps L))"
  shows "snd (abs_pass ps L) = L \<and> (\<forall>p \<in> set ps. fst (snd p) \<or> fst p \<notin> L)"
  using assms
proof (induction ps arbitrary: L)
  case Nil
  then show ?case by simp
next
  case (Cons p ps)
  obtain i stays deps where p: "p = (i, stays, deps)" by (metis prod_cases3)
  have "fst (abs_step p L) = Gone" using Cons.prems by (simp add: split_beta Let_def)
  then have "snd (abs_step p L) = L" "stays \<or> i \<notin> L" by (auto simp: p split: if_splits)
  moreover from this(1) have "list_all (\<lambda>v. v = Gone) (fst (abs_pass ps L))" using Cons.prems by (simp add: split_beta Let_def)
  ultimately show ?case using Cons.IH[of L] by (auto simp: p split_beta Let_def simp del: abs_step.simps)
qed

lemma DeleteAll_gone:
  assumes "deletes_at_once x live" "\<forall>c \<in> set (mgr_cleaners m). quiet_cleaner live c"
    and "DeleteAll x m s = Some ((rs, None), s')" "AllDeleted rs" "t \<in> set (targets m)" "mo_policy (snd t) \<noteq> Orphan"
  shows "item_of s t \<notin> live (world s')"
proof -
  let ?ps = "map (plan_of s (targets m)) (targets m)"
  have "live (world s') \<subseteq> snd (abs_pass ?ps (live (world s)))" "list_all (\<lambda>v. v = Gone) (fst (abs_pass ?ps (live (world s))))"
    using DeleteAll_refines[OF assms(1,2), of s] assms(3,4) by auto
  moreover from abs_pass_gone[OF this(2)] have "snd (abs_pass ?ps (live (world s))) = live (world s)"
    "\<forall>p \<in> set ?ps. fst (snd p) \<or> fst p \<notin> live (world s)" by blast+
  then have "item_of s t \<notin> live (world s)" using assms(5,6) by (force simp: plan_of_def)
  ultimately show ?thesis using abs_pass_gone by blast
qed

text \<open>
  C15. Refinement of the deletion pass. On API servers whose deletions take effect at once a
  deletion pass returns without error, the verdicts it reports are those of the abstract
  machine on the plan the manager stands for, and what exists afterwards is what the machine
  leaves, up to what the registered cleaners removed in addition. The pass reports everything
  deleted exactly if the machine does. The plan is the same for the next pass.
\<close>

theorem deletion_refines:
  assumes "deletes_at_once x live" "\<forall>c \<in> set (mgr_cleaners m). quiet_cleaner live c"
  defines "plan \<equiv> \<lambda>s. map (plan_of s (targets m)) (targets m)"
  shows "\<exists>rs s'. DeleteAll x m s = Some ((rs, None), s')
    \<and> map verdict_of rs = fst (abs_pass (plan s) (live (world s)))
    \<and> live (world s') \<subseteq> snd (abs_pass (plan s) (live (world s)))
    \<and> (mgr_cleaners m = [] \<longrightarrow> live (world s') = snd (abs_pass (plan s) (live (world s))))
    \<and> (AllDeleted rs \<longleftrightarrow> list_all (\<lambda>v. v = Gone) (fst (abs_pass (plan s) (live (world s)))))
    \<and> plan s' = plan s"
  using assms(1,2) unfolding plan_def by (rule DeleteAll_refines)

end
