(* ===== verification/Identity_And_Copies.thy ===== *)
theory Identity_And_Copies
  imports Handlers
begin

text \<open>
  Two small components in the words of their callers: the instance id a resource gets and
  keeps (\<open>ensureInstanceID\<close> in \<open>internal/controller/velero_controller.go\<close>), and the copy of a
  pull secret (\<open>pkg/secret/secret.go\<close>) as the manager runs it.
\<close>

subsection \<open>The identity of a resource\<close>

text \<open>The documented behaviour of an update that was accepted: the labels are those sent.\<close>

definition keeps_labels :: "'w ext \<Rightarrow> bool" where
  "keeps_labels x = (\<forall>c v w v2 w'. x_update_velero x c v w = (v2, None, w') \<longrightarrow> om_labels (v_meta v2) = om_labels (v_meta v))"

lemma GetID_labels: "om_labels m = om_labels n \<Longrightarrow> GetID m = GetID n"
  by (simp only: GetID_def)

lemma ensureInstanceID_kept: "GetID (v_meta obj) \<noteq> [] \<Longrightarrow> ensureInstanceID x r obj t = ((obj, None), t)"
  by (simp add: ensureInstanceID_def)

lemma GenerateID_key:
  "om_namespace (v_meta v) = om_namespace (v_meta u) \<Longrightarrow> om_name (v_meta v) = om_name (v_meta u) \<Longrightarrow> GenerateID v = GenerateID u"
  by (simp only: GenerateID_def)

text \<open>
  C22. Instance id. A resource with an id keeps it, whoever set it, and nothing is
  requested. Without one the program writes the generated id in a single update, and fails
  exactly if the update failed, so no object is created under an id that was not stored. After
  a success the id is there and every later call leaves the resource alone; a lost update is
  repeated with the same id.
\<close>

theorem instance_id_spec:
  assumes "ensureInstanceID x r obj s = ((obj1, e), s')"
  shows "(GetID (v_meta obj) \<noteq> [] \<longrightarrow> obj1 = obj \<and> e = None \<and> s' = s)
    \<and> (GetID (v_meta obj) = [] \<longrightarrow> (\<exists>a w'.
         x_update_velero x (ch_id (vr_onboarding r)) (SetID obj (GenerateID obj)) (world s) = (obj1, a, w')
         \<and> (e = None \<longleftrightarrow> a = None)
         \<and> trace s' = trace s @ [ReqUpdateVelero (ch_id (vr_onboarding r)) (om_namespace (v_meta obj), om_name (v_meta obj)) a]))
    \<and> (e = None \<and> keeps_labels x \<longrightarrow> (GetID (v_meta obj) = [] \<longrightarrow> GetID (v_meta obj1) = GenerateID obj)
         \<and> (\<forall>t. ensureInstanceID x r obj1 t = ((obj1, None), t)))
    \<and> (\<forall>obj2. om_namespace (v_meta obj2) = om_namespace (v_meta obj) \<longrightarrow> om_name (v_meta obj2) = om_name (v_meta obj)
         \<longrightarrow> GenerateID obj2 = GenerateID obj)"
proof (cases "GetID (v_meta obj) = []")
  case True
  obtain a w' v where u: "x_update_velero x (ch_id (vr_onboarding r)) (SetID obj (GenerateID obj)) (world s) = (v, a, w')"
    by (metis prod_cases3)
  then have r: "obj1 = v" "e = None \<longleftrightarrow> a = None"
    "trace s' = trace s @ [ReqUpdateVelero (ch_id (vr_onboarding r)) (om_namespace (v_meta obj), om_name (v_meta obj)) a]"
    using assms True by (auto simp: ensureInstanceID_def k_update_velero_def split: option.splits)
  have "GetID (v_meta obj1) = GenerateID obj" if "e = None" "keeps_labels x"
  proof -
    have "om_labels (v_meta v) = om_labels (v_meta (SetID obj (GenerateID obj)))"
      using that u r(2) unfolding keeps_labels_def by blast
    from GetID_labels[OF this] r(1) show ?thesis by simp
  qed
  then have id: "GetID (v_meta obj1) = GenerateID obj" if "e = None" "keeps_labels x" using that by blast
  have keep: "ensureInstanceID x r obj1 t = ((obj1, None), t)" if "e = None" "keeps_labels x" for t
    by (rule ensureInstanceID_kept) (simp add: id[OF that])
  have upd: "\<exists>a w'. x_update_velero x (ch_id (vr_onboarding r)) (SetID obj (GenerateID obj)) (world s) = (obj1, a, w')
         \<and> (e = None \<longleftrightarrow> a = None)
         \<and> trace s' = trace s @ [ReqUpdateVelero (ch_id (vr_onboarding r)) (om_namespace (v_meta obj), om_name (v_meta obj)) a]"
    using u r by blast
  show ?thesis by (intro conjI allI impI upd id keep GenerateID_key) (use True in \<open>simp_all only: simp_thms\<close>)
next
  case False
  then have "obj1 = obj" "e = None" "s' = s" using assms by (simp_all add: ensureInstanceID_def)
  then show ?thesis
    by (intro conjI allI impI GenerateID_key) (use False ensureInstanceID_kept[OF False] in \<open>simp_all only: simp_thms\<close>)
qed

subsection \<open>The copy of a pull secret\<close>

text \<open>
  C30. Pull secret copy. A run of the closure reads the source secret of the same name, once,
  from the pod's namespace on the platform cluster, and never panics on a secret. If the read
  fails the copy is left alone and the error is returned; if it succeeds without an error the
  copy has the data of the source, the registry type whatever the source's type is, and its
  own labels, name and namespace.
\<close>

theorem pull_secret_copy:
  assumes "mutates_secret x" "kind_of o' = ''Secret''"
  shows "\<exists>src a s' o2 e. k_get x c (sns, name) (new_object name sns (Secret None [])) s = ((src, a), s')
    \<and> pull_secret_reconcile x c name tns sns o' s = Some ((o2, e), s')
    \<and> trace s' = trace s @ [ReqGet (ch_id c) ''Secret'' (sns, name) a] \<and> kind_of src = ''Secret''
    \<and> (a \<noteq> None \<longrightarrow> o2 = o' \<and> e = a)
    \<and> (e = None \<longrightarrow> body o2 = Secret (secret_data src) SecretTypeDockerConfigJson
         \<and> get_labels o2 = get_labels o' \<and> object_key o2 = object_key o')"
proof -
  obtain src a s' where g: "k_get x c (sns, name) (new_object name sns (Secret None [])) s = ((src, a), s')"
    by (metis prod_cases3 surj_pair)
  obtain d ty where b: "body o' = Secret d ty" using assms(2) by (auto simp: kind_of_Secret)
  obtain o2 e s2 where run: "pull_secret_reconcile x c name tns sns o' s = Some ((o2, e), s2)"
    using pull_secret.no_panic[OF assms(2)] by (metis not_None_eq surj_pair)
  have s2: "s2 = s'" "a \<noteq> None \<Longrightarrow> o2 = o' \<and> e = a"
    using run b g by (auto simp: pull_secret_reconcile_def Let_def split: option.splits prod.splits)
  have "e = None \<Longrightarrow> body o2 = Secret (secret_data src) SecretTypeDockerConfigJson
         \<and> get_labels o2 = get_labels o' \<and> object_key o2 = object_key o'"
    using pull_secret_runs[OF assms(1)] run g by fastforce
  with g run s2 k_get_frame[OF g] show ?thesis by (auto simp: object_key_def)
qed

end
