(* ===== verification/Refinement_Witnesses.thy ===== *)
theory Refinement_Witnesses
  imports Reference_Server Deletion_Refinement Identity_And_Copies
begin

text \<open>
  Witnesses of the refinement, the round trips, the identity and the copies: a manager with an
  account and the token secret that depends on it, both existing, on the reference server; an
  address; an instant in the year 2024; a resource without an id; and the secret as a source.
\<close>

definition pair_object :: "nat \<Rightarrow> nat list \<Rightarrow> ref_world managed_object" where
  "pair_object r deps = \<lparr>mo_ref = r, mo_reconcile = None, mo_status = None, mo_deps = deps, mo_policy = Delete\<rparr>"

definition pair_cluster :: "ref_world managed_cluster" where
  "pair_cluster = AddObject (pair_object 1 [0]) (AddObject (pair_object 0 [])
     (NewManagedCluster ref_mcp (ch_rest ref_mcp) ''velero'' ManagedControlPlane))"

definition pair_manager :: "ref_world manager" where
  "pair_manager = AddCluster pair_cluster (NewManager ''abc'')"

definition pair_stored :: "nat \<Rightarrow> client_object" where
  "pair_stored r = (if r = 0 then new_object ''account'' ''velero'' ServiceAccount
     else new_object ''token'' ''velero'' (Secret None ''''))"

definition pair_state :: "ref_world st" where
  "pair_state = \<lparr>world = \<lparr>rw_objects = [(''mcp'', pair_stored 0), (''mcp'', pair_stored 1)], rw_clock = 0\<rparr>,
     store = pair_stored, next_ref = 2, trace = []\<rparr>"

theorem deletion_refines_witness:
  "\<exists>rs s'. DeleteAll ref_ext pair_manager pair_state = Some ((rs, None), s') \<and> map verdict_of rs = [Blocked, Requested]
     \<and> ref_live (world s') = {(''mcp'', ''ServiceAccount'', (''velero'', ''account''))}"
proof -
  have ts: "targets pair_manager = [(pair_cluster, pair_object 0 []), (pair_cluster, pair_object 1 [0])]"
    by (simp add: targets_def pair_manager_def AddCluster_def NewManager_def GetObjects_def pair_cluster_def)
  have live: "ref_live (world pair_state) = {(''mcp'', ''ServiceAccount'', (''velero'', ''account'')), (''mcp'', ''Secret'', (''velero'', ''token''))}"
    by (simp add: ref_live_def pair_state_def pair_stored_def object_key_def)
  have plan: "map (plan_of pair_state (targets pair_manager)) (targets pair_manager) =
    [((''mcp'', ''ServiceAccount'', (''velero'', ''account'')), False, [(''mcp'', ''Secret'', (''velero'', ''token''))]),
     ((''mcp'', ''Secret'', (''velero'', ''token'')), False, [])]"
    by (simp add: ts plan_of_def item_of_def GetObject_def pair_state_def pair_stored_def pair_object_def pair_cluster_def
        NewManagedCluster_def object_key_def ref_mcp_def)
  have "abs_pass (map (plan_of pair_state (targets pair_manager)) (targets pair_manager)) (ref_live (world pair_state))
     = ([Blocked, Requested], {(''mcp'', ''ServiceAccount'', (''velero'', ''account''))})"
    unfolding plan live by auto
  moreover have "mgr_cleaners pair_manager = []" by (simp add: pair_manager_def AddCluster_def NewManager_def)
  ultimately show ?thesis
    using deletion_refines[OF ref_deletes_at_once, of pair_manager pair_state] by auto
qed

theorem host_and_port_spec_witness:
  "GetHostAndPort (NewManagedCluster ref_mcp (Some \<lparr>rc_host = ''https://'' @ ''mcp.example'' @ '':'' @ ''6443'', rc_ca_data = [], rc_ca_file = []\<rparr>)
       ''velero'' ManagedControlPlane) = Some (''mcp.example'', ''6443'')
   \<and> GetHostAndPort (NewManagedCluster ref_mcp (Some \<lparr>rc_host = ''https://['' @ ''fd00'' @ '':'' @ '':1]:6443'', rc_ca_data = [], rc_ca_file = []\<rparr>)
       ''velero'' ManagedControlPlane) = Some (''['' @ ''fd00'', '':1]:6443'')"
proof -
  have "CHR '':'' \<notin> set ''mcp.example''" by simp
  note h = host_and_port_spec[THEN conjunct2, THEN spec, THEN spec, THEN spec, THEN mp, THEN mp, THEN conjunct1, THEN mp,
      OF NewManagedCluster_simps(3) this]
  have 1: "GetHostAndPort (NewManagedCluster ref_mcp (Some \<lparr>rc_host = ''https://'' @ ''mcp.example'' @ '':'' @ ''6443'', rc_ca_data = [], rc_ca_file = []\<rparr>)
       ''velero'' ManagedControlPlane) = Some (''mcp.example'', ''6443'')" by (rule h) (simp only: rest_config.select_convs)
  have "CHR '':'' \<notin> set ''fd00''" by simp
  note h = host_and_port_spec[THEN conjunct2, THEN spec, THEN spec, THEN spec, THEN mp, THEN mp, THEN conjunct2, THEN conjunct2, THEN spec, THEN mp,
      OF NewManagedCluster_simps(3) this]
  have 2: "GetHostAndPort (NewManagedCluster ref_mcp (Some \<lparr>rc_host = ''https://['' @ ''fd00'' @ '':'' @ '':1]:6443'', rc_ca_data = [], rc_ca_file = []\<rparr>)
       ''velero'' ManagedControlPlane) = Some (''['' @ ''fd00'', '':1]:6443'')" by (rule h) (simp only: rest_config.select_convs)
  from 1 2 show ?thesis ..
qed

theorem expiration_roundtrip_witness:
  "\<exists>t'. getTokenExpirationTime (setTokenExpirationTime (pair_stored 1) \<lparr>t_ns = 1719792000 * second + 5, t_zone = 0\<rparr>) = Some t'
     \<and> t_ns t' = 1719792000 * second"
proof -
  have r: "rfc3339_representable \<lparr>t_ns = 1719792000 * second + 5, t_zone = 0\<rparr>"
    by code_simp
  from expiration_roundtrip[OF r, of "pair_stored 1"] obtain t' where
    t: "getTokenExpirationTime (setTokenExpirationTime (pair_stored 1) \<lparr>t_ns = 1719792000 * second + 5, t_zone = 0\<rparr>) = Some t'"
    "t_ns t' \<le> 1719792000 * second + 5" "1719792000 * second + 5 < t_ns t' + second" "t_ns t' mod second = 0" by auto
  from t(4) obtain q where q: "t_ns t' = second * q" by (auto simp: mod_eq_0_iff_dvd elim: dvdE)
  with t(2,3) have "q \<le> 1719792000" "1719792000 \<le> q" unfolding second_def by linarith+
  then have "t_ns t' = 1719792000 * second" using q by simp
  with t(1) show ?thesis by blast
qed

theorem instance_id_spec_witness:
  "\<exists>obj1 s'. ensureInstanceID ref_ext ref_reconciler (sample_velero ''team'' ''backup'') ref_start = ((obj1, None), s')
     \<and> GetID (v_meta obj1) = GenerateID (sample_velero ''team'' ''backup'')
     \<and> ensureInstanceID ref_ext ref_reconciler obj1 s' = ((obj1, None), s')"
proof -
  have no: "GetID (v_meta (sample_velero ''team'' ''backup'')) = []" by (simp add: GetID_def sample_velero_def new_meta_def)
  have up: "x_update_velero ref_ext c v w = (v, None, w)" for c v w by (simp add: ref_ext_def)
  then have keeps: "keeps_labels ref_ext" by (simp add: keeps_labels_def)
  obtain obj1 e s' where r: "ensureInstanceID ref_ext ref_reconciler (sample_velero ''team'' ''backup'') ref_start = ((obj1, e), s')"
    by (metis prod.exhaust)
  note spec = instance_id_spec[OF r]
  have "e = None" using spec no up by auto
  with r keeps no spec[THEN conjunct2, THEN conjunct2, THEN conjunct1] show ?thesis by blast
qed

theorem pull_secret_copy_witness:
  "\<exists>o2 s'. pull_secret_reconcile ref_ext ref_mcp ''token'' ''velero-abc'' ''velero'' (new_object ''token'' ''velero-abc'' (Secret None [])) pair_state
     = Some ((o2, None), s') \<and> object_key o2 = (''velero-abc'', ''token'') \<and> body o2 = Secret None SecretTypeDockerConfigJson"
proof -
  let ?o = "new_object ''token'' ''velero-abc'' (Secret None [])"
  have k: "kind_of ?o = ''Secret''" by simp
  from pull_secret_copy[OF ref_mutates_secret k, of ref_mcp "''velero''" "''token''" pair_state "''velero-abc''"]
  obtain src a s' o2 e where
    g: "k_get ref_ext ref_mcp (''velero'', ''token'') (new_object ''token'' ''velero'' (Secret None [])) pair_state = ((src, a), s')"
    and p: "pull_secret_reconcile ref_ext ref_mcp ''token'' ''velero-abc'' ''velero'' ?o pair_state = Some ((o2, e), s')"
    and c: "e = None \<longrightarrow> body o2 = Secret (secret_data src) SecretTypeDockerConfigJson \<and> object_key o2 = object_key ?o"
    by blast
  have "ref_lookup (''mcp'', ''Secret'', (''velero'', ''token'')) (world pair_state) = Some (pair_stored 1)"
    by (simp add: ref_lookup_def pair_state_def is_item_def pair_stored_def object_key_def)
  then have "a = None" "src = pair_stored 1" using g
    by (auto simp: k_get_def ref_ext_def fill_def ref_mcp_def pair_stored_def)
  moreover have "x_mutate_secret ref_ext n ns d ty o' = (o'\<lparr>body := Secret d ty\<rparr>, None)" for n ns d ty o'
    by (simp add: ref_ext_def)
  moreover from calculation g p have "e = None"
    by (simp add: pull_secret_reconcile_def Let_def object_key_def)
  ultimately have "e = None" "secret_data src = None" by (simp_all add: secret_data_def pair_stored_def)
  with p c show ?thesis by (auto simp: object_key_def)
qed

end
