(* ===== verification/Deletion_Outcome.thy ===== *)
theory Deletion_Outcome
  imports Deletion_Liveness
begin

text \<open>
  What a finished deletion leaves behind, on servers whose deletions may take any time:
  nothing that was to be deleted. All that is needed of the servers is that "not found" is
  the truth when it is said.
\<close>

text \<open>
  Reads and deletions create nothing, and an object whose deletion is answered "not found" does
  not exist. A deletion with any other answer may leave the object in place, to go later or
  never (finalizers, a terminating namespace), and every call may find that others have
  removed something meanwhile.
\<close>

definition answers_truthfully :: "'w ext \<Rightarrow> ('w \<Rightarrow> item set) \<Rightarrow> bool" where
  "answers_truthfully x live =
     ((\<forall>c o' w. case x_get x c (object_key o') o' w of (o2, e, w') \<Rightarrow> live w' \<subseteq> live w)
    \<and> (\<forall>c o' w. case x_delete x c o' w of (e, w') \<Rightarrow>
         live w' \<subseteq> live w \<and> (is_not_found e \<longrightarrow> (c, kind_of o', object_key o') \<notin> live w'))
    \<and> (\<forall>c ns ls w. case x_list_secrets x c ns ls w of (os, e, w') \<Rightarrow> live w' \<subseteq> live w))"

text \<open>Servers whose deletions take effect at once are a special case.\<close>

lemma deletes_at_once_truthful:
  assumes "deletes_at_once x live" "\<And>c ns ls w. live (snd (snd (x_list_secrets x c ns ls w))) \<subseteq> live w"
  shows "answers_truthfully x live" "gets_own_key x"
proof -
  note law = assms(1)[unfolded deletes_at_once_def]
  have "case x_get x c (object_key o') o' w of (o2, e, w') \<Rightarrow> live w' \<subseteq> live w" for c o' w
    using law[THEN conjunct1, rule_format, where c = c and o' = o' and w = w] by (auto split: prod.splits)
  moreover have "case x_delete x c o' w of (e, w') \<Rightarrow> live w' \<subseteq> live w \<and> (is_not_found e \<longrightarrow> (c, kind_of o', object_key o') \<notin> live w')"
    for c o' w
    using law[THEN conjunct2, rule_format, where c = c and o' = o' and w = w] by (auto split: prod.splits)
  moreover have "case x_list_secrets x c ns ls w of (os, e, w') \<Rightarrow> live w' \<subseteq> live w" for c ns ls w
    using assms(2)[of c ns ls w] by (simp add: split_beta)
  ultimately show "answers_truthfully x live" unfolding answers_truthfully_def by (intro conjI allI)
  show "gets_own_key x" unfolding gets_own_key_def
  proof (intro allI impI)
    fix c o' w o2 e w' assume "x_get x c (object_key o') o' w = (o2, e, w')"
    then show "object_key (fill o' o2) = object_key o'"
      using law[THEN conjunct1, rule_format, where c = c and o' = o' and w = w] by simp
  qed
qed

lemma deletes_cleanly_truthful:
  assumes "deletes_cleanly x live"
  shows "answers_truthfully x live" "gets_own_key x"
proof -
  have "live (snd (snd (x_list_secrets x c ns ls w))) \<subseteq> live w" for c ns ls w
    using assms unfolding deletes_cleanly_def by (metis order_refl snd_conv)
  with assms show "answers_truthfully x live" "gets_own_key x"
    using deletes_at_once_truthful unfolding deletes_cleanly_def by blast+
qed

subsection \<open>The calls\<close>

lemma k_get_shrinks:
  assumes "answers_truthfully x live" "k_get x c (object_key o') o' s = (r, s')"
  shows "live (world s') \<subseteq> live (world s)"
  using assms(1)[unfolded answers_truthfully_def, THEN conjunct1, rule_format, where c = "ch_id c" and o' = o' and w = "world s"] assms(2)
  by (auto simp: k_get_def split: prod.splits)

lemma k_delete_truth:
  assumes "answers_truthfully x live" "k_delete x c o' s = (e, s')"
  shows "live (world s') \<subseteq> live (world s)" "is_not_found e \<Longrightarrow> (ch_id c, kind_of o', object_key o') \<notin> live (world s')"
  using assms(1)[unfolded answers_truthfully_def, THEN conjunct2, THEN conjunct1, rule_format, where c = "ch_id c" and o' = o' and w = "world s"] assms(2)
  by (auto simp: k_delete_def split: prod.splits)

lemma k_list_shrinks:
  assumes "answers_truthfully x live" "k_list_secrets x c ns ls s = (r, s')"
  shows "live (world s') \<subseteq> live (world s)"
  using assms(1)[unfolded answers_truthfully_def, THEN conjunct2, THEN conjunct2, rule_format,
      where c = "ch_id c" and ns = ns and ls = ls and w = "world s"] assms(2)
  by (auto simp: k_list_secrets_def split: prod.splits)

lemma check_loop_shrinks:
  assumes "answers_truthfully x live" "check_loop x deps s = (errs, s')"
  shows "live (world s') \<subseteq> live (world s)"
  using assms(2)
proof (induction deps arbitrary: s errs)
  case Nil
  then show ?case by simp
next
  case (Cons d deps)
  define ob where "ob = GetObject (dep_object d) s"
  obtain o2 err s1 where g: "k_get x (mc_cluster (dep_cluster d)) (object_key ob) ob s = ((o2, err), s1)"
    by (metis prod.exhaust)
  obtain errs2 where l: "check_loop x deps (set_object (mo_ref (dep_object d)) o2 s1) = (errs2, s')"
    using Cons.prems g by (auto simp: ob_def Let_def split: if_splits option.splits prod.splits)
  from Cons.IH[OF l] k_get_shrinks[OF assms(1) g] show ?case by auto
qed

lemma cleanupErrorResult_world: "world (snd (cleanupErrorResult mc v e s)) = world s"
  by (simp add: cleanupErrorResult_def alloc_def NewManagedObject_def split_beta Let_def)

lemma cleanup_loop_shrinks:
  assumes "answers_truthfully x live" "cleanup_loop x mc keep items rs s = (rs', s')"
  shows "live (world s') \<subseteq> live (world s)"
  using assms(2)
proof (induction items arbitrary: rs s)
  case Nil
  then show ?case by simp
next
  case (Cons v items)
  obtain e s1 where d: "k_delete x (mc_cluster mc) v s = (e, s1)" by force
  have "\<exists>rs2 s2. cleanup_loop x mc keep items rs2 s2 = (rs', s') \<and> (world s2 = world s \<or> world s2 = world s1)"
    using Cons.prems d cleanupErrorResult_world[of mc v e s1]
    by (fastforce simp: Let_def split: if_splits option.splits prod.splits)
  with Cons.IH k_delete_truth(1)[OF assms(1) d] show ?case by (metis subset_trans)
qed

lemma secretCleaner_shrinks:
  assumes "answers_truthfully x live" "secretCleaner_Cleanup x mc ns keep s = (r, s')"
  shows "live (world s') \<subseteq> live (world s)"
proof -
  obtain items e s1 where l: "k_list_secrets x (mc_cluster mc) ns ManagedBy s = ((items, e), s1)" by (metis prod.exhaust)
  have "s' = s1 \<or> (\<exists>rs rs'. cleanup_loop x mc keep items rs s1 = (rs', s'))"
    using assms(2) l by (auto simp: secretCleaner_Cleanup_def split: option.splits prod.splits)
  with k_list_shrinks[OF assms(1) l] cleanup_loop_shrinks[OF assms(1)] show ?thesis by blast
qed

subsection \<open>One object, a pass, the handler\<close>

definition gone_if_deleted :: "('w \<Rightarrow> item set) \<Rightarrow> 'w st \<Rightarrow> 'w \<Rightarrow> 'w target \<Rightarrow> 'w result \<Rightarrow> bool" where
  "gone_if_deleted live s w t r = (res_op r = OpDeleted \<and> mo_policy (snd t) \<noteq> Orphan \<longrightarrow> item_of s t \<notin> live w)"

lemma delete_object_gone:
  assumes "answers_truthfully x live" "gets_own_key x" "reconcileObject x iid mc mo D True s = Some (r, s')"
  shows "live (world s') \<subseteq> live (world s)" "gone_if_deleted live s (world s') (mc, mo) r"
proof -
  obtain errs s1 where c: "check_loop x (dependents_at D (mo_ref mo)) s = (errs, s1)" by force
  have ids: "same_ids s s1" using check_loop_spec[OF assms(2) c] by simp
  note sh = check_loop_shrinks[OF assms(1) c]
  obtain e2 s2 where d: "k_delete x (mc_cluster mc) (GetObject mo s1) s1 = (e2, s2)" by force
  note dl = k_delete_truth[OF assms(1) d]
  have it: "(ch_id (mc_cluster mc), kind_of (GetObject mo s1), object_key (GetObject mo s1)) = item_of s (mc, mo)"
    using same_ids_item[OF ids, of "(mc, mo)"] by (simp add: item_of_def)
  have "s' = s1 \<and> (res_op r = OpDeleted \<longrightarrow> mo_policy mo = Orphan) \<or> s' = s2 \<and> (res_op r = OpDeleted \<longrightarrow> is_not_found e2)"
    using assms(3) c d by (auto simp: reconcileObject_def checkForDependents_def GetDeletionPolicy_def OpOrphaned_def Let_def
        split: option.splits if_splits)
  then show "live (world s') \<subseteq> live (world s)" "gone_if_deleted live s (world s') (mc, mo) r"
    using sh dl it by (auto simp: gone_if_deleted_def)
qed

lemma gone_if_deleted_mono: "gone_if_deleted live s w t r \<Longrightarrow> live w' \<subseteq> live w \<Longrightarrow> gone_if_deleted live s w' t r"
  by (auto simp: gone_if_deleted_def)

lemma run_delete_gone:
  assumes "answers_truthfully x live" "gets_own_key x" "run_targets x iid D True ts s = Some (rs, s')"
  shows "live (world s') \<subseteq> live (world s) \<and> list_all2 (gone_if_deleted live s (world s')) ts rs"
  using assms(3)
proof (induction ts arbitrary: s rs)
  case Nil
  then show ?case by simp
next
  case (Cons t ts)
  obtain mc mo where t: "t = (mc, mo)" by force
  from Cons.prems t obtain r s1 rs1 where r: "reconcileObject x iid mc mo D True s = Some (r, s1)"
    and rs: "run_targets x iid D True ts s1 = Some (rs1, s')" "rs = r # rs1" by auto
  note dl = delete_object_gone[OF assms(1,2) r]
  have ids: "same_ids s s1" using delete_object_step[OF assms(2) r] by simp
  note ih = Cons.IH[OF rs(1)]
  have "gone_if_deleted live s1 (world s') = gone_if_deleted live s (world s')"
    by (intro ext) (simp add: gone_if_deleted_def same_ids_item[OF ids])
  with ih dl gone_if_deleted_mono[OF dl(2)] rs(2) t show ?case by auto
qed

lemma finished_deletion_clean:
  assumes "reconciler_Delete x r obj pc cc s = Some ((obj', no_requeue, None), s')"
    and c: "createObjectManager x r obj pc cc s = Some ((obj1, Inr m), s1)"
    and env: "answers_truthfully x live" "gets_own_key x" and fr: "fresh_manager r"
  shows "\<forall>i \<in> deletable x pc cc (GetID (v_meta obj1)). i \<notin> live (world s')"
proof -
  from createObjectManager_set_up[OF c] obtain images u where su: "set_up x r obj1 pc images cc u m s1" by metis
  obtain rs where d: "DeleteAll x m s1 = Some ((rs, None), s')" "AllDeleted rs"
    using assms(1)
  proof (cases rule: Delete_runs)
    case (not_created obj2 err)
    with c show ?thesis by simp
  next
    case (deleted obj2 m2 s2 rs ae mrs bad)
    then have "m2 = m" "s2 = s1" "ae = None" "AllDeleted rs" using c by (auto simp: requeue_distinct split: if_splits)
    with deleted(2) that show ?thesis by blast
  qed
  from d(1) obtain rs1 s2 where r: "run_targets x (mgr_instance_id m) (getDependents m) True (targets m) s1 = Some (rs1, s2)"
    and cl: "run_cleaners (mgr_cleaners m) rs1 s2 = ((rs, None), s')"
    by (auto simp: DeleteAll_def reconcileObjects_targets)
  note gone = run_delete_gone[OF env r]
  have "live (world s') \<subseteq> live (world s2)" and "set rs1 \<subseteq> set rs"
    using cl set_up_targets(3)[OF su fr] secretCleaner_shrinks[OF env(1)] by (auto split: prod.splits option.splits)
  with d(2) have all: "\<forall>r \<in> set rs1. res_op r = OpDeleted" by (auto simp: AllDeleted_iff)
  show ?thesis
  proof
    fix i assume "i \<in> deletable x pc cc (GetID (v_meta obj1))"
    then obtain t where t: "t \<in> set (targets m)" "item_of s1 t = i" "mo_policy (snd t) = Delete"
      using deletable_target[OF su fr] by blast
    then obtain k where k: "k < length (targets m)" "targets m ! k = t" by (metis in_set_conv_nth)
    with gone have "gone_if_deleted live s1 (world s2) t (rs1 ! k)" "rs1 ! k \<in> set rs1"
      by (auto simp: list_all2_conv_all_nth)
    with all t(2,3) have "i \<notin> live (world s2)" by (auto simp: gone_if_deleted_def)
    with \<open>live (world s') \<subseteq> live (world s2)\<close> show "i \<notin> live (world s')" by blast
  qed
qed

text \<open>
  C7. A finished deletion leaves nothing. If a manager was created, hence outside the filtered
  errors of invalid input, and the deletion handler reports the end, the answer on which the
  runtime releases the resource, then nothing that is to be deleted exists any more: none of
  the inventory's objects but the orphaned namespace and definitions of the control plane.
  Deletions may be asynchronous and others may remove objects meanwhile. The servers only have
  to tell the truth when they answer "not found", to answer for the key they were asked for, and
  nobody may create an object anew while the call runs.
\<close>

theorem released_clean:
  assumes "reconciler_Delete x r obj pc cc s = Some ((obj', no_requeue, None), s')"
    and "createObjectManager x r obj pc cc s = Some ((obj1, Inr m), s1)"
    and "answers_truthfully x live" "gets_own_key x" "fresh_manager r"
  shows "\<forall>i \<in> deletable x pc cc (GetID (v_meta obj1)). i \<notin> live (world s')"
  using assms by (rule finished_deletion_clean)

end
