(* ===== verification/Lifecycle.thy ===== *)
theory Lifecycle
  imports Deletion_Outcome Deletion_Refinement
begin

text \<open>
  The handlers over the life of a \<open>Velero\<close> resource. \<open>served\<close> is the widest view of it: calls of
  either handler in any order, whatever asked for them, edits of the resource with its labels,
  edits of the provider configuration, restarts of the process, and others who change the
  clusters. A call may see the resource as the last call left it or, from a stale cache or after
  a lost write, as it was before. \<open>history\<close> strings such steps together.

  \<open>lifecycle\<close> adds what the controller runtime, which is not part of the program, is documented
  to do: it calls the update handler while the resource is active and the deletion handler once
  it is being deleted, and releases it when the latter returns with neither an error nor a
  requeue. Its users edit the specification, not the labels.
\<close>

subsection \<open>Calls and what happens between them\<close>

datatype stage = Active | Deleting | Released

record 'w system =
  sy_velero :: velero
  sy_config :: provider_config
  sy_stage :: stage
  sy_state :: "'w st"

text \<open>A call of the deletion handler is marked with what it returned.\<close>

datatype event = UpdateCall | DeleteCall ctrl_result "error option" | Surroundings | Relabelled

inductive served :: "'w ext \<Rightarrow> 'w velero_reconciler \<Rightarrow> cluster_context \<Rightarrow> ('w \<Rightarrow> 'w \<Rightarrow> bool)
    \<Rightarrow> event \<Rightarrow> 'w system \<Rightarrow> 'w system \<Rightarrow> bool"
  for x :: "'w ext" and r :: "'w velero_reconciler" and cc :: cluster_context and others :: "'w \<Rightarrow> 'w \<Rightarrow> bool" where
  update: "reconciler_CreateOrUpdate x r (sy_velero a) (sy_config a) cc (sy_state a) = Some ((obj', res, e), s') \<Longrightarrow>
     v \<in> {sy_velero a, obj'} \<Longrightarrow> served x r cc others UpdateCall a (a\<lparr>sy_velero := v, sy_state := s'\<rparr>)"
| delete: "reconciler_Delete x r (sy_velero a) (sy_config a) cc (sy_state a) = Some ((obj', res, e), s') \<Longrightarrow>
     v \<in> {sy_velero a, obj'} \<Longrightarrow> served x r cc others (DeleteCall res e) a (a\<lparr>sy_velero := v, sy_state := s'\<rparr>)"
| edit: "served x r cc others Surroundings a (a\<lparr>sy_velero := (sy_velero a)\<lparr>v_spec := sp\<rparr>\<rparr>)"
| configure: "served x r cc others Surroundings a (a\<lparr>sy_config := pc\<rparr>)"
| restart: "served x r cc others Surroundings a (a\<lparr>sy_state := (sy_state a)\<lparr>store := mem, next_ref := n\<rparr>\<rparr>)"
| other: "others (world (sy_state a)) w \<Longrightarrow>
     served x r cc others Surroundings a (a\<lparr>sy_state := (sy_state a)\<lparr>world := w\<rparr>\<rparr>)"
| relabel: "om_name (v_meta v) = om_name (v_meta (sy_velero a)) \<Longrightarrow>
     om_namespace (v_meta v) = om_namespace (v_meta (sy_velero a)) \<Longrightarrow>
     served x r cc others Relabelled a (a\<lparr>sy_velero := v\<rparr>)"

inductive_cases served_updateE: "served x r cc others UpdateCall a b"
inductive_cases served_deleteE: "served x r cc others (DeleteCall res e) a b"
inductive_cases served_surroundingsE: "served x r cc others Surroundings a b"
inductive_cases served_relabelledE: "served x r cc others Relabelled a b"

text \<open>A history: each step's event with the resource and the configuration it started from.\<close>

type_synonym moment = "event \<times> velero \<times> provider_config"

inductive history :: "'w ext \<Rightarrow> 'w velero_reconciler \<Rightarrow> cluster_context \<Rightarrow> ('w \<Rightarrow> 'w \<Rightarrow> bool)
    \<Rightarrow> moment list \<Rightarrow> 'w system \<Rightarrow> 'w system \<Rightarrow> bool"
  for x :: "'w ext" and r :: "'w velero_reconciler" and cc :: cluster_context and others :: "'w \<Rightarrow> 'w \<Rightarrow> bool" where
  rest: "history x r cc others [] a a"
| step: "served x r cc others ev a b \<Longrightarrow> history x r cc others h b c \<Longrightarrow>
     history x r cc others ((ev, sy_velero a, sy_config a) # h) a c"

subsection \<open>The runtime around the handlers\<close>

inductive lifecycle :: "'w ext \<Rightarrow> 'w velero_reconciler \<Rightarrow> cluster_context \<Rightarrow> ('w \<Rightarrow> 'w \<Rightarrow> bool)
    \<Rightarrow> 'w system \<Rightarrow> 'w system \<Rightarrow> bool"
  for x :: "'w ext" and r :: "'w velero_reconciler" and cc :: cluster_context and others :: "'w \<Rightarrow> 'w \<Rightarrow> bool" where
  updating: "served x r cc others UpdateCall a b \<Longrightarrow> sy_stage a = Active \<Longrightarrow> lifecycle x r cc others a b"
| deleting: "served x r cc others (DeleteCall res e) a b \<Longrightarrow> sy_stage a = Deleting \<Longrightarrow>
     lifecycle x r cc others a (b\<lparr>sy_stage := (if res = no_requeue \<and> e = None then Released else Deleting)\<rparr>)"
| request_deletion: "sy_stage a = Active \<Longrightarrow> lifecycle x r cc others a (a\<lparr>sy_stage := Deleting\<rparr>)"
| surroundings: "served x r cc others Surroundings a b \<Longrightarrow> lifecycle x r cc others a b"

abbreviation lifetime :: "'w ext \<Rightarrow> 'w velero_reconciler \<Rightarrow> cluster_context \<Rightarrow> ('w \<Rightarrow> 'w \<Rightarrow> bool)
    \<Rightarrow> 'w system \<Rightarrow> 'w system \<Rightarrow> bool" where
  "lifetime x r cc others \<equiv> (lifecycle x r cc others)\<^sup>*\<^sup>*"

lemma lifecycle_update:
  assumes "reconciler_CreateOrUpdate x r (sy_velero a) (sy_config a) cc (sy_state a) = Some ((obj', res, e), s')"
    "sy_stage a = Active" "v \<in> {sy_velero a, obj'}"
  shows "lifecycle x r cc others a (a\<lparr>sy_velero := v, sy_state := s'\<rparr>)"
  by (rule lifecycle.updating[OF served.update[OF assms(1,3)] assms(2)])

lemma lifecycle_delete:
  assumes "reconciler_Delete x r (sy_velero a) (sy_config a) cc (sy_state a) = Some ((obj', res, e), s')"
    "sy_stage a = Deleting" "v \<in> {sy_velero a, obj'}"
  shows "lifecycle x r cc others a
    (a\<lparr>sy_velero := v, sy_stage := (if res = no_requeue \<and> e = None then Released else Deleting), sy_state := s'\<rparr>)"
proof -
  have "(a\<lparr>sy_velero := v, sy_state := s'\<rparr>)\<lparr>sy_stage := st\<rparr> = a\<lparr>sy_velero := v, sy_stage := st, sy_state := s'\<rparr>" for st
    by simp
  from lifecycle.deleting[OF served.delete[OF assms(1,3)] assms(2), unfolded this] show ?thesis .
qed

lemma lifecycle_edit: "lifecycle x r cc others a (a\<lparr>sy_velero := (sy_velero a)\<lparr>v_spec := sp\<rparr>\<rparr>)"
  by (rule lifecycle.surroundings[OF served.edit])

lemma lifecycle_cases [consumes 1, case_names update delete silent]:
  assumes "lifecycle x r cc others a b"
  obtains obj' res e s' v where "b = a\<lparr>sy_velero := v, sy_state := s'\<rparr>"
      "reconciler_CreateOrUpdate x r (sy_velero a) (sy_config a) cc (sy_state a) = Some ((obj', res, e), s')"
      "v \<in> {sy_velero a, obj'}"
  | obj' res e s' v where
      "b = a\<lparr>sy_velero := v, sy_stage := (if res = no_requeue \<and> e = None then Released else Deleting), sy_state := s'\<rparr>"
      "reconciler_Delete x r (sy_velero a) (sy_config a) cc (sy_state a) = Some ((obj', res, e), s')"
      "v \<in> {sy_velero a, obj'}"
  | "v_meta (sy_velero b) = v_meta (sy_velero a)" "trace (sy_state b) = trace (sy_state a)"
      "world (sy_state b) = world (sy_state a) \<or> others (world (sy_state a)) (world (sy_state b))"
  using assms
proof (cases rule: lifecycle.cases)
  case updating
  from updating(1) show thesis by (rule served_updateE) (rule that(1); simp)
next
  case (deleting res e b1)
  from deleting(2) obtain obj' s' v where b1: "b1 = a\<lparr>sy_velero := v, sy_state := s'\<rparr>"
    and run: "reconciler_Delete x r (sy_velero a) (sy_config a) cc (sy_state a) = Some ((obj', res, e), s')"
    and v: "v \<in> {sy_velero a, obj'}" by (rule served_deleteE) blast
  show thesis by (rule that(2)[OF _ run v]) (simp add: deleting(1) b1)
next
  case request_deletion
  then show thesis by (intro that(3)) simp_all
next
  case surroundings
  from surroundings show thesis by (rule served_surroundingsE) (rule that(3); simp)+
qed

subsection \<open>The identity of a resource over its life\<close>

text \<open>The id a resource has or will be given.\<close>

definition identity_of :: "velero \<Rightarrow> string" where
  "identity_of v = (if GetID (v_meta v) = [] then GenerateID v else GetID (v_meta v))"

text \<open>
  The documented behaviour of an update of the resource and of the status helpers: the first
  changes neither labels nor name nor namespace that were sent, refused or not; the second
  touch the status only.
\<close>

definition keeps_identity :: "'w ext \<Rightarrow> bool" where
  "keeps_identity x = ((\<forall>c v w v2 e w'. x_update_velero x c v w = (v2, e, w') \<longrightarrow>
       om_labels (v_meta v2) = om_labels (v_meta v) \<and> om_name (v_meta v2) = om_name (v_meta v)
       \<and> om_namespace (v_meta v2) = om_namespace (v_meta v))
     \<and> (\<forall>v a b. v_meta (x_status_progressing x v a b) = v_meta v)
     \<and> (\<forall>v a b. v_meta (x_status_terminating_reason x v a b) = v_meta v)
     \<and> (\<forall>v. v_meta (x_status_ready x v) = v_meta v) \<and> (\<forall>v. v_meta (x_status_terminating x v) = v_meta v))"

lemma identity_meta: "v_meta v = v_meta u \<Longrightarrow> identity_of v = identity_of u"
  by (simp only: identity_of_def GenerateID_def)

lemma identity_SetID: "identity_of (SetID v (GenerateID v)) = GenerateID v"
  by (simp add: identity_of_def)

lemma set_resources_meta [simp]: "v_meta (set_resources v rs) = v_meta v"
  by (simp add: set_resources_def)

lemma ensureInstanceID_identity:
  assumes "keeps_identity x" "ensureInstanceID x r obj s = ((obj1, e), s')"
  shows "identity_of obj1 = identity_of obj \<and> GetID (v_meta obj1) = identity_of obj"
proof (cases "GetID (v_meta obj) = []")
  case True
  obtain v a w where u: "x_update_velero x (ch_id (vr_onboarding r)) (SetID obj (GenerateID obj)) (world s) = (v, a, w)"
    by (metis prod_cases3)
  then have "obj1 = v"
    using assms(2) True by (auto simp: ensureInstanceID_def k_update_velero_def split: option.splits)
  moreover have "om_labels (v_meta v) = om_labels (v_meta (SetID obj (GenerateID obj)))"
    using assms(1) u unfolding keeps_identity_def by blast
  then have "GetID (v_meta v) = GetID (v_meta (SetID obj (GenerateID obj)))" by (simp only: GetID_def)
  then have "GetID (v_meta v) = GenerateID obj" by simp
  ultimately show ?thesis using True by (simp add: identity_of_def)
next
  case False
  then show ?thesis using assms(2) by (simp add: ensureInstanceID_def identity_of_def)
qed

lemma createObjectManager_identity:
  assumes "keeps_identity x" "createObjectManager x r obj pc cc s = Some ((obj1, res), s')"
  shows "identity_of obj1 = identity_of obj" and "res = Inr m \<Longrightarrow> GetID (v_meta obj1) = identity_of obj"
proof -
  obtain o2 e2 s2 where e: "ensureInstanceID x r obj s = ((o2, e2), s2)" by (metis prod.exhaust)
  note id = ensureInstanceID_identity[OF assms(1) e]
  have "obj1 = o2 \<or> (obj1 = obj \<and> (\<exists>err. res = Inl err))"
    using assms(2) e by (auto simp: createObjectManager_def bind_eq_Some_conv split: option.splits)
  then show "identity_of obj1 = identity_of obj" and "res = Inr m \<Longrightarrow> GetID (v_meta obj1) = identity_of obj"
    using id by auto
qed

lemma update_identity:
  assumes "keeps_identity x" "reconciler_CreateOrUpdate x r obj pc cc s = Some ((obj', res, e), s')"
  shows "identity_of obj' = identity_of obj"
  using assms(2)
proof (cases rule: CreateOrUpdate_runs)
  case (not_created obj1 err)
  then have "v_meta obj' = v_meta obj1" using assms(1) by (simp add: keeps_identity_def)
  then show ?thesis using identity_meta createObjectManager_identity(1)[OF assms(1) not_created(1)] by metis
next
  case (applied obj1 m s1 rs ae mrs bad)
  then have "v_meta obj' = v_meta obj1" using assms(1) by (auto simp: keeps_identity_def split: if_splits)
  then show ?thesis using identity_meta createObjectManager_identity(1)[OF assms(1) applied(1)] by metis
qed

lemma deletion_identity:
  assumes "keeps_identity x" "reconciler_Delete x r obj pc cc s = Some ((obj', res, e), s')"
  shows "identity_of obj' = identity_of obj"
  using assms(2)
proof (cases rule: Delete_runs)
  case (not_created obj1 err)
  then have "v_meta obj' = v_meta obj1" using assms(1) by (simp add: keeps_identity_def)
  then show ?thesis using identity_meta createObjectManager_identity(1)[OF assms(1) not_created(1)] by metis
next
  case (deleted obj1 m s1 rs ae mrs bad)
  then have "v_meta obj' = v_meta obj1" using assms(1) by (auto simp: keeps_identity_def split: if_splits)
  then show ?thesis using identity_meta createObjectManager_identity(1)[OF assms(1) deleted(1)] by metis
qed

lemma served_identity:
  assumes "served x r cc others ev a b" "ev \<noteq> Relabelled" "keeps_identity x"
  shows "identity_of (sy_velero b) = identity_of (sy_velero a)"
  using assms(1)
proof (cases rule: served.cases)
  case (update obj' res e s' v)
  then show ?thesis using update_identity[OF assms(3) update(3)] by auto
next
  case (delete obj' res e s' v)
  then show ?thesis using deletion_identity[OF assms(3) delete(3)] by auto
next
  case (edit sp)
  then have "v_meta (sy_velero b) = v_meta (sy_velero a)" by simp
  then show ?thesis by (rule identity_meta)
qed (use assms(2) in auto)

lemma lifecycle_identity:
  assumes "lifecycle x r cc others a b" "keeps_identity x"
  shows "identity_of (sy_velero b) = identity_of (sy_velero a)"
  using assms(1)
proof (cases rule: lifecycle_cases)
  case (update obj' res e s' v)
  then show ?thesis using update_identity[OF assms(2) update(2)] by auto
next
  case (delete obj' res e s' v)
  then show ?thesis using deletion_identity[OF assms(2) delete(2)] by auto
next
  case silent
  from silent(1) show ?thesis by (rule identity_meta)
qed

subsection \<open>Safety over a life\<close>

text \<open>
  What one moment of a history may have logged: a call what its handler may request for the
  id the resource had then and under the configuration of then, anything else nothing.
\<close>

fun moment_log :: "'w ext \<Rightarrow> 'w velero_reconciler \<Rightarrow> cluster_context \<Rightarrow> moment \<Rightarrow> request list \<Rightarrow> bool" where
  "moment_log x r cc (UpdateCall, v, pc) seg = (\<forall>q \<in> set seg. apply_allowed x r pc cc (identity_of v) q)"
| "moment_log x r cc (DeleteCall res e, v, pc) seg = (\<forall>q \<in> set seg. delete_allowed x r pc cc (identity_of v) q)"
| "moment_log x r cc (ev, v, pc) seg = (seg = [])"

lemma served_log:
  assumes "served x r cc others ev a b" "fresh_manager r" "sets_label x" "mutates_secret x" "gets_own_key x" "keeps_identity x"
  shows "\<exists>seg. trace (sy_state b) = trace (sy_state a) @ seg \<and> moment_log x r cc (ev, sy_velero a, sy_config a) seg"
proof -
  have created: "GetID (v_meta obj1) = identity_of v" if "createObjectManager x r v pc cc s = Some ((obj1, Inr m), s1)"
    for v pc s obj1 m s1 using createObjectManager_identity(2)[OF assms(6) that refl] .
  show ?thesis using assms(1)
  proof (cases rule: served.cases)
    case (update obj' res e s' v)
    have "\<exists>new. trace s' = trace (sy_state a) @ new
        \<and> (\<forall>q \<in> set new. apply_allowed x r (sy_config a) cc (identity_of (sy_velero a)) q)"
      by (rule update_log_at[OF update(3) assms(2,3,4)]) (rule created)
    with update(1,2) show ?thesis by auto
  next
    case (delete obj' res e s' v)
    have "\<exists>new. trace s' = trace (sy_state a) @ new
        \<and> (\<forall>q \<in> set new. delete_allowed x r (sy_config a) cc (identity_of (sy_velero a)) q)"
      by (rule deletion_log_at[OF delete(3) assms(2,5)]) (rule created)
    with delete(1,2) show ?thesis by auto
  qed simp_all
qed

lemma history_log:
  assumes "history x r cc others h a b" "fresh_manager r" "sets_label x" "mutates_secret x" "gets_own_key x" "keeps_identity x"
  shows "\<exists>segs. trace (sy_state b) = trace (sy_state a) @ concat segs \<and> list_all2 (moment_log x r cc) h segs"
  using assms(1)
proof (induction rule: history.induct)
  case (rest a)
  show ?case by (intro exI[of _ "[]"]) simp
next
  case (step ev a b h c)
  from served_log[OF step.hyps(1) assms(2-6)] obtain seg where
    "trace (sy_state b) = trace (sy_state a) @ seg" "moment_log x r cc (ev, sy_velero a, sy_config a) seg" by blast
  with step.IH show ?case by (metis append.assoc concat.simps(2) list_all2_Cons)
qed

text \<open>The id stays over every step of a history but a relabelling.\<close>

fun ids_kept :: "moment list \<Rightarrow> bool" where
  "ids_kept ((ev, v, pc) # (ev2, v2, pc2) # h) =
     ((ev \<noteq> Relabelled \<longrightarrow> identity_of v2 = identity_of v) \<and> ids_kept ((ev2, v2, pc2) # h))"
| "ids_kept h = True"

lemma history_ids:
  assumes "history x r cc others h a b" "keeps_identity x"
  shows "ids_kept h"
  using assms(1)
proof (induction rule: history.induct)
  case (rest a)
  show ?case by simp
next
  case (step ev a b h c)
  show ?case
  proof (cases h)
    case Nil
    then show ?thesis by simp
  next
    case (Cons p h')
    with step.hyps(2) obtain ev2 where "p = (ev2, sy_velero b, sy_config b)" by (auto elim: history.cases)
    with Cons step.IH served_identity[OF step.hyps(1) _ assms(2)] show ?thesis by auto
  qed
qed

text \<open>
  What the log of one moment then shows: only updates write, always with the id of the moment on
  the object, and only deletions delete on the control plane, no more than three objects.
\<close>

definition moment_safe :: "cluster_context \<Rightarrow> moment \<Rightarrow> request list \<Rightarrow> bool" where
  "moment_safe cc m seg = (case m of (ev, v, pc) \<Rightarrow>
       (\<forall>c o'. ReqPersist c o' \<in> set seg \<longrightarrow> ev = UpdateCall \<and> carries_labels (identity_of v) o')
     \<and> (\<forall>k key ans. ReqDelete (ch_id (cc_mcp cc)) k key ans \<in> set seg \<longrightarrow> (\<exists>res e. ev = DeleteCall res e)
          \<and> (k, key) \<in> {(''ServiceAccount'', (''velero'', ''velero-server'')), (''ClusterRoleBinding'', ([], ''velero-server'')),
                        (''Deployment'', (''velero'', ''velero''))}))"

lemma moment_log_persist:
  assumes "moment_log x r cc (ev, v, pc) seg" "ReqPersist c o' \<in> set seg"
  shows "ev = UpdateCall \<and> carries_labels (identity_of v) o'"
  using assms by (cases ev) (auto simp: apply_allowed_def delete_allowed_def)

lemma moment_log_safe:
  assumes "moment_log x r cc m seg" "ch_id (cc_mcp cc) \<noteq> ch_id (cc_workload cc)"
  shows "moment_safe cc m seg"
proof (cases m)
  case (fields ev v pc)
  note lg = assms(1)[unfolded fields]
  have "(\<exists>res e. ev = DeleteCall res e) \<and> (k, key) \<in> {(''ServiceAccount'', (''velero'', ''velero-server'')),
      (''ClusterRoleBinding'', ([], ''velero-server'')), (''Deployment'', (''velero'', ''velero''))}"
    if d: "ReqDelete (ch_id (cc_mcp cc)) k key ans \<in> set seg" for k key ans
  proof (cases ev)
    case UpdateCall
    with lg d have "apply_allowed x r pc cc (identity_of v) (ReqDelete (ch_id (cc_mcp cc)) k key ans)" by simp
    with assms(2) show ?thesis by (simp add: apply_allowed_def)
  next
    case (DeleteCall res e)
    with lg d have "delete_allowed x r pc cc (identity_of v) (ReqDelete (ch_id (cc_mcp cc)) k key ans)" by simp
    with mcp_deletion_allowed[OF _ assms(2)] DeleteCall show ?thesis by blast
  qed (use lg d in simp_all)
  with moment_log_persist[OF lg] show ?thesis unfolding moment_safe_def fields prod.case by blast
qed

text \<open>
  C1. Safety over the life of a resource. Take any history: calls of either handler in any order,
  edits of the resource with its labels, of its configuration, restarts, stale reads and lost
  writes, and whatever the servers answer and others do on the clusters. Its requests are, call
  by call, requests the handler called may issue for the id the resource has at that call and
  under the configuration of that call; only relabelling changes this id, so without it all
  of them belong to one id. Only calls of the update handler write objects, and each carries the
  id of its call. On the control plane, different from the workload cluster, only calls of the
  deletion handler delete anything, and then only the service account, the role binding and
  the deployment: the namespace and the definitions with the user's data survive.
\<close>

theorem lifetime_safe:
  assumes "history x r cc others h a b" "fresh_manager r" "sets_label x" "mutates_secret x" "gets_own_key x" "keeps_identity x"
    and "ch_id (cc_mcp cc) \<noteq> ch_id (cc_workload cc)"
  shows "ids_kept h \<and> (\<exists>segs. trace (sy_state b) = trace (sy_state a) @ concat segs
    \<and> list_all2 (moment_log x r cc) h segs \<and> list_all2 (moment_safe cc) h segs)"
proof -
  obtain segs where segs: "trace (sy_state b) = trace (sy_state a) @ concat segs" "list_all2 (moment_log x r cc) h segs"
    using history_log[OF assms(1-6)] by blast
  moreover have "list_all2 (moment_safe cc) h segs"
    using segs(2) moment_log_safe[OF _ assms(7)] by (rule list_all2_mono)
  ultimately show ?thesis using history_ids[OF assms(1,6)] by blast
qed

subsection \<open>The release\<close>

text \<open>A deletion call that ends a life leaves nothing.\<close>

lemma delete_done_gone:
  assumes "reconciler_Delete x r v pc cc s = Some ((obj', no_requeue, None), s')"
    and "deletes_cleanly x live" "fresh_manager r" "accepted x pc v"
  shows "\<forall>i \<in> deletable x pc cc (GetID (v_meta v)). i \<notin> live (world s')"
proof -
  obtain m s1 where c: "createObjectManager x r v pc cc s = Some ((v, Inr m), s1)"
    by (rule createObjectManager_accepted[OF assms(4)])
  show ?thesis by (rule finished_deletion_clean[OF assms(1) c deletes_cleanly_truthful[OF assms(2)] assms(3)])
qed

text \<open>One call for a resource that is being deleted.\<close>

lemma deleting_call:
  fixes cc :: cluster_context
  assumes "sy_stage a = Deleting" "deletes_cleanly x live" "fresh_manager r" "accepted x (sy_config a) (sy_velero a)"
  defines "D \<equiv> deletable x (sy_config a) cc (GetID (v_meta (sy_velero a)))"
  obtains b where "lifecycle x r cc others a b" "sy_velero b = sy_velero a" "sy_config b = sy_config a"
    "sy_stage b = Released \<and> (\<forall>i \<in> D. i \<notin> live (world (sy_state b))) \<or> sy_stage b = Deleting"
    "\<And>i. i \<in> D \<Longrightarrow> i \<noteq> account_item cc \<or> token_item cc (GetID (v_meta (sy_velero a))) \<notin> live (world (sy_state a))
       \<Longrightarrow> i \<notin> live (world (sy_state b))"
    "\<forall>i \<in> D. i \<notin> live (world (sy_state a)) \<Longrightarrow> sy_stage b = Released"
proof -
  obtain obj' res e s' where run: "reconciler_Delete x r (sy_velero a) (sy_config a) cc (sy_state a) = Some ((obj', res, e), s')"
    and gone: "\<And>i. i \<in> D \<Longrightarrow> i \<noteq> account_item cc \<or> token_item cc (GetID (v_meta (sy_velero a))) \<notin> live (world (sy_state a))
       \<Longrightarrow> i \<notin> live (world s')"
    and fin: "\<forall>i \<in> D. i \<notin> live (world (sy_state a)) \<Longrightarrow> res = no_requeue \<and> e = None"
    unfolding D_def by (rule delete_call[OF assms(2-4), of cc "sy_state a"]) blast
  define b where "b = a\<lparr>sy_velero := sy_velero a, sy_stage := (if res = no_requeue \<and> e = None then Released else Deleting), sy_state := s'\<rparr>"
  have "lifecycle x r cc others a b" unfolding b_def by (rule lifecycle_delete[OF run assms(1)]) simp
  moreover have "\<forall>i \<in> D. i \<notin> live (world s')" if "res = no_requeue" "e = None"
    using delete_done_gone[OF run[unfolded that] assms(2-4)] by (simp add: D_def)
  ultimately show thesis using that[of b] gone fin by (simp add: b_def)
qed

text \<open>
  Every deletion can end. On such servers, from any state in which an accepted resource is
  being deleted, calls of the deletion handler alone lead to its release with nothing left
  that was to be deleted.
\<close>

theorem release_reachable:
  assumes "sy_stage a = Deleting" "deletes_cleanly x live" "fresh_manager r" "accepted x (sy_config a) (sy_velero a)"
  shows "\<exists>b. lifetime x r cc others a b \<and> sy_stage b = Released
    \<and> (\<forall>i \<in> deletable x (sy_config a) cc (GetID (v_meta (sy_velero a))). i \<notin> live (world (sy_state b)))"
proof -
  let ?iid = "GetID (v_meta (sy_velero a))"
  define D where "D = deletable x (sy_config a) cc ?iid"
  obtain b where b: "lifecycle x r cc others a b" "sy_velero b = sy_velero a" "sy_config b = sy_config a"
    "sy_stage b = Released \<and> (\<forall>i \<in> D. i \<notin> live (world (sy_state b))) \<or> sy_stage b = Deleting"
    "\<And>i. i \<in> D \<Longrightarrow> i \<noteq> account_item cc \<Longrightarrow> i \<notin> live (world (sy_state b))"
    unfolding D_def by (rule deleting_call[OF assms, of cc others]) blast
  have ab: "lifetime x r cc others a b" using b(1) by simp
  have tok: "token_item cc ?iid \<notin> live (world (sy_state b))"
    using b(5)[of "token_item cc ?iid"] token_deletable[of cc ?iid x "sy_config a"]
    by (simp add: D_def token_item_def account_item_def)
  show ?thesis
  proof (cases "sy_stage b = Released")
    case True
    then have "\<forall>i \<in> D. i \<notin> live (world (sy_state b))" using b(4) by simp
    with True show ?thesis using ab unfolding D_def by metis
  next
    case False
    then have del: "sy_stage b = Deleting" using b(4) by simp
    have ac: "accepted x (sy_config b) (sy_velero b)" using assms(4) b(2,3) by simp
    obtain c where c: "lifecycle x r cc others b c" "sy_velero c = sy_velero a" "sy_config c = sy_config a"
      "sy_stage c = Released \<and> (\<forall>i \<in> D. i \<notin> live (world (sy_state c))) \<or> sy_stage c = Deleting"
      "\<And>i. i \<in> D \<Longrightarrow> i \<notin> live (world (sy_state c))"
    proof (rule deleting_call[OF del assms(2,3) ac, of cc others, unfolded b(2,3), folded D_def])
      fix c
      assume c: "lifecycle x r cc others b c" "sy_velero c = sy_velero a" "sy_config c = sy_config a"
        "sy_stage c = Released \<and> (\<forall>i \<in> D. i \<notin> live (world (sy_state c))) \<or> sy_stage c = Deleting"
        "\<And>i. i \<in> D \<Longrightarrow> i \<noteq> account_item cc \<or> token_item cc ?iid \<notin> live (world (sy_state b)) \<Longrightarrow> i \<notin> live (world (sy_state c))"
      from that[OF c(1-4) c(5)] tok show thesis by (simp only: simp_thms)
    qed
    have bc: "lifetime x r cc others a c" using b(1) c(1) by simp
    show ?thesis
    proof (cases "sy_stage c = Released")
      case True
      then have "\<forall>i \<in> D. i \<notin> live (world (sy_state c))" using c(4) by simp
      with True show ?thesis using bc unfolding D_def by metis
    next
      case False
      then have del: "sy_stage c = Deleting" using c(4) by simp
      have ac: "accepted x (sy_config c) (sy_velero c)" using assms(4) c(2,3) by simp
      obtain d where d: "lifecycle x r cc others c d" "sy_stage d = Released" "\<forall>i \<in> D. i \<notin> live (world (sy_state d))"
      proof (rule deleting_call[OF del assms(2,3) ac, of cc others, unfolded c(2,3), folded D_def])
        fix d
        assume "lifecycle x r cc others c d" "\<forall>i \<in> D. i \<notin> live (world (sy_state c)) \<Longrightarrow> sy_stage d = Released"
          "\<And>i. i \<in> D \<Longrightarrow> i \<noteq> account_item cc \<or> token_item cc ?iid \<notin> live (world (sy_state c)) \<Longrightarrow> i \<notin> live (world (sy_state d))"
        moreover have "token_item cc ?iid \<notin> live (world (sy_state c))"
          using c(5) token_deletable unfolding D_def by blast
        ultimately show thesis using that c(5) by blast
      qed
      moreover have "lifetime x r cc others a d" using bc d(1) by simp
      ultimately show ?thesis unfolding D_def by metis
    qed
  qed
qed

text \<open>
  C31. A release can leak. An edit to a version the controller does not support, when the
  filter takes the resulting error for the user's, releases a resource that is being deleted at the
  next call: nothing was requested, and everything the controller had created still exists.
\<close>

theorem release_leak:
  fixes sp :: velero_spec
  assumes "sy_stage a = Deleting" "validateRequestedVersion x (vs_version sp) = Some (Some err)"
    and "x_ignore_invalid_input x err = None"
  shows "\<exists>b. lifetime x r cc others a b \<and> sy_stage b = Released \<and> sy_state b = sy_state a"
proof -
  define v where "v = (sy_velero a)\<lparr>v_spec := sp\<rparr>"
  have e: "lifecycle x r cc others a (a\<lparr>sy_velero := v\<rparr>)" unfolding v_def by (rule lifecycle_edit)
  have "createObjectManager x r v pc cc s = Some ((v, Inl err), s)" for pc s
    using assms(2) by (simp add: createObjectManager_def v_def)
  then have run: "reconciler_Delete x r v pc cc s = Some ((x_status_terminating_reason x v ''ReconcileError'' (error_text err), no_requeue, None), s)" for pc s
    using assms(3) by (simp add: reconciler_Delete_def)
  define b where "b = (a\<lparr>sy_velero := v\<rparr>)\<lparr>sy_velero := v, sy_stage := (if no_requeue = no_requeue \<and> (None :: error option) = None then Released else Deleting),
      sy_state := sy_state a\<rparr>"
  have "lifecycle x r cc others (a\<lparr>sy_velero := v\<rparr>) b" unfolding b_def
    by (rule lifecycle_delete) (use run[of "sy_config a" "sy_state a"] assms(1) in simp_all)
  with e have "lifetime x r cc others a b" by simp
  moreover have "sy_stage b = Released" "sy_state b = sy_state a" by (simp_all add: b_def)
  ultimately show ?thesis by blast
qed

end
