(* ===== verification/World_Effects.thy ===== *)
theory World_Effects
  imports Handlers
begin

text \<open>
  What the handlers do to the clusters themselves, against servers on which a request changes
  no more than it says. \<open>view w i\<close> is whatever can be observed of the item \<open>i\<close> in the world
  \<open>w\<close>. The request log accounts for every change: an item outside the reach of all requests a
  call logs looks after the call as it did before.
\<close>

subsection \<open>The reach of a request\<close>

text \<open>
  A namespace with everything in it. Changing a namespaced object may change anything in its
  namespace (deployments start pods), deleting a namespace takes its contents along, and
  another cluster-wide object may change anything in its cluster.
\<close>

definition namespace_items :: "string \<Rightarrow> string \<Rightarrow> item set" where
  "namespace_items c d = {(c', k, key). c' = c \<and> (fst key = d \<or> (k = ''Namespace'' \<and> key = ([], d)))}"

definition reach :: "item \<Rightarrow> item set" where
  "reach i = (case i of (c, k, ns, n) \<Rightarrow>
     (let d = (if k = ''Namespace'' then n else ns)
      in insert i (if d = [] then {j. fst j = c} else namespace_items c d)))"

fun affected :: "request \<Rightarrow> item set" where
  "affected (ReqPersist c o') = reach (c, kind_of o', object_key o')"
| "affected (ReqDelete c k key e) = reach (c, k, key)"
| "affected (ReqUpdateVelero c key e) = {j. fst j = c}"
| "affected _ = {}"

lemma namespace_items_disjoint:
  "d \<noteq> d' \<Longrightarrow> d \<noteq> [] \<Longrightarrow> d' \<noteq> [] \<Longrightarrow> namespace_items c d \<inter> namespace_items c' d' = {}"
  by (auto simp: namespace_items_def)

subsection \<open>Servers with local effects\<close>

text \<open>
  Reads, listings, tokens, files and the clock change nothing; a deletion, a write and an
  update of the \<open>Velero\<close> resource change nothing outside their reach; a write whose callback
  failed does not happen.
\<close>

definition local_effects :: "'w ext \<Rightarrow> ('w \<Rightarrow> item \<Rightarrow> 'v) \<Rightarrow> bool" where
  "local_effects x view =
     ((\<forall>c k o' w o2 e w'. x_get x c k o' w = (o2, e, w') \<longrightarrow> view w' = view w)
    \<and> (\<forall>c o' w e w'. x_delete x c o' w = (e, w') \<longrightarrow>
         (\<forall>i. i \<notin> reach (c, kind_of o', object_key o') \<longrightarrow> view w' i = view w i))
    \<and> (\<forall>c ns ls w os e w'. x_list_secrets x c ns ls w = (os, e, w') \<longrightarrow> view w' = view w)
    \<and> (\<forall>c v w v2 e w'. x_update_velero x c v w = (v2, e, w') \<longrightarrow> (\<forall>i. fst i \<noteq> c \<longrightarrow> view w' i = view w i))
    \<and> (\<forall>c sa n w t e w'. x_create_token x c sa n w = (t, e, w') \<longrightarrow> view w' = view w)
    \<and> (\<forall>c o' w o1 e w'. x_cou_begin x c o' w = (o1, e, w') \<longrightarrow> view w' = view w)
    \<and> (\<forall>c o1 o2 e w o3 r e3 w'. x_cou_finish x c o1 o2 e w = (o3, r, e3, w') \<longrightarrow>
         (\<forall>i. e \<noteq> None \<or> i \<notin> reach (c, kind_of o2, object_key o2) \<longrightarrow> view w' i = view w i))
    \<and> (\<forall>f w b e w'. x_read_file x f w = (b, e, w') \<longrightarrow> view w' = view w)
    \<and> (\<forall>w t w'. x_now x w = (t, w') \<longrightarrow> view w' = view w))"

text \<open>\<open>CreateOrUpdate\<close> reads the object of the key it was given.\<close>

definition begins_own_key :: "'w ext \<Rightarrow> bool" where
  "begins_own_key x = (\<forall>c o' w o1 e w'. x_cou_begin x c o' w = (o1, e, w') \<longrightarrow>
     object_key (fill o' o1) = object_key o')"

text \<open>
  From \<open>s\<close> to \<open>s'\<close> the log grew, every write in it was preceded by a fetch of the same
  object, and what none of the new requests reaches is unchanged.
\<close>

definition own_writes :: "request list \<Rightarrow> bool" where
  "own_writes new = (\<forall>c o'. ReqPersist c o' \<in> set new \<longrightarrow> ReqFetch c (kind_of o') (object_key o') \<in> set new)"

definition accounted :: "('w \<Rightarrow> item \<Rightarrow> 'v) \<Rightarrow> 'w st \<Rightarrow> 'w st \<Rightarrow> bool" where
  "accounted view s s' = (\<exists>new. trace s' = trace s @ new \<and> own_writes new
     \<and> (\<forall>i. (\<forall>q \<in> set new. i \<notin> affected q) \<longrightarrow> view (world s') i = view (world s) i))"

lemma own_writes_append: "own_writes a \<Longrightarrow> own_writes b \<Longrightarrow> own_writes (a @ b)"
  by (auto simp: own_writes_def)

lemma own_writes_reads: "\<not> is_persist q \<Longrightarrow> own_writes [q]"
  by (cases q) (auto simp: own_writes_def)

lemma accounted_silent: "trace s' = trace s \<Longrightarrow> view (world s') = view (world s) \<Longrightarrow> accounted view s s'"
  by (simp add: accounted_def own_writes_def)

lemma accounted_refl [simp]: "accounted view s s"
  by (simp add: accounted_silent)

lemma accounted_step:
  assumes "trace s' = trace s @ [q]" "\<not> is_persist q" "\<forall>i. i \<notin> affected q \<longrightarrow> view (world s') i = view (world s) i"
  shows "accounted view s s'"
  unfolding accounted_def by (rule exI[of _ "[q]"]) (use assms own_writes_reads in auto)

lemma accounted_trans:
  assumes "accounted view s t" "accounted view t u"
  shows "accounted view s u"
proof -
  from assms obtain a b where "trace t = trace s @ a" "own_writes a"
    "\<And>i. \<forall>q \<in> set a. i \<notin> affected q \<Longrightarrow> view (world t) i = view (world s) i"
    "trace u = trace t @ b" "own_writes b" "\<And>i. \<forall>q \<in> set b. i \<notin> affected q \<Longrightarrow> view (world u) i = view (world t) i"
    unfolding accounted_def by blast
  then show ?thesis unfolding accounted_def
    by (intro exI[of _ "a @ b"]) (auto intro: own_writes_append)
qed

lemma accounted_set_object [simp]: "accounted view s (set_object r o' s') \<longleftrightarrow> accounted view s s'"
  by (simp add: accounted_def)

subsection \<open>The calls\<close>

lemma local_effectsD:
  assumes "local_effects x view"
  shows "x_get x c k o' w = (o2, e, w') \<Longrightarrow> view w' = view w"
    and "x_delete x c o' w = (e, w') \<Longrightarrow> i \<notin> reach (c, kind_of o', object_key o') \<Longrightarrow> view w' i = view w i"
    and "x_list_secrets x c ns ls w = (os, e, w') \<Longrightarrow> view w' = view w"
    and "x_update_velero x c v w = (v2, e, w') \<Longrightarrow> fst i \<noteq> c \<Longrightarrow> view w' i = view w i"
    and "x_create_token x c sa n w = (t, e, w') \<Longrightarrow> view w' = view w"
    and "x_cou_begin x c o' w = (o1, e, w') \<Longrightarrow> view w' = view w"
    and "x_cou_finish x c o1 o2 ef w = (o3, r, e3, w') \<Longrightarrow>
           ef \<noteq> None \<or> i \<notin> reach (c, kind_of o2, object_key o2) \<Longrightarrow> view w' i = view w i"
    and "x_read_file x f w = (b, e, w') \<Longrightarrow> view w' = view w"
    and "x_now x w = (n', w') \<Longrightarrow> view w' = view w"
  using assms unfolding local_effects_def by meson+

lemma accounted_calls:
  assumes "local_effects x view"
  shows "k_get x c k o' s = (y, s') \<Longrightarrow> accounted view s s'"
    and "k_delete x c o' s = (e, s') \<Longrightarrow> accounted view s s'"
    and "k_list_secrets x c ns ls s = (ly, s') \<Longrightarrow> accounted view s s'"
    and "k_update_velero x c v s = (vy, s') \<Longrightarrow> accounted view s s'"
    and "k_create_token x c o' n s = (ty, s') \<Longrightarrow> accounted view s s'"
    and "os_read_file x f s = (fy, s') \<Longrightarrow> accounted view s s'"
    and "time_now x s = (t, s') \<Longrightarrow> accounted view s s'"
proof -
  note le = local_effectsD[OF assms]
  show "k_get x c k o' s = (y, s') \<Longrightarrow> accounted view s s'"
    by (auto simp: k_get_def split: prod.splits dest!: le(1) intro!: accounted_step)
  show "k_delete x c o' s = (e, s') \<Longrightarrow> accounted view s s'"
    by (auto simp: k_delete_def split: prod.splits dest: le(2) intro!: accounted_step)
  show "k_list_secrets x c ns ls s = (ly, s') \<Longrightarrow> accounted view s s'"
    by (auto simp: k_list_secrets_def split: prod.splits dest!: le(3) intro!: accounted_step)
  show "k_update_velero x c v s = (vy, s') \<Longrightarrow> accounted view s s'"
    by (force simp: k_update_velero_def split: prod.splits dest: le(4) intro!: accounted_step)
  show "k_create_token x c o' n s = (ty, s') \<Longrightarrow> accounted view s s'"
    by (auto simp: k_create_token_def split: prod.splits dest!: le(5) intro!: accounted_step)
  show "os_read_file x f s = (fy, s') \<Longrightarrow> accounted view s s'"
    by (auto simp: os_read_file_def split: prod.splits dest!: le(8) intro!: accounted_silent)
  show "time_now x s = (t, s') \<Longrightarrow> accounted view s s'"
    by (auto simp: time_now_def split: prod.splits dest!: le(9) intro!: accounted_silent)
qed

subsection \<open>Closures\<close>

definition accounted_closure :: "('w \<Rightarrow> item \<Rightarrow> 'v) \<Rightarrow> 'w reconcile_func \<Rightarrow> bool" where
  "accounted_closure view f = (\<forall>o' s y s'. f o' s = Some (y, s') \<longrightarrow> accounted view s s')"

lemma accounted_closure_pure:
  "(\<And>o' s y s'. f o' s = Some (y, s') \<Longrightarrow> s' = s) \<Longrightarrow> accounted_closure view f"
  unfolding accounted_closure_def by fastforce

lemma accounted_generateToken:
  assumes "local_effects x view" "generateToken x c cfg m d s = (res, s')"
  shows "accounted view s s'"
proof -
  note calls = accounted_calls(1,5,6)[OF assms(1)]
  have "(\<forall>cf. cfg = Some cf \<longrightarrow> msa_name m = [] \<or> msa_namespace m = [] \<or> d < 10 * minute) \<or> cfg = None \<Longrightarrow> s' = s"
    using assms(2) by (auto simp: generateToken_def split: option.splits if_splits)
  obtain sa e1 s1 where g: "k_get x c (msa_namespace m, msa_name m) (new_object [] [] ServiceAccount) s = ((sa, e1), s1)"
    by (metis prod.exhaust)
  obtain t e2 s2 where k: "k_create_token x c sa (duration_seconds d) s1 = ((t, e2), s2)" by (metis prod.exhaust)
  have "s' = s \<or> s' = s1 \<or> s' = s2 \<or> (\<exists>f y. os_read_file x f s2 = (y, s'))"
    using assms(2) g k by (auto simp: generateToken_def split: option.splits if_splits prod.splits)
  then show ?thesis
    using calls(1)[OF g] calls(2)[OF k] calls(3) accounted_trans accounted_refl by metis
qed

lemma accounted_token:
  assumes "local_effects x view"
  shows "accounted_closure view (token_reconcile x m mc poll)"
  unfolding accounted_closure_def
proof (intro allI impI)
  fix o' s y s'
  assume run: "token_reconcile x m mc poll o' s = Some (y, s')"
  obtain now s1 where n: "time_now x s = (now, s1)" by force
  obtain res s2 where g: "generateToken x (mc_cluster mc) (mc_cfg mc) m hour s1 = (res, s2)" by force
  have "s' = s1 \<or> s' = s2"
    using run n g by (auto simp: token_reconcile_def split: payload.splits if_splits sum.splits)
  then show "accounted view s s'"
    using accounted_calls(7)[OF assms n] accounted_generateToken[OF assms g] accounted_trans by blast
qed

lemma accounted_pull_secret:
  assumes "local_effects x view"
  shows "accounted_closure view (pull_secret_reconcile x c name tns sns)"
  unfolding accounted_closure_def
proof (intro allI impI)
  fix o' s y s'
  assume run: "pull_secret_reconcile x c name tns sns o' s = Some (y, s')"
  obtain z s1 where g: "k_get x c (sns, name) (new_object name sns (Secret None [])) s = (z, s1)" by (metis prod.exhaust)
  have "s' = s1"
    using run g by (auto simp: pull_secret_reconcile_def Let_def split: payload.splits option.splits prod.splits)
  then show "accounted view s s'" using accounted_calls(1)[OF assms g] by simp
qed

lemma accounted_entries:
  assumes "local_effects x view"
    and "e \<in> set (mcp_entries x obj images crds) \<union> set (workload_entries x r obj pc images cc poll msa)"
  shows "\<exists>f. moc_reconcile (snd e) = Some f \<and> accounted_closure view f"
proof -
  note pure = accounted_closure_pure
  have "accounted_closure view NoOp" by (rule pure) (simp add: NoOp_def)
  moreover have "accounted_closure view (crd_reconcile sp)" for sp
    by (rule pure) (auto simp: crd_reconcile_def split: payload.splits)
  moreover have "accounted_closure view (role_binding_reconcile a)" for a
    by (rule pure) (auto simp: role_binding_reconcile_def split: payload.splits)
  moreover have "accounted_closure view (mcp_deployment_reconcile x img i)" for img i
    by (rule pure) (auto simp: mcp_deployment_reconcile_def Let_def split: payload.splits)
  moreover have "accounted_closure view (deployment_reconcile x ns obj ps images tf)" for ns ps tf
    by (rule pure) (auto simp: deployment_reconcile_def Let_def bind_eq_Some_conv split: payload.splits)
  ultimately show ?thesis
    using assms accounted_token[OF assms(1)] accounted_pull_secret[OF assms(1)]
    by (auto simp: mcp_entries_def workload_entries_def namespace_entry_def service_account_entry_def
      crd_entry_def role_binding_entry_def deployment_entry_def token_entry_def pull_secret_entry_def)
qed

subsection \<open>Passes\<close>

lemma accounted_apply_object:
  assumes le: "local_effects x view" "begins_own_key x" and wb: "well_behaved R mo"
    and cl: "accounted_closure view (Reconcile mo)"
    and run: "reconcileObject x iid mc mo D False s = Some (r, s')"
  shows "accounted view s s'"
proof -
  let ?o0 = "GetObject mo s" and ?c = "ch_id (mc_cluster mc)"
  have fetch: "accounted view s (fetched mc ?o0 w1 s)"
    if "x_cou_begin x ?c ?o0 (world s) = (o1, e, w1)" for o1 e w1
    using local_effectsD(6)[OF le(1) that]
    by (intro accounted_step[where q = "ReqFetch ?c (kind_of ?o0) (object_key ?o0)"]) simp_all
  show ?thesis using run
  proof (cases rule: apply_object_cases)
    case (not_fetched o1 e w1)
    then show ?thesis using fetch by simp
  next
    case (ran o1 w1 o2 e2 s2 o3 r3 e3 w3)
    let ?s3 = "persisted mc o2 e2 s2\<lparr>world := w3\<rparr>"
    have a2: "accounted view (fetched mc ?o0 w1 s) s2"
      using cl ran(2) unfolding accounted_closure_def by blast
    have "accounted view s ?s3"
    proof (cases e2)
      case (Some e)
      then have "view w3 i = view (world s2) i" for i
        using local_effectsD(7)[OF le(1) ran(3)] by simp
      then have "accounted view s2 ?s3"
        using Some by (intro accounted_silent) auto
      with fetch[OF ran(1)] a2 show ?thesis by (meson accounted_trans)
    next
      case None
      from a2 obtain own where own: "trace s2 = trace (fetched mc ?o0 w1 s) @ own" "own_writes own"
        "\<And>i. \<forall>q \<in> set own. i \<notin> affected q \<Longrightarrow> view (world s2) i = view w1 i"
        unfolding accounted_def by auto
      have "object_key (fill ?o0 o1) = object_key ?o0"
        using le(2) ran(1) unfolding begins_own_key_def by blast
      moreover have "same_identity (stamp iid (fill ?o0 o1)) o2"
        using stamped_reconciler.same_object[OF well_behaved_Reconcile[OF wb]] ran(2) None by blast
      ultimately have id: "object_key o2 = object_key ?o0" "kind_of o2 = kind_of ?o0"
        by (simp_all add: same_identity_def)
      define new where "new = ReqFetch ?c (kind_of ?o0) (object_key ?o0) # own @ [ReqPersist ?c o2]"
      have "trace ?s3 = trace s @ new"
        using own(1) None by (simp add: new_def)
      moreover have "own_writes new"
        using own(2) id by (auto simp: own_writes_def new_def)
      moreover have "view w3 i = view (world s) i" if "\<forall>q \<in> set new. i \<notin> affected q" for i
        using local_effectsD(7)[OF le(1) ran(3), of i] own(3)[of i] local_effectsD(6)[OF le(1) ran(1)] that None
        by (simp add: new_def)
      ultimately show ?thesis unfolding accounted_def by (intro exI[of _ new]) auto
    qed
    with ran(5) show ?thesis by simp
  qed
qed

lemma accounted_check_loop:
  assumes "local_effects x view"
  shows "check_loop x deps s = (errs, s') \<Longrightarrow> accounted view s s'"
proof (induction deps arbitrary: s errs)
  case (Cons d deps)
  define ob where "ob = GetObject (dep_object d) s"
  obtain o2 err s1 where g: "k_get x (mc_cluster (dep_cluster d)) (object_key ob) ob s = ((o2, err), s1)"
    by (metis prod.exhaust)
  define s2 where "s2 = set_object (mo_ref (dep_object d)) o2 s1"
  obtain errs2 s3 where l: "check_loop x deps s2 = (errs2, s3)" by force
  have "s3 = s'" using Cons.prems g l by (auto simp: s2_def ob_def Let_def split: if_splits option.splits prod.splits)
  with Cons.IH l have "accounted view s2 s'" by blast
  moreover have "accounted view s s2" using accounted_calls(1)[OF assms g] by (simp add: s2_def)
  ultimately show ?case using accounted_trans by blast
qed simp

lemma accounted_delete_object:
  assumes "local_effects x view" "reconcileObject x iid mc mo D True s = Some (r, s')"
  shows "accounted view s s'"
proof -
  obtain errs s1 where c: "check_loop x (dependents_at D (mo_ref mo)) s = (errs, s1)" by force
  obtain e2 s2 where d: "k_delete x (mc_cluster mc) (GetObject mo s1) s1 = (e2, s2)" by force
  have "s' = s1 \<or> s' = s2"
    using assms(2) c d by (auto simp: reconcileObject_def checkForDependents_def GetDeletionPolicy_def Let_def
        split: option.splits if_splits)
  then show ?thesis
    using accounted_check_loop[OF assms(1) c] accounted_calls(2)[OF assms(1) d] accounted_trans by blast
qed

lemma accounted_targets:
  assumes "local_effects x view" "begins_own_key x"
  shows "run_targets x iid D del ts s = Some (rs, s') \<Longrightarrow>
    (\<not> del \<Longrightarrow> \<forall>t \<in> set ts. well_behaved R (snd t) \<and> accounted_closure view (Reconcile (snd t))) \<Longrightarrow>
    accounted view s s'"
proof (induction ts arbitrary: s rs)
  case (Cons t ts)
  obtain mc mo where t: "t = (mc, mo)" by force
  from Cons.prems(1) t obtain r s1 rs1 where r: "reconcileObject x iid mc mo D del s = Some (r, s1)"
    and rs: "run_targets x iid D del ts s1 = Some (rs1, s')" by auto
  have "accounted view s s1"
  proof (cases del)
    case True
    with r have "reconcileObject x iid mc mo D True s = Some (r, s1)" by simp
    then show ?thesis by (rule accounted_delete_object[OF assms(1)])
  next
    case False
    with Cons.prems(2) t have "well_behaved R mo" "accounted_closure view (Reconcile mo)" by auto
    moreover from r False have "reconcileObject x iid mc mo D False s = Some (r, s1)" by simp
    ultimately show ?thesis by (rule accounted_apply_object[OF assms])
  qed
  moreover have "accounted view s1 s'" using Cons.IH[OF rs] Cons.prems(2) by simp
  ultimately show ?case by (rule accounted_trans)
qed simp

lemma accounted_cleanup_loop:
  assumes "local_effects x view"
  shows "cleanup_loop x mc keep items results s = (rs, s') \<Longrightarrow> accounted view s s'"
proof (induction items arbitrary: results s)
  case (Cons v items)
  obtain e s1 where d: "k_delete x (mc_cluster mc) v s = (e, s1)" by force
  obtain r s2 where c: "cleanupErrorResult mc v e s1 = (r, s2)" by force
  have "trace s2 = trace s1" "world s2 = world s1"
    using c by (auto simp: cleanupErrorResult_def NewManagedObject_def Let_def alloc_def)
  then have "accounted view s1 s2" by (simp add: accounted_silent)
  with accounted_calls(2)[OF assms d] have *: "accounted view s s1" "accounted view s s2"
    by (blast intro: accounted_trans)+
  have "\<exists>res t. (t = s \<or> t = s1 \<or> t = s2) \<and> cleanup_loop x mc keep items res t = (rs, s')"
    using Cons.prems d c by (auto split: if_splits)
  with Cons.IH * show ?case by (metis accounted_refl accounted_trans)
qed simp

lemma accounted_cleaner:
  assumes "local_effects x view" "secretCleaner_Cleanup x mc ns keep s = (y, s')"
  shows "accounted view s s'"
proof -
  obtain items e1 s1 where l: "k_list_secrets x (mc_cluster mc) ns ManagedBy s = ((items, e1), s1)"
    by (metis prod.exhaust)
  obtain rs s2 where c: "cleanup_loop x mc keep items [] s1 = (rs, s2)" by force
  have "s' = s1 \<or> s' = s2"
    using assms(2) l c by (auto simp: secretCleaner_Cleanup_def split: option.splits)
  then show ?thesis
    using accounted_calls(3)[OF assms(1) l] accounted_cleanup_loop[OF assms(1) c] accounted_trans by blast
qed

subsection \<open>The handlers\<close>

lemma accounted_createObjectManager:
  assumes "local_effects x view" "createObjectManager x r obj pc cc s = Some ((obj1, res), s')"
  shows "accounted view s s'"
proof -
  obtain o2 e2 s2 where e: "ensureInstanceID x r obj s = ((o2, e2), s2)" by (metis prod.exhaust)
  obtain vy s3 where u: "k_update_velero x (vr_onboarding r) (SetID obj (GenerateID obj)) s = (vy, s3)"
    by (metis prod.exhaust)
  have "s2 = s \<or> s2 = s3"
    using e u by (auto simp: ensureInstanceID_def split: if_splits prod.splits option.splits)
  then have "accounted view s s2" using accounted_calls(4)[OF assms(1) u] by auto
  moreover have "s' = s \<or> (trace s' = trace s2 \<and> world s' = world s2)"
    using assms(2) e by (auto simp: createObjectManager_def bind_eq_Some_conv split: option.splits dest: build_manager_frame)
  ultimately show ?thesis using accounted_silent[of s' s2 view] accounted_trans accounted_refl by metis
qed

lemma set_up_accounted:
  fixes x :: "'w ext" and view :: "'w \<Rightarrow> item \<Rightarrow> 'v"
  assumes "local_effects x view" "set_up x r obj pc images cc u m s'" "fresh_manager r" "t \<in> set (targets m)"
  shows "accounted_closure view (Reconcile (snd t))"
proof -
  have "\<exists>e. stands_for s' (snd t) e \<and> (\<exists>f. moc_reconcile (snd e) = Some f \<and> accounted_closure view f)"
    using set_up_target_cases[OF assms(2-4)] accounted_entries[OF assms(1)] by (metis UnCI)
  then obtain e f where "stands_for s' (snd t) e" "moc_reconcile (snd e) = Some f" "accounted_closure view f"
    by blast
  moreover from this have "mo_reconcile (snd t) = Some f" unfolding stands_for_def by (metis managed_of_simps(2))
  then have "Reconcile (snd t) = f" by (intro ext) (simp add: Reconcile_def)
  ultimately show ?thesis by simp
qed

lemma accounted_pass:
  assumes le: "local_effects x view" "begins_own_key x" and ex: "sets_label x" "mutates_secret x"
    and su: "set_up x r obj pc images cc u m s" "fresh_manager r"
    and run: "reconcileObjects x m del s = Some (y, s')"
  shows "accounted view s s'"
proof -
  obtain rs s1 where t: "run_targets x (mgr_instance_id m) (getDependents m) del (targets m) s = Some (rs, s1)"
    and c: "run_cleaners (mgr_cleaners m) rs s1 = (y, s')"
    using run by (auto simp: reconcileObjects_targets)
  have "accounted view s s1"
    using accounted_targets[OF le t] set_up_well_behaved[OF ex su] set_up_accounted[OF le(1) su] by blast
  moreover obtain z s2 where z: "secretCleaner_Cleanup x (bp_workload u) (InstanceNamespace obj) (kept_secrets pc) s1 = (z, s2)"
    by (metis prod.exhaust)
  moreover have "s' = s2"
    using c z unfolding set_up_targets(3)[OF su] by (auto split: prod.splits option.splits)
  ultimately show ?thesis using accounted_cleaner[OF le(1)] accounted_trans by blast
qed

lemma accounted_update:
  assumes "local_effects x view" "begins_own_key x" "sets_label x" "mutates_secret x" "fresh_manager r"
    and "reconciler_CreateOrUpdate x r obj pc cc s = Some ((obj', res, e), s')"
  shows "accounted view s s'"
  using assms(6)
proof (cases rule: CreateOrUpdate_runs)
  case (not_created obj1 err)
  then show ?thesis using accounted_createObjectManager[OF assms(1)] by blast
next
  case (applied obj1 m s1 rs ae mrs bad)
  from createObjectManager_set_up[OF applied(1)] obtain images u where
    su: "set_up x r obj1 pc images cc u m s1" by metis
  have "accounted view s1 s'"
    using accounted_pass[OF assms(1-4) su assms(5)] applied(2) unfolding Apply_def by blast
  with accounted_createObjectManager[OF assms(1) applied(1)] show ?thesis by (rule accounted_trans)
qed

lemma accounted_delete:
  assumes "local_effects x view" "begins_own_key x" "sets_label x" "mutates_secret x" "fresh_manager r"
    and "reconciler_Delete x r obj pc cc s = Some ((obj', res, e), s')"
  shows "accounted view s s'"
  using assms(6)
proof (cases rule: Delete_runs)
  case (not_created obj1 err)
  then show ?thesis using accounted_createObjectManager[OF assms(1)] by blast
next
  case (deleted obj1 m s1 rs ae mrs bad)
  from createObjectManager_set_up[OF deleted(1)] obtain images u where
    su: "set_up x r obj1 pc images cc u m s1" by metis
  have "accounted view s1 s'"
    using accounted_pass[OF assms(1-4) su assms(5)] deleted(2) unfolding DeleteAll_def by blast
  with accounted_createObjectManager[OF assms(1) deleted(1)] show ?thesis by (rule accounted_trans)
qed

subsection \<open>Confinement\<close>

text \<open>
  What a resource with the id \<open>iid\<close> may change: its control plane, the onboarding cluster, and
  on the workload cluster its own namespace with everything in it.
\<close>

definition own_region :: "'w velero_reconciler \<Rightarrow> cluster_context \<Rightarrow> string \<Rightarrow> item set" where
  "own_region r cc iid = {i. fst i = ch_id (vr_onboarding r)} \<union> {i. fst i = ch_id (cc_mcp cc)}
     \<union> namespace_items (ch_id (cc_workload cc)) (''velero-'' @ iid)"

lemma reach_cluster: "i \<in> reach (c, k, key) \<Longrightarrow> fst i = c"
  by (auto simp: reach_def namespace_items_def Let_def split: prod.splits if_splits)

lemma reach_namespaced: "ns \<noteq> [] \<Longrightarrow> k \<noteq> ''Namespace'' \<Longrightarrow> reach (c, k, ns, n) = namespace_items c ns"
  by (auto simp: reach_def namespace_items_def)

lemma item_reach:
  assumes "(ct, k, key, p) \<in> managed_items x pc iid"
  shows "reach (cluster_id cc ct, k, key) \<subseteq> own_region r cc iid"
proof (cases ct)
  case ManagedControlPlane
  then have "cluster_id cc ct = ch_id (cc_mcp cc)" by (simp add: cluster_id_def)
  moreover have "reach (c, k, key) \<subseteq> {i. fst i = c}" for c
    using reach_cluster by (intro subsetI) (simp only: mem_Collect_eq)
  ultimately show ?thesis unfolding own_region_def by (simp only:) (rule le_supI1[OF le_supI2])
next
  case WorkloadCluster
  then have "(k = ''Namespace'' \<and> key = ([], ''velero-'' @ iid)) \<or> (k \<noteq> ''Namespace'' \<and> fst key = ''velero-'' @ iid)"
    using assms by (auto simp: managed_items_def inventory_def)
  then have "reach (cluster_id cc ct, k, key) = namespace_items (ch_id (cc_workload cc)) (''velero-'' @ iid)"
    using WorkloadCluster by (cases key) (auto simp: reach_def cluster_id_def namespace_items_def)
  then show ?thesis by (simp add: own_region_def)
qed

lemma deletion_confined:
  assumes "delete_allowed x r pc cc iid q" "lists_matching x"
  shows "affected q \<subseteq> own_region r cc iid"
proof (cases q)
  case (ReqDelete c k key e)
  consider ct where "(ct, k, key, Delete) \<in> managed_items x pc iid" "c = cluster_id cc ct"
    | "c = ch_id (cc_workload cc)" "k = ''Secret''" "fst key = ''velero-'' @ iid"
    using assms unfolding ReqDelete delete_allowed_def request.case by blast
  then show ?thesis
  proof cases
    case 1
    then show ?thesis using item_reach ReqDelete by (metis affected.simps(2))
  next
    case 2
    then show ?thesis using ReqDelete by (cases key) (auto simp: own_region_def reach_namespaced)
  qed
qed (use assms(1) in \<open>auto simp: delete_allowed_def own_region_def\<close>)

lemma apply_confined:
  assumes "\<forall>q \<in> set new. apply_allowed x r pc cc iid q" "own_writes new" "lists_matching x" "q \<in> set new"
  shows "affected q \<subseteq> own_region r cc iid"
proof (cases q)
  case (ReqPersist c o')
  then have "ReqFetch c (kind_of o') (object_key o') \<in> set new" using assms(2,4) by (simp add: own_writes_def)
  with assms(1) have "apply_allowed x r pc cc iid (ReqFetch c (kind_of o') (object_key o'))" by blast
  then obtain ct p where "(ct, kind_of o', object_key o', p) \<in> managed_items x pc iid" "c = cluster_id cc ct"
    unfolding apply_allowed_def request.case by blast
  then show ?thesis using item_reach ReqPersist by (metis affected.simps(1))
next
  case (ReqDelete c k key e)
  with assms(1,4) have "apply_allowed x r pc cc iid (ReqDelete c k key e)" by simp
  then have "c = ch_id (cc_workload cc)" "k = ''Secret''" "fst key = ''velero-'' @ iid"
    using assms(3) unfolding apply_allowed_def request.case by blast+
  then show ?thesis using ReqDelete by (cases key) (auto simp: own_region_def reach_namespaced)
next
  case (ReqUpdateVelero c key e)
  with assms(1,4) have "apply_allowed x r pc cc iid (ReqUpdateVelero c key e)" by simp
  then have "c = ch_id (vr_onboarding r)" unfolding apply_allowed_def request.case .
  then show ?thesis using ReqUpdateVelero by (auto simp: own_region_def)
qed auto

end
