(* ===== verification/Isolation.thy ===== *)
theory Isolation
  imports Lifecycle World_Effects
begin

text \<open>
  Many resources on shared clusters. The resources of a fleet take their \<open>lifecycle\<close> steps in
  any order on one process state: one world, one log, one store. What the steps of some
  resources leave alone is what belongs to another one: its control plane, and its namespace
  on the workload cluster, which they all may share.
\<close>

subsection \<open>The fleet\<close>

text \<open>Only the resources in \<open>K\<close> move; each has its own clusters \<open>ccs k\<close>.\<close>

inductive fleet_step :: "'w ext \<Rightarrow> 'w velero_reconciler \<Rightarrow> ('k \<Rightarrow> cluster_context) \<Rightarrow> ('w \<Rightarrow> 'w \<Rightarrow> bool) \<Rightarrow> 'k set
    \<Rightarrow> ('k \<Rightarrow> 'w system) \<times> 'w st \<Rightarrow> ('k \<Rightarrow> 'w system) \<times> 'w st \<Rightarrow> bool"
  for x r ccs others K where
  move: "k \<in> K \<Longrightarrow> lifecycle x r (ccs k) others ((F k)\<lparr>sy_state := s\<rparr>) b \<Longrightarrow>
     fleet_step x r ccs others K (F, s) (F(k := b), sy_state b)"

inductive_cases fleet_stepE: "fleet_step x r ccs others K (F, s) (F', s')"

abbreviation fleet :: "'w ext \<Rightarrow> 'w velero_reconciler \<Rightarrow> ('k \<Rightarrow> cluster_context) \<Rightarrow> ('w \<Rightarrow> 'w \<Rightarrow> bool) \<Rightarrow> 'k set
    \<Rightarrow> ('k \<Rightarrow> 'w system) \<times> 'w st \<Rightarrow> ('k \<Rightarrow> 'w system) \<times> 'w st \<Rightarrow> bool" where
  "fleet x r ccs others K \<equiv> (fleet_step x r ccs others K)\<^sup>*\<^sup>*"

text \<open>What belongs to the resource with the clusters \<open>cc\<close> and the id \<open>iid\<close>.\<close>

definition tenant_items :: "cluster_context \<Rightarrow> string \<Rightarrow> item set" where
  "tenant_items cc iid = {i. fst i = ch_id (cc_mcp cc)}
     \<union> namespace_items (ch_id (cc_workload cc)) (''velero-'' @ iid)"

text \<open>
  Another resource has another control plane, and no control plane is the onboarding cluster
  or a workload cluster; the workload clusters may be the same.
\<close>

definition apart :: "'w velero_reconciler \<Rightarrow> cluster_context \<Rightarrow> cluster_context \<Rightarrow> bool" where
  "apart r c d = (ch_id (cc_mcp d) \<notin> {ch_id (vr_onboarding r), ch_id (cc_mcp c), ch_id (cc_workload c)}
     \<and> ch_id (cc_workload d) \<notin> {ch_id (vr_onboarding r), ch_id (cc_mcp c)})"

lemma own_region_apart:
  assumes "apart r c d" "iid \<noteq> jid" "i \<in> tenant_items d jid"
  shows "i \<notin> own_region r c iid"
proof
  assume own: "i \<in> own_region r c iid"
  let ?mine = "namespace_items (ch_id (cc_workload d)) (''velero-'' @ jid)"
  let ?its = "namespace_items (ch_id (cc_workload c)) (''velero-'' @ iid)"
  have at: "j \<in> namespace_items e n \<Longrightarrow> fst j = e" for j e n
    by (auto simp: namespace_items_def)
  have i: "fst i = ch_id (cc_mcp d) \<or> i \<in> ?mine"
    using assms(3) by (simp only: tenant_items_def Un_iff mem_Collect_eq)
  have o: "fst i \<in> {ch_id (vr_onboarding r), ch_id (cc_mcp c)} \<or> i \<in> ?its"
    using own unfolding own_region_def by blast
  have "i \<notin> ?mine \<or> i \<notin> ?its"
    using namespace_items_disjoint[of "''velero-'' @ iid" "''velero-'' @ jid"] assms(2) by fastforce
  then show False
    using i o assms(1) at[of i _ "''velero-'' @ jid"] at[of i _ "''velero-'' @ iid"]
    unfolding apart_def by (metis insertCI insertE emptyE)
qed

subsection \<open>One step of one resource\<close>

text \<open>What the environment is documented to do, as one hypothesis.\<close>

definition local_environment :: "'w ext \<Rightarrow> 'w velero_reconciler \<Rightarrow> ('w \<Rightarrow> item \<Rightarrow> 'v) \<Rightarrow> bool" where
  "local_environment x r view = (fresh_manager r \<and> sets_label x \<and> mutates_secret x \<and> gets_own_key x
     \<and> keeps_identity x \<and> lists_matching x \<and> begins_own_key x \<and> local_effects x view)"

lemma accounted_confined:
  assumes "accounted view s s'" "trace s' = trace s @ new"
    "\<And>q. own_writes new \<Longrightarrow> q \<in> set new \<Longrightarrow> affected q \<subseteq> R" "i \<notin> R"
  shows "view (world s') i = view (world s) i"
proof -
  obtain log where "trace s' = trace s @ log" and log: "own_writes log"
    "(\<forall>q \<in> set log. i \<notin> affected q) \<longrightarrow> view (world s') i = view (world s) i"
    using assms(1) unfolding accounted_def by blast
  with assms(2) have "log = new" by simp
  note log = log[unfolded this]
  show ?thesis using log assms(3)[OF log(1)] assms(4) by blast
qed

lemma lifecycle_confined:
  assumes "lifecycle x r cc others a b" "local_environment x r view"
    and "i \<notin> own_region r cc (identity_of (sy_velero a))"
    and "\<And>w w'. others w w' \<Longrightarrow> view w' i = view w i"
  shows "view (world (sy_state b)) i = view (world (sy_state a)) i"
proof -
  note env = assms(2)[unfolded local_environment_def]
  from env have kid: "keeps_identity x" and lm: "lists_matching x" and fr: "fresh_manager r"
    and ex: "sets_label x" "mutates_secret x" "gets_own_key x" by blast+
  have created: "GetID (v_meta obj1) = identity_of v" if "createObjectManager x r v pc cc s = Some ((obj1, Inr m), s1)"
    for v pc s obj1 m s1 using createObjectManager_identity(2)[OF kid that refl] .
  show ?thesis using assms(1)
  proof (cases rule: lifecycle_cases)
    case (update obj' res e s' v)
    have "\<exists>new. trace s' = trace (sy_state a) @ new
        \<and> (\<forall>q \<in> set new. apply_allowed x r (sy_config a) cc (identity_of (sy_velero a)) q)"
      by (rule update_log_at[OF update(2) fr ex(1,2)]) (rule created)
    then obtain new where new: "trace s' = trace (sy_state a) @ new"
      "\<forall>q \<in> set new. apply_allowed x r (sy_config a) cc (identity_of (sy_velero a)) q" by blast
    have "accounted view (sy_state a) s'" using accounted_update[OF _ _ _ _ _ update(2)] env by blast
    then have "view (world s') i = view (world (sy_state a)) i"
      by (rule accounted_confined[OF _ new(1) _ assms(3)]) (rule apply_confined[OF new(2) _ lm])
    then show ?thesis using update(1) by simp
  next
    case (delete obj' res e s' v)
    have "\<exists>new. trace s' = trace (sy_state a) @ new
        \<and> (\<forall>q \<in> set new. delete_allowed x r (sy_config a) cc (identity_of (sy_velero a)) q)"
      by (rule deletion_log_at[OF delete(2) fr ex(3)]) (rule created)
    then obtain new where new: "trace s' = trace (sy_state a) @ new"
      "\<forall>q \<in> set new. delete_allowed x r (sy_config a) cc (identity_of (sy_velero a)) q" by blast
    have "accounted view (sy_state a) s'" using accounted_delete[OF _ _ _ _ _ delete(2)] env by blast
    then have "view (world s') i = view (world (sy_state a)) i"
      by (rule accounted_confined[OF _ new(1) _ assms(3)]) (use new(2) deletion_confined[OF _ lm] in blast)
    then show ?thesis using delete(1) by simp
  qed (use assms(4) in auto)
qed

subsection \<open>The whole fleet\<close>

lemma fleet_confined:
  assumes "fleet x r ccs others K (F, s) (F', s')" "local_environment x r view"
    and "\<And>k. k \<in> K \<Longrightarrow> i \<notin> own_region r (ccs k) (identity_of (sy_velero (F k)))"
    and "\<And>w w'. others w w' \<Longrightarrow> view w' i = view w i"
  shows "view (world s') i = view (world s) i \<and> (\<forall>k. identity_of (sy_velero (F' k)) = identity_of (sy_velero (F k)))"
  using assms(1)
proof (induction rule: rtranclp_induct2)
  case refl
  show ?case by simp
next
  case (step F1 s1 F2 s2)
  note env = assms(2)[unfolded local_environment_def]
  from step.hyps(2) obtain k b where b: "k \<in> K" "lifecycle x r (ccs k) others ((F1 k)\<lparr>sy_state := s1\<rparr>) b"
    and eq: "F2 = F1(k := b)" "s2 = sy_state b" by (auto elim: fleet_stepE)
  have id: "identity_of (sy_velero b) = identity_of (sy_velero (F1 k))"
    using lifecycle_identity[OF b(2)] env by simp
  have "i \<notin> own_region r (ccs k) (identity_of (sy_velero ((F1 k)\<lparr>sy_state := s1\<rparr>)))"
    using assms(3)[OF b(1)] step.IH by simp
  from lifecycle_confined[OF b(2) assms(2) this assms(4)]
  have "view (world s2) i = view (world s1) i" using eq(2) by simp
  with step.IH id eq(1) show ?case by simp
qed

text \<open>
  C2. Tenants are isolated. Resources share a workload cluster, and their calls interleave in
  any order with edits, restarts, deletions and what others do. On servers on which a request
  changes no more than the namespace it addresses (or, for a cluster-wide object, its
  cluster), no run of other resources changes anything on the control plane of a resource or
  in its namespace on the workload cluster, which holds its token, its pull secrets and its
  server, as long as their control planes and their ids differ from its own.
\<close>

theorem tenants_isolated:
  assumes "fleet x r ccs others K (F, s) (F', s')" "local_environment x r view"
    and "\<And>k. k \<in> K \<Longrightarrow> apart r (ccs k) cc \<and> identity_of (sy_velero (F k)) \<noteq> iid"
    and "\<And>w w' i. others w w' \<Longrightarrow> i \<in> tenant_items cc iid \<Longrightarrow> view w' i = view w i"
  shows "\<forall>i \<in> tenant_items cc iid. view (world s') i = view (world s) i"
proof
  fix i
  assume i: "i \<in> tenant_items cc iid"
  have "\<And>k. k \<in> K \<Longrightarrow> i \<notin> own_region r (ccs k) (identity_of (sy_velero (F k)))"
    using own_region_apart[OF _ _ i] assms(3) by blast
  from fleet_confined[OF assms(1,2) this assms(4)[OF _ i]] show "view (world s') i = view (world s) i" by simp
qed

text \<open>
  C34. The id is taken from a label anyone may set who may edit the resource. A resource that
  carries the id of another one, whatever its own name, namespace and control plane, is given
  the other's namespace: its deletion deletes that namespace on the workload cluster they
  share, in the first call. The hypothesis of the isolation property, different ids, is not
  enforced by the code.
\<close>

theorem label_takeover:
  assumes "deletes_cleanly x live" "fresh_manager r" "accepted x pc obj"
    and "GetID (v_meta obj) = GetID (v_meta victim)"
  shows "\<exists>obj' res e s'. reconciler_Delete x r obj pc cc s = Some ((obj', res, e), s')
    \<and> (ch_id (cc_workload cc), ''Namespace'', ([], InstanceNamespace victim)) \<notin> live (world s')"
proof -
  have "(WorkloadCluster, ''Namespace'', ([], ''velero-'' @ GetID (v_meta obj)), Delete) \<in> managed_items x pc (GetID (v_meta obj))"
    by (simp add: managed_items_def inventory_def)
  from deletableI[OF this, of cc]
  have d: "(ch_id (cc_workload cc), ''Namespace'', ([], InstanceNamespace victim)) \<in> deletable x pc cc (GetID (v_meta obj))"
    by (simp add: cluster_id_def InstanceNamespace_eq assms(4))
  have ns: "(ch_id (cc_workload cc), ''Namespace'', ([], InstanceNamespace victim)) \<noteq> account_item cc"
    by (simp add: account_item_def)
  show ?thesis
    by (rule delete_call[OF assms(1-3), of cc s]) (use d ns in blast)
qed

end
