(* ===== verification/Lifecycle_Witnesses.thy ===== *)
theory Lifecycle_Witnesses
  imports Witnesses Isolation
begin

text \<open>
  The properties of the life of a resource on the reference server: the resource
  \<open>team/backup\<close> in each stage, on clusters without objects.
\<close>

definition ref_system :: "stage \<Rightarrow> ref_world system" where
  "ref_system st = \<lparr>sy_velero = ref_velero, sy_config = ref_config, sy_stage = st, sy_state = ref_start\<rparr>"

definition nobody :: "ref_world \<Rightarrow> ref_world \<Rightarrow> bool" where
  "nobody w w' = (w' = w)"

lemma ref_system_simps [simp]:
  "sy_velero (ref_system st) = ref_velero" "sy_config (ref_system st) = ref_config" "sy_stage (ref_system st) = st"
  "sy_state (ref_system st) = ref_start"
  by (simp_all add: ref_system_def)

lemma ref_keeps_identity: "keeps_identity ref_ext"
  by (simp add: keeps_identity_def ref_ext_def ref_status_def)

text \<open>A history: an update, an edit of the label, and a deletion under the new id.\<close>

theorem lifetime_safe_witness:
  "\<exists>v res e b segs. history ref_ext ref_reconciler ref_clusters nobody
       [(UpdateCall, ref_velero, ref_config), (Relabelled, v, ref_config), (DeleteCall res e, SetID v ''xyz'', ref_config)]
       (ref_system Active) b
     \<and> identity_of v = ''abc'' \<and> trace (sy_state b) = concat segs
     \<and> list_all2 (moment_safe ref_clusters)
       [(UpdateCall, ref_velero, ref_config), (Relabelled, v, ref_config), (DeleteCall res e, SetID v ''xyz'', ref_config)] segs"
proof -
  obtain obj' res1 e1 s1 where u: "reconciler_CreateOrUpdate ref_ext ref_reconciler ref_velero ref_config ref_clusters ref_start = Some ((obj', res1, e1), s1)"
    using ref_update_run by blast
  define a where "a = (ref_system Active)\<lparr>sy_velero := obj', sy_state := s1\<rparr>"
  define a1 where "a1 = a\<lparr>sy_velero := SetID obj' ''xyz''\<rparr>"
  have "reconciler_Delete ref_ext ref_reconciler (SetID obj' ''xyz'') ref_config ref_clusters s1 \<noteq> None"
    using handlers_total[OF ref_fresh_manager ref_sets_label ref_mutates_secret, of ref_config ref_clusters "SetID obj' ''xyz''" s1]
    by (simp add: ref_Parse ref_range del: not_None_eq)
  then obtain obj2 res e s2 where d: "reconciler_Delete ref_ext ref_reconciler (SetID obj' ''xyz'') ref_config ref_clusters s1 = Some ((obj2, res, e), s2)"
    by (metis not_None_eq surj_pair)
  define b where "b = a1\<lparr>sy_velero := obj2, sy_state := s2\<rparr>"
  have s1: "served ref_ext ref_reconciler ref_clusters nobody UpdateCall (ref_system Active) a"
    unfolding a_def by (rule served.update[where obj' = obj' and res = res1 and e = e1]) (use u in simp_all)
  have s2: "served ref_ext ref_reconciler ref_clusters nobody Relabelled a a1"
    unfolding a1_def by (rule served.relabel) (simp_all add: a_def)
  have s3: "served ref_ext ref_reconciler ref_clusters nobody (DeleteCall res e) a1 b"
    unfolding b_def by (rule served.delete[where obj' = obj2]) (use d in \<open>simp_all add: a1_def a_def\<close>)
  have h: "history ref_ext ref_reconciler ref_clusters nobody
      [(UpdateCall, ref_velero, ref_config), (Relabelled, obj', ref_config), (DeleteCall res e, SetID obj' ''xyz'', ref_config)] (ref_system Active) b"
    using history.step[OF s1 history.step[OF s2 history.step[OF s3 history.rest]]] by (simp add: a_def a1_def)
  have ne: "ch_id (cc_mcp ref_clusters) \<noteq> ch_id (cc_workload ref_clusters)" by simp
  note safe = lifetime_safe[OF h ref_fresh_manager ref_sets_label ref_mutates_secret ref_gets_own_key ref_keeps_identity ne]
  from safe have "identity_of obj' = ''abc''" by (simp add: identity_of_def)
  moreover obtain segs where "trace (sy_state b) = concat segs" "list_all2 (moment_safe ref_clusters)
       [(UpdateCall, ref_velero, ref_config), (Relabelled, obj', ref_config), (DeleteCall res e, SetID obj' ''xyz'', ref_config)] segs"
    using safe by (auto simp: ref_start_def simp del: list_all2_Cons1)
  ultimately show ?thesis using h by blast
qed

theorem released_clean_witness:
  "\<exists>obj' s'. reconciler_Delete ref_ext ref_reconciler ref_velero ref_config ref_clusters ref_start = Some ((obj', no_requeue, None), s')
     \<and> token_item ref_clusters ''abc'' \<notin> ref_live (world s')"
proof -
  obtain obj' s' where r: "reconciler_Delete ref_ext ref_reconciler ref_velero ref_config ref_clusters ref_start = Some ((obj', no_requeue, None), s')"
    using ref_delete_run by blast
  obtain m s1 where c: "createObjectManager ref_ext ref_reconciler ref_velero ref_config ref_clusters ref_start
      = Some ((ref_velero, Inr m), s1)" by (rule ref_created)
  from released_clean[OF r c deletes_cleanly_truthful(1)[OF ref_deletes_cleanly] ref_gets_own_key ref_fresh_manager]
  show ?thesis using r token_deletable[of ref_clusters "''abc''" ref_ext ref_config] by auto
qed

theorem release_reachable_witness:
  "\<exists>b. lifetime ref_ext ref_reconciler ref_clusters nobody (ref_system Deleting) b \<and> sy_stage b = Released
     \<and> token_item ref_clusters ''abc'' \<notin> ref_live (world (sy_state b))"
  using release_reachable[OF _ ref_deletes_cleanly ref_fresh_manager, of "ref_system Deleting" ref_clusters nobody]
    ref_accepted token_deletable[of ref_clusters "''abc''" ref_ext ref_config] by auto

theorem release_leak_witness:
  "\<exists>b. lifetime ref_ext ref_reconciler ref_clusters nobody (ref_system Deleting) b \<and> sy_stage b = Released
     \<and> sy_state b = ref_start"
proof -
  have "x_ignore_invalid_input ref_ext (errorf_wrap ref_invalid t) = None" for t
    by (simp add: ref_ext_def errorf_wrap_def ref_invalid_def)
  then show ?thesis
    using release_leak[of "ref_system Deleting" ref_ext "\<lparr>vs_version = ''v1.5.0'', vs_plugins = []\<rparr>"] ref_old by simp
qed

subsection \<open>Two tenants\<close>

definition ref_view :: "ref_world \<Rightarrow> item \<Rightarrow> client_object option" where
  "ref_view w i = ref_lookup i w"

lemma find_filter_other: "(\<And>y. P y \<Longrightarrow> Q y) \<Longrightarrow> find P (filter Q ys) = find P ys"
  by (induction ys) auto

lemma ref_view_remove:
  assumes "i \<noteq> j"
  shows "ref_view (ref_remove j w) i = ref_view w i"
proof -
  have "find (is_item i) [e \<leftarrow> rw_objects w. \<not> is_item j e] = find (is_item i) (rw_objects w)"
    by (rule find_filter_other) (use assms in \<open>auto simp: is_item_def\<close>)
  then show ?thesis by (simp add: ref_view_def ref_lookup_def ref_remove_def)
qed

lemma find_append_other: "\<not> P y \<Longrightarrow> find P (ys @ [y]) = find P ys"
  by (induction ys) auto

lemma ref_view_put: "i \<noteq> (c, kind_of o', object_key o') \<Longrightarrow> ref_view (ref_put c o' w) i = ref_view w i"
  using ref_view_remove[of i "(c, kind_of o', object_key o')" w]
    find_append_other[of "is_item i" "(c, o')"]
  by (simp add: ref_view_def ref_put_def ref_lookup_def is_item_def)

lemma in_reach: "i \<in> reach i"
  by (cases i) (auto simp: reach_def Let_def)

lemma ref_local_effects: "local_effects ref_ext ref_view"
proof -
  have del: "ref_view w' i = ref_view w i"
    if "x_delete ref_ext c o' w = (e, w')" "i \<notin> reach (c, kind_of o', object_key o')" for c o' w e w' i
  proof -
    have "i \<noteq> (c, kind_of o', object_key o')" using that(2) in_reach by metis
    from ref_view_remove[OF this] that(1) show ?thesis by (auto simp: ref_ext_def split: option.splits)
  qed
  have fin: "ref_view w' i = ref_view w i"
    if "x_cou_finish ref_ext c o1 o2 e w = (o3, r, e3, w')" "e \<noteq> None \<or> i \<notin> reach (c, kind_of o2, object_key o2)"
    for c o1 o2 e w o3 r e3 w' i
  proof (cases "e = None")
    case True
    then have "i \<noteq> (c, kind_of (ref_settle o2), object_key (ref_settle o2))" using that(2) in_reach by (metis ref_settle_simps(1,2))
    from ref_view_put[OF this] that(1) True show ?thesis by (auto simp: ref_ext_def Let_def split: if_splits)
  next
    case False
    with that(1) show ?thesis by (auto simp: ref_ext_def)
  qed
  show ?thesis
    unfolding local_effects_def
    by (intro conjI allI impI; (rule del fin; assumption)?)
      (auto simp: ref_ext_def split: option.splits if_splits)
qed

lemma ref_environment: "local_environment ref_ext ref_reconciler ref_view"
proof -
  have "begins_own_key ref_ext"
    by (auto simp: begins_own_key_def ref_ext_def fill_def split: option.splits dest: ref_lookup_Some)
  then show ?thesis
    by (simp add: local_environment_def ref_fresh_manager ref_sets_label ref_mutates_secret ref_gets_own_key
        ref_keeps_identity ref_lists_matching ref_local_effects)
qed

text \<open>The other tenant \<open>xyz\<close> has its own control plane and a secret on the shared workload cluster.\<close>

definition other_clusters :: cluster_context where
  "other_clusters = \<lparr>cc_mcp = \<lparr>ch_id = ''mcp2'', ch_rest = None\<rparr>, cc_workload = ref_workload\<rparr>"

definition other_secret :: client_object where
  "other_secret = new_object ''pull'' ''velero-xyz'' (Secret None [])"

definition shared_start :: "ref_world st" where
  "shared_start = ref_start\<lparr>world := \<lparr>rw_objects = [(''workload'', other_secret)], rw_clock = 0\<rparr>\<rparr>"

theorem tenants_isolated_witness:
  "\<exists>F' s' out. reconciler_CreateOrUpdate ref_ext ref_reconciler ref_velero ref_config ref_clusters shared_start = Some (out, s')
     \<and> fleet ref_ext ref_reconciler (\<lambda>_. ref_clusters) nobody {0 :: nat} (\<lambda>_. ref_system Active, shared_start) (F', s')
     \<and> ref_lookup (''workload'', ''Secret'', (''velero-xyz'', ''pull'')) (world s') = Some other_secret"
proof -
  let ?F = "\<lambda>_ :: nat. ref_system Active"
  obtain obj' res e s' where r: "reconciler_CreateOrUpdate ref_ext ref_reconciler ref_velero ref_config ref_clusters shared_start = Some ((obj', res, e), s')"
    using ref_handlers_total by blast
  define b where "b = ((?F 0)\<lparr>sy_state := shared_start\<rparr>)\<lparr>sy_velero := obj', sy_state := s'\<rparr>"
  have life: "lifecycle ref_ext ref_reconciler ref_clusters nobody ((?F 0)\<lparr>sy_state := shared_start\<rparr>) b"
    unfolding b_def by (rule lifecycle_update[where obj' = obj' and res = res and e = e]) (use r in simp_all)
  have "fleet_step ref_ext ref_reconciler (\<lambda>_. ref_clusters) nobody {0} (?F, shared_start) (?F(0 := b), sy_state b)"
    by (rule fleet_step.move) (use life in simp_all)
  moreover have "sy_state b = s'" by (simp add: b_def)
  ultimately have run: "fleet ref_ext ref_reconciler (\<lambda>_. ref_clusters) nobody {0} (?F, shared_start) (?F(0 := b), s')"
    by simp
  have i: "(''workload'', ''Secret'', (''velero-xyz'', ''pull'')) \<in> tenant_items other_clusters ''xyz''"
    by (simp add: tenant_items_def namespace_items_def other_clusters_def ref_workload_def)
  have "apart ref_reconciler ref_clusters other_clusters \<and> identity_of (sy_velero (?F k)) \<noteq> ''xyz''" for k
    by (simp add: apart_def ref_reconciler_def other_clusters_def ref_workload_def identity_of_def)
  then have "ref_view (world s') (''workload'', ''Secret'', (''velero-xyz'', ''pull''))
      = ref_view (world shared_start) (''workload'', ''Secret'', (''velero-xyz'', ''pull''))"
    using tenants_isolated[OF run ref_environment _ _, of other_clusters "''xyz''"] i by (simp add: nobody_def)
  then have "ref_lookup (''workload'', ''Secret'', (''velero-xyz'', ''pull'')) (world s') = Some other_secret"
    by (simp add: ref_view_def ref_lookup_def shared_start_def is_item_def other_secret_def)
  with run r show ?thesis by blast
qed

text \<open>The resource \<open>evil/copy\<close> with the label of \<open>team/backup\<close>, whose namespace exists.\<close>

definition victim_namespace :: client_object where
  "victim_namespace = new_object ''velero-abc'' [] Namespace"

definition victim_start :: "ref_world st" where
  "victim_start = ref_start\<lparr>world := \<lparr>rw_objects = [(''workload'', victim_namespace)], rw_clock = 0\<rparr>\<rparr>"

theorem label_takeover_witness:
  "(''workload'', ''Namespace'', ([], InstanceNamespace ref_velero)) \<in> ref_live (world victim_start)
   \<and> (\<exists>obj' res e s'. reconciler_Delete ref_ext ref_reconciler (SetID (sample_velero ''evil'' ''copy'') ''abc'') ref_config ref_clusters victim_start
          = Some ((obj', res, e), s')
        \<and> (''workload'', ''Namespace'', ([], InstanceNamespace ref_velero)) \<notin> ref_live (world s'))"
proof -
  have "accepted ref_ext ref_config (SetID (sample_velero ''evil'' ''copy'') ''abc'')"
    using ref_accepted by (simp add: accepted_def ref_velero_def sample_velero_def)
  from label_takeover[OF ref_deletes_cleanly ref_fresh_manager this, of ref_velero ref_clusters victim_start]
  show ?thesis
    by (simp add: ref_velero_def ref_live_def victim_start_def victim_namespace_def InstanceNamespace_eq)
qed

end
