(* ===== verification/Go_Heap.thy ===== *)
theory Go_Heap
  imports Prelude
begin

text \<open>
  Go's memory, as far as copying a value can observe it: values with references, a heap of
  arrays, the types of values, and for a type the value tree below a reference and the cells
  it occupies. A pointer refers to a cell array of length one; a slice is an array, an
  offset and a length, so two slices may share an array. Dereferencing nil, an index out of
  range and a missing field are \<open>None\<close>, the panic of the model.
\<close>

subsection \<open>Values, types and heaps\<close>

text \<open>A struct is the chain of its fields, closed by \<open>GEnd\<close> in the value and \<open>TEnd\<close> in its type.\<close>

datatype gval =
    GStr string
  | GInt int
  | GPtr "nat option"
  | GSlice "(nat \<times> nat \<times> nat) option"     \<comment> \<open>array, offset, length\<close>
  | GField string gval gval
  | GEnd

datatype gty =
    TStr
  | TInt
  | TPtr gty
  | TSlice gty
  | TField string gty gty
  | TEnd

definition struct :: "(string \<times> gty) list \<Rightarrow> gty" where
  "struct fs = foldr (\<lambda>(n, T) R. TField n T R) fs TEnd"

record go_heap =
  hp_cells :: "nat \<Rightarrow> gval list"
  hp_next :: nat

text \<open>The zero value of a type: what \<open>new\<close> and \<open>make\<close> put into fresh cells.\<close>

fun zero_value :: "gty \<Rightarrow> gval" where
  "zero_value TStr = GStr ''''"
| "zero_value TInt = GInt 0"
| "zero_value (TPtr _) = GPtr None"
| "zero_value (TSlice _) = GSlice None"
| "zero_value (TField n T R) = GField n (zero_value T) (zero_value R)"
| "zero_value TEnd = GEnd"

definition go_make :: "gty \<Rightarrow> nat \<Rightarrow> go_heap \<Rightarrow> go_heap \<times> nat" where
  "go_make T n h = (h\<lparr>hp_cells := (hp_cells h)(hp_next h := replicate n (zero_value T)),
                      hp_next := Suc (hp_next h)\<rparr>, hp_next h)"

definition go_load :: "go_heap \<Rightarrow> nat \<Rightarrow> nat \<Rightarrow> gval option" where
  "go_load h a i = (if i < length (hp_cells h a) then Some (hp_cells h a ! i) else None)"

definition go_store :: "nat \<Rightarrow> nat \<Rightarrow> gval \<Rightarrow> go_heap \<Rightarrow> go_heap option" where
  "go_store a i v h = (if i < length (hp_cells h a)
     then Some (h\<lparr>hp_cells := (hp_cells h)(a := (hp_cells h a)[i := v])\<rparr>) else None)"

fun get_field :: "string \<Rightarrow> gval \<Rightarrow> gval option" where
  "get_field n (GField m x xs) = (if m = n then Some x else get_field n xs)"
| "get_field n _ = None"

fun set_field :: "string \<Rightarrow> gval \<Rightarrow> gval \<Rightarrow> gval option" where
  "set_field n y (GField m x xs) =
     (if m = n then Some (GField m y xs) else map_option (GField m x) (set_field n y xs))"
| "set_field n y _ = None"

subsection \<open>Typing, value trees and footprints\<close>

definition slice_elems :: "go_heap \<Rightarrow> nat \<times> nat \<times> nat \<Rightarrow> gval list" where
  "slice_elems h s = (case s of (a, k, n) \<Rightarrow> take n (drop k (hp_cells h a)))"

fun typed :: "go_heap \<Rightarrow> gty \<Rightarrow> gval \<Rightarrow> bool" where
  "typed h TStr (GStr _) = True"
| "typed h TInt (GInt _) = True"
| "typed h (TPtr T) (GPtr None) = True"
| "typed h (TPtr T) (GPtr (Some a)) =
     (a < hp_next h \<and> length (hp_cells h a) = 1 \<and> typed h T (hp_cells h a ! 0))"
| "typed h (TSlice T) (GSlice None) = True"
| "typed h (TSlice T) (GSlice (Some (a, k, n))) =
     (a < hp_next h \<and> k + n \<le> length (hp_cells h a)
      \<and> (\<forall>x \<in> set (slice_elems h (a, k, n)). typed h T x))"
| "typed h (TField n T R) (GField m x xs) = (m = n \<and> typed h T x \<and> typed h R xs)"
| "typed h TEnd GEnd = True"
| "typed h _ _ = False"

text \<open>What a value denotes once every reference is followed; nil stays apart from empty.\<close>

datatype value_tree =
    LStr string
  | LInt int
  | LNil
  | LRef value_tree
  | LList "value_tree list"
  | LField string value_tree value_tree
  | LEnd

fun tree :: "go_heap \<Rightarrow> gty \<Rightarrow> gval \<Rightarrow> value_tree" where
  "tree h TStr (GStr s) = LStr s"
| "tree h TInt (GInt i) = LInt i"
| "tree h (TPtr T) (GPtr (Some a)) = LRef (tree h T (hp_cells h a ! 0))"
| "tree h (TSlice T) (GSlice (Some s)) = LList (map (tree h T) (slice_elems h s))"
| "tree h (TField n T R) (GField m x xs) = LField m (tree h T x) (tree h R xs)"
| "tree h TEnd GEnd = LEnd"
| "tree h _ _ = LNil"

fun footprint :: "go_heap \<Rightarrow> gty \<Rightarrow> gval \<Rightarrow> nat set" where
  "footprint h (TPtr T) (GPtr (Some a)) = insert a (footprint h T (hp_cells h a ! 0))"
| "footprint h (TSlice T) (GSlice (Some s)) =
     insert (fst s) (\<Union>x \<in> set (slice_elems h s). footprint h T x)"
| "footprint h (TField n T R) (GField m x xs) = footprint h T x \<union> footprint h R xs"
| "footprint h _ _ = {}"

text \<open>A type without references: an assignment copies all of it.\<close>

fun flat :: "gty \<Rightarrow> bool" where
  "flat (TPtr _) = False"
| "flat (TSlice _) = False"
| "flat (TField n T R) = (flat T \<and> flat R)"
| "flat _ = True"

subsection \<open>Frames\<close>

text \<open>Two heaps that agree on the footprint of a value give it the same type and tree.\<close>

definition agree :: "nat set \<Rightarrow> go_heap \<Rightarrow> go_heap \<Rightarrow> bool" where
  "agree A h h' = (hp_next h \<le> hp_next h' \<and> (\<forall>a \<in> A. hp_cells h' a = hp_cells h a))"

definition extends :: "go_heap \<Rightarrow> go_heap \<Rightarrow> bool" where
  "extends h h' = agree {a. a < hp_next h} h h'"

lemma agree_union [simp]: "agree (A \<union> B) h h' \<longleftrightarrow> agree A h h' \<and> agree B h h'"
  by (auto simp: agree_def)

lemma agree_mono: "agree A h h' \<Longrightarrow> B \<subseteq> A \<Longrightarrow> agree B h h'"
  by (auto simp: agree_def)

lemma extends_refl [simp]: "extends h h"
  by (simp add: extends_def agree_def)

lemma extends_trans: "extends h h1 \<Longrightarrow> extends h1 h2 \<Longrightarrow> extends h h2"
  by (auto simp: extends_def agree_def)

lemma extends_next: "extends h h' \<Longrightarrow> hp_next h \<le> hp_next h'"
  by (simp add: extends_def agree_def)

lemma footprint_bound: "typed h T v \<Longrightarrow> a \<in> footprint h T v \<Longrightarrow> a < hp_next h"
  by (induction h T v rule: typed.induct) auto

lemma flat_footprint: "flat T \<Longrightarrow> footprint h T v = {}"
  by (induction h T v rule: footprint.induct) auto

lemma slice_elems_agree:
  "agree A h h' \<Longrightarrow> fst s \<in> A \<Longrightarrow> slice_elems h' s = slice_elems h s"
  by (auto simp: agree_def slice_elems_def split: prod.splits)

lemma agree_insertD: "agree (insert a A) h h' \<Longrightarrow> hp_cells h' a = hp_cells h a \<and> agree A h h'"
  by (auto simp: agree_def)

lemma frame:
  assumes "typed h T v" "agree (footprint h T v) h h'"
  shows "typed h' T v \<and> tree h' T v = tree h T v \<and> footprint h' T v = footprint h T v"
  using assms
proof (induction h T v rule: typed.induct)
  case (4 h T a)
  then have eq: "hp_cells h' a = hp_cells h a" and ag: "agree (footprint h T (hp_cells h a ! 0)) h h'"
    by (auto dest: agree_insertD)
  have "hp_next h \<le> hp_next h'"
    using 4(3) by (simp add: agree_def)
  then show ?case
    using 4 eq ag by simp
next
  case (6 h T a k n)
  let ?xs = "slice_elems h (a, k, n)"
  have eq: "hp_cells h' a = hp_cells h a" and le: "hp_next h \<le> hp_next h'"
    using 6(3) by (auto simp: agree_def)
  then have xs: "slice_elems h' (a, k, n) = ?xs"
    by (simp add: slice_elems_def)
  have each: "typed h' T x \<and> tree h' T x = tree h T x \<and> footprint h' T x = footprint h T x"
    if "x \<in> set ?xs" for x
    using that 6 by (intro 6(1)) (auto intro: agree_mono)
  then show ?case
    using 6(2) eq le xs by auto
qed auto

lemma frame_extends:
  assumes "typed h T v" "extends h h'"
  shows "typed h' T v" "tree h' T v = tree h T v" "footprint h' T v = footprint h T v"
  using frame[OF assms(1), of h'] assms footprint_bound[OF assms(1)]
  by (auto simp: extends_def intro: agree_mono)

end
