(* ===== verification/Go_Copy.thy ===== *)
theory Go_Copy
  imports Go_Heap
begin

text \<open>
  The statements generated copy functions are made of, on the memory of \<open>Go_Heap\<close>, and what
  makes a copier correct: on every well-typed value it does not panic, it leaves the memory
  it found unchanged, its result has the type and the tree of its argument, and no cell of
  the result existed before. A copier takes the value behind \<open>in\<close> and returns the value it
  leaves behind \<open>out\<close>.
\<close>

named_theorems copy_rules \<open>what copies a type\<close>

type_synonym copier = "go_heap \<Rightarrow> gval \<Rightarrow> (go_heap \<times> gval) option"

subsection \<open>Statements\<close>

text \<open>\<open>out.F = in.F\<close>\<close>

definition assign :: copier where
  "assign h v = Some (h, v)"

text \<open>\<open>if in.F != nil { *out = new(T); **out = **in }\<close>\<close>

fun copy_pointer :: "gty \<Rightarrow> copier" where
  "copy_pointer T h (GPtr None) = Some (h, GPtr None)"
| "copy_pointer T h (GPtr (Some a)) =
     (let (h1, b) = go_make T 1 h
      in do { x \<leftarrow> go_load h1 a 0; h2 \<leftarrow> go_store b 0 x h1; Some (h2, GPtr (Some b)) })"
| "copy_pointer T h _ = None"

text \<open>\<open>copy(dst, src)\<close> on a whole array: as many elements as both have.\<close>

definition go_copy :: "nat \<Rightarrow> nat \<times> nat \<times> nat \<Rightarrow> go_heap \<Rightarrow> go_heap" where
  "go_copy b s h = (let src = take (length (hp_cells h b)) (slice_elems h s)
     in h\<lparr>hp_cells := (hp_cells h)(b := src @ drop (length src) (hp_cells h b))\<rparr>)"

text \<open>\<open>if in.F != nil { *out = make([]T, len(*in)); copy(*out, *in) }\<close>\<close>

fun copy_slice :: "gty \<Rightarrow> copier" where
  "copy_slice T h (GSlice None) = Some (h, GSlice None)"
| "copy_slice T h (GSlice (Some (a, k, n))) =
     (let (h1, b) = go_make T n h in Some (go_copy b (a, k, n) h1, GSlice (Some (b, 0, n))))"
| "copy_slice T h _ = None"

text \<open>\<open>for i := range *in { (*in)[i].DeepCopyInto(&(*out)[i]) }\<close>, with \<open>m\<close> elements to go.\<close>

primrec copy_elems :: "copier \<Rightarrow> nat \<Rightarrow> nat \<Rightarrow> nat \<Rightarrow> nat \<Rightarrow> nat \<Rightarrow> go_heap \<Rightarrow> go_heap option" where
  "copy_elems f a k b 0 i h = Some h"
| "copy_elems f a k b (Suc m) i h =
     do { x \<leftarrow> go_load h a (k + i); (h1, y) \<leftarrow> f h x; h2 \<leftarrow> go_store b i y h1;
          copy_elems f a k b m (Suc i) h2 }"

text \<open>\<open>if in.F != nil { *out = make([]T, len(*in)); for i := range *in { ... } }\<close>\<close>

fun copy_each :: "gty \<Rightarrow> copier \<Rightarrow> copier" where
  "copy_each T f h (GSlice None) = Some (h, GSlice None)"
| "copy_each T f h (GSlice (Some (a, k, n))) =
     (let (h1, b) = go_make T n h
      in do { h2 \<leftarrow> copy_elems f a k b n 0 h1; Some (h2, GSlice (Some (b, 0, n))) })"
| "copy_each T f h _ = None"

text \<open>One statement on the field \<open>n\<close> of \<open>in\<close> and \<open>out\<close>.\<close>

definition at_field :: "string \<Rightarrow> copier \<Rightarrow> gval \<Rightarrow> go_heap \<times> gval \<Rightarrow> (go_heap \<times> gval) option" where
  "at_field n f v s = do { x \<leftarrow> get_field n v; (h', y) \<leftarrow> f (fst s) x;
                           out \<leftarrow> set_field n y (snd s); Some (h', out) }"

text \<open>\<open>DeepCopy\<close> of a pointer: nil for nil, else \<open>new(T)\<close> filled by \<open>DeepCopyInto\<close>.\<close>

fun new_copy :: "gty \<Rightarrow> copier \<Rightarrow> copier" where
  "new_copy T f h (GPtr None) = Some (h, GPtr None)"
| "new_copy T f h (GPtr (Some a)) =
     (let (h1, b) = go_make T 1 h
      in do { x \<leftarrow> go_load h1 a 0; (h2, y) \<leftarrow> f h1 x; h3 \<leftarrow> go_store b 0 y h2;
              Some (h3, GPtr (Some b)) })"
| "new_copy T f h _ = None"

text \<open>A value of an interface type: the nil interface, or a dynamic type and its value.\<close>

datatype go_iface = NilIface | Iface string gval

definition as_object :: "string \<Rightarrow> copier \<Rightarrow> go_heap \<Rightarrow> gval \<Rightarrow> (go_heap \<times> go_iface) option" where
  "as_object name f h p =
     do { (h', c) \<leftarrow> f h p; Some (h', if c \<noteq> GPtr None then Iface name c else NilIface) }"

subsection \<open>Correct copiers\<close>

definition deep_copy_of :: "go_heap \<Rightarrow> gty \<Rightarrow> gval \<Rightarrow> go_heap \<Rightarrow> gval \<Rightarrow> bool" where
  "deep_copy_of h T v h' v' =
     (extends h h' \<and> typed h' T v' \<and> tree h' T v' = tree h T v
      \<and> (\<forall>a \<in> footprint h' T v'. hp_next h \<le> a))"

definition copies :: "gty \<Rightarrow> copier \<Rightarrow> bool" where
  "copies T f = (\<forall>h v. typed h T v \<longrightarrow> (\<exists>h' v'. f h v = Some (h', v') \<and> deep_copy_of h T v h' v'))"

lemma copiesI:
  "(\<And>h v. typed h T v \<Longrightarrow> \<exists>h' v'. f h v = Some (h', v') \<and> deep_copy_of h T v h' v') \<Longrightarrow> copies T f"
  by (simp add: copies_def)

lemma copiesE:
  assumes "copies T f" "typed h T v"
  obtains h' v' where "f h v = Some (h', v')" "deep_copy_of h T v h' v'"
  using assms unfolding copies_def by blast

lemma deep_copy_ofD:
  assumes "deep_copy_of h T v h' v'"
  shows "extends h h'" "typed h' T v'" "tree h' T v' = tree h T v"
    "a \<in> footprint h' T v' \<Longrightarrow> hp_next h \<le> a"
  using assms by (auto simp: deep_copy_of_def)

lemma go_make_extends: "extends h (fst (go_make T n h))"
  by (simp add: go_make_def extends_def agree_def)

lemma typed_flat: "flat T \<Longrightarrow> typed h T v \<Longrightarrow> typed h' T v \<and> tree h' T v = tree h T v"
  by (induction h T v rule: typed.induct) auto

lemma copies_assign [copy_rules]: "flat T \<Longrightarrow> copies T assign"
  by (rule copiesI) (simp add: assign_def deep_copy_of_def flat_footprint)

lemma copies_pointer [copy_rules]:
  assumes "flat T"
  shows "copies (TPtr T) (copy_pointer T)"
proof (rule copiesI)
  fix h v
  assume ty: "typed h (TPtr T) v"
  then obtain p where v: "v = GPtr p"
    by (cases v) auto
  show "\<exists>h' v'. copy_pointer T h v = Some (h', v') \<and> deep_copy_of h (TPtr T) v h' v'"
  proof (cases p)
    case (Some a)
    let ?x = "hp_cells h a ! 0"
    have a: "a < hp_next h" "length (hp_cells h a) = 1" "typed h T ?x"
      using ty v Some by auto
    show ?thesis
      using a v Some assms
      by (auto simp: go_make_def go_load_def go_store_def deep_copy_of_def extends_def agree_def
          flat_footprint dest: typed_flat)
  qed (simp add: v deep_copy_of_def)
qed

lemma slice_elems_fresh:
  "length (hp_cells h b) = n \<Longrightarrow> slice_elems h (b, 0, n) = hp_cells h b"
  by (simp add: slice_elems_def)

lemma copies_slice [copy_rules]:
  assumes "flat T"
  shows "copies (TSlice T) (copy_slice T)"
proof (rule copiesI)
  fix h v
  assume ty: "typed h (TSlice T) v"
  then obtain p where v: "v = GSlice p"
    by (cases v) auto
  show "\<exists>h' v'. copy_slice T h v = Some (h', v') \<and> deep_copy_of h (TSlice T) v h' v'"
  proof (cases p)
    case (Some s)
    obtain a k n where s: "s = (a, k, n)"
      by (cases s)
    let ?xs = "slice_elems h (a, k, n)" and ?h1 = "fst (go_make T n h)" and ?b = "hp_next h"
    let ?h2 = "go_copy ?b (a, k, n) ?h1"
    have a: "a < ?b" "k + n \<le> length (hp_cells h a)" and xs: "\<forall>x \<in> set ?xs. typed h T x"
      using ty v Some s by auto
    have n: "length ?xs = n"
      using a by (simp add: slice_elems_def)
    have "slice_elems ?h1 (a, k, n) = ?xs"
      using a by (simp add: slice_elems_def go_make_def)
    then have b: "hp_cells ?h2 ?b = ?xs" and o: "\<And>c. c \<noteq> ?b \<Longrightarrow> hp_cells ?h2 c = hp_cells h c"
      and nx: "hp_next ?h2 = Suc ?b"
      using n by (auto simp: go_copy_def go_make_def Let_def)
    have "slice_elems ?h2 (?b, 0, n) = ?xs"
      using b n by (simp add: slice_elems_fresh)
    then have "deep_copy_of h (TSlice T) v ?h2 (GSlice (Some (?b, 0, n)))"
      using v Some s xs n b o nx typed_flat[OF assms] assms
      by (auto simp: deep_copy_of_def extends_def agree_def flat_footprint)
    then show ?thesis
      using v Some s by (auto simp: go_make_def)
  qed (simp add: v deep_copy_of_def)
qed

text \<open>
  One element done: the cell of the copy is as good as the element it was copied from, and
  neither refers to old memory nor to the array being filled.
\<close>

definition elem_done :: "go_heap \<Rightarrow> go_heap \<Rightarrow> nat \<Rightarrow> gty \<Rightarrow> gval \<Rightarrow> gval \<Rightarrow> bool" where
  "elem_done h0 h b T x y =
     (typed h T y \<and> tree h T y = tree h0 T x \<and> (\<forall>c \<in> footprint h T y. hp_next h0 \<le> c \<and> c \<noteq> b))"

lemma elem_done_frame:
  assumes "elem_done h0 h b T x y" "hp_next h \<le> hp_next h'"
    "\<And>c. c < hp_next h \<Longrightarrow> c \<noteq> b \<Longrightarrow> hp_cells h' c = hp_cells h c"
  shows "elem_done h0 h' b T x y"
proof -
  have ty: "typed h T y" and nb: "b \<notin> footprint h T y"
    using assms(1) by (auto simp: elem_done_def)
  have "agree (footprint h T y) h h'"
    using assms(2,3) footprint_bound[OF ty] nb by (auto simp: agree_def)
  then show ?thesis
    using frame[OF ty, of h'] assms(1) by (simp add: elem_done_def)
qed

lemma copy_elems_spec:
  assumes f: "copies T f" and a: "a < hp_next h0" "k + n \<le> length (hp_cells h0 a)"
    and xs: "\<And>j. j < n \<Longrightarrow> typed h0 T (hp_cells h0 a ! (k + j))"
    and b: "hp_next h0 \<le> b"
  shows "i + m = n \<Longrightarrow> extends h0 h \<Longrightarrow> b < hp_next h \<Longrightarrow> length (hp_cells h b) = n \<Longrightarrow>
    (\<And>j. j < i \<Longrightarrow> elem_done h0 h b T (hp_cells h0 a ! (k + j)) (hp_cells h b ! j)) \<Longrightarrow>
    \<exists>h'. copy_elems f a k b m i h = Some h' \<and> extends h0 h' \<and> hp_next h \<le> hp_next h'
      \<and> length (hp_cells h' b) = n
      \<and> (\<forall>j < n. elem_done h0 h' b T (hp_cells h0 a ! (k + j)) (hp_cells h' b ! j))"
proof (induction m arbitrary: i h)
  case (Suc m)
  let ?x = "hp_cells h0 a ! (k + i)"
  have i: "i < n"
    using Suc.prems(1) by simp
  have ca: "hp_cells h a = hp_cells h0 a"
    using Suc.prems(2) a(1) by (auto simp: extends_def agree_def)
  have x: "typed h T ?x" "tree h T ?x = tree h0 T ?x"
    using frame_extends[OF xs[OF i] Suc.prems(2)] by auto
  obtain h1 y where run: "f h ?x = Some (h1, y)" and dc: "deep_copy_of h T ?x h1 y"
    using copiesE[OF f x(1)] .
  note d = deep_copy_ofD[OF dc]
  have cb: "hp_cells h1 b = hp_cells h b"
    using d(1) Suc.prems(3) by (auto simp: extends_def agree_def)
  let ?h2 = "h1\<lparr>hp_cells := (hp_cells h1)(b := (hp_cells h1 b)[i := y])\<rparr>"
  have st: "go_store b i y h1 = Some ?h2"
    using cb Suc.prems(4) i by (simp add: go_store_def)
  have ex: "extends h0 ?h2"
    using extends_trans[OF Suc.prems(2) d(1)] b by (auto simp: extends_def agree_def)
  have le: "hp_next h \<le> hp_next ?h2"
    using extends_next[OF d(1)] by simp
  have same: "\<And>c. c < hp_next h \<Longrightarrow> c \<noteq> b \<Longrightarrow> hp_cells ?h2 c = hp_cells h c"
    using d(1) by (auto simp: extends_def agree_def)
  have "elem_done h0 h1 b T ?x y"
    using d(2,3) d(4) x(2) Suc.prems(3) extends_next[OF Suc.prems(2)]
    by (force simp: elem_done_def)
  then have new: "elem_done h0 ?h2 b T ?x y"
    by (rule elem_done_frame) auto
  have all: "elem_done h0 ?h2 b T (hp_cells h0 a ! (k + j)) (hp_cells ?h2 b ! j)" if "j < Suc i" for j
  proof (cases "j = i")
    case True
    then show ?thesis
      using new cb Suc.prems(4) i by simp
  next
    case False
    then have "j < i"
      using that by simp
    then show ?thesis
      using elem_done_frame[OF Suc.prems(5) le same] cb False by simp
  qed
  have "\<exists>h'. copy_elems f a k b m (Suc i) ?h2 = Some h' \<and> extends h0 h' \<and> hp_next ?h2 \<le> hp_next h'
      \<and> length (hp_cells h' b) = n
      \<and> (\<forall>j < n. elem_done h0 h' b T (hp_cells h0 a ! (k + j)) (hp_cells h' b ! j))"
    using Suc.IH[of "Suc i" ?h2, OF _ ex _ _ all] Suc.prems(1,3,4) le cb by simp
  moreover have "go_load h a (k + i) = Some ?x"
    using i a(2) ca by (simp add: go_load_def)
  ultimately show ?case
    using run st le by (auto intro: le_trans)
qed auto

lemma copies_each [copy_rules]:
  assumes "copies T f"
  shows "copies (TSlice T) (copy_each T f)"
proof (rule copiesI)
  fix h v
  assume ty: "typed h (TSlice T) v"
  then obtain p where v: "v = GSlice p"
    by (cases v) auto
  show "\<exists>h' v'. copy_each T f h v = Some (h', v') \<and> deep_copy_of h (TSlice T) v h' v'"
  proof (cases p)
    case (Some s)
    obtain a k n where s: "s = (a, k, n)"
      by (cases s)
    let ?b = "hp_next h" and ?h1 = "fst (go_make T n h)" and ?src = "slice_elems h (a, k, n)"
    have a: "a < ?b" "k + n \<le> length (hp_cells h a)" and el0: "\<forall>x \<in> set ?src. typed h T x"
      using ty v Some s by auto
    have src: "length ?src = n" "\<And>j. j < n \<Longrightarrow> ?src ! j = hp_cells h a ! (k + j)"
      using a by (auto simp: slice_elems_def)
    have xs: "\<And>j. j < n \<Longrightarrow> typed h T (hp_cells h a ! (k + j))"
      using el0 src by (metis nth_mem)
    have b: "?b < hp_next ?h1" "length (hp_cells ?h1 ?b) = n"
      by (simp_all add: go_make_def)
    obtain h' where run: "copy_elems f a k ?b n 0 ?h1 = Some h'" and ex: "extends h h'"
      and nx: "hp_next ?h1 \<le> hp_next h'" and len: "length (hp_cells h' ?b) = n"
      and el: "\<And>j. j < n \<Longrightarrow> elem_done h h' ?b T (hp_cells h a ! (k + j)) (hp_cells h' ?b ! j)"
      using copy_elems_spec[OF assms a xs order_refl _ go_make_extends b, of 0 n] by auto
    have tr: "map (tree h' T) (hp_cells h' ?b) = map (tree h T) ?src"
      using el len src by (intro nth_equalityI) (auto simp: elem_done_def)
    have "typed h' T y \<and> (\<forall>c \<in> footprint h' T y. ?b \<le> c)" if "y \<in> set (hp_cells h' ?b)" for y
      using that el len by (auto simp: in_set_conv_nth elem_done_def)
    then have "deep_copy_of h (TSlice T) v h' (GSlice (Some (?b, 0, n)))"
      using v Some s ex nx b(1) len tr by (auto simp: deep_copy_of_def slice_elems_fresh)
    then show ?thesis
      using v Some s run by (auto simp: go_make_def)
  qed (simp add: v deep_copy_of_def)
qed

lemma copies_new [copy_rules]:
  assumes f: "copies T f"
  shows "copies (TPtr T) (new_copy T f)"
proof (rule copiesI)
  fix h v
  assume ty: "typed h (TPtr T) v"
  then obtain p where v: "v = GPtr p"
    by (cases v) auto
  show "\<exists>h' v'. new_copy T f h v = Some (h', v') \<and> deep_copy_of h (TPtr T) v h' v'"
  proof (cases p)
    case (Some a)
    let ?b = "hp_next h" and ?h1 = "fst (go_make T 1 h)" and ?x = "hp_cells h a ! 0"
    have a: "a < ?b" "length (hp_cells h a) = 1" "typed h T ?x"
      using ty v Some by auto
    note x = frame_extends[OF a(3) go_make_extends, of T 1]
    have ca: "hp_cells ?h1 a = hp_cells h a" and cb: "length (hp_cells ?h1 ?b) = 1"
      and nx: "hp_next ?h1 = Suc ?b"
      using a by (auto simp: go_make_def)
    obtain h2 y where run: "f ?h1 ?x = Some (h2, y)" and dc: "deep_copy_of ?h1 T ?x h2 y"
      using copiesE[OF f x(1)] .
    note d = deep_copy_ofD[OF dc]
    have fp: "\<And>c. c \<in> footprint h2 T y \<Longrightarrow> ?b \<le> c \<and> c \<noteq> ?b"
      using d(4) nx by force
    then have y: "elem_done h h2 ?b T ?x y"
      using d(2,3) x(2) by (simp add: elem_done_def)
    have lb: "length (hp_cells h2 ?b) = 1"
      using d(1) cb nx by (simp add: extends_def agree_def)
    let ?h3 = "h2\<lparr>hp_cells := (hp_cells h2)(?b := (hp_cells h2 ?b)[0 := y])\<rparr>"
    have "elem_done h ?h3 ?b T ?x y"
      by (rule elem_done_frame[OF y]) auto
    moreover have "extends h ?h3"
      using extends_trans[OF go_make_extends d(1)] by (auto simp: extends_def agree_def)
    ultimately have "deep_copy_of h (TPtr T) v ?h3 (GPtr (Some ?b))"
      using v Some lb extends_next[OF d(1)] nx by (auto simp: deep_copy_of_def elem_done_def)
    then show ?thesis
      using v Some run a(2) ca lb by (auto simp: go_make_def go_load_def go_store_def)
  qed (simp add: v deep_copy_of_def)
qed

subsection \<open>Structs\<close>

text \<open>
  While \<open>DeepCopyInto\<close> runs, a field of \<open>out\<close> is either the field of \<open>in\<close> (after
  \<open>*out = *in\<close>) or, for the fields in \<open>S\<close>, already a copy of it.
\<close>

definition fresh_copy :: "go_heap \<Rightarrow> go_heap \<Rightarrow> gty \<Rightarrow> gval \<Rightarrow> gval \<Rightarrow> bool" where
  "fresh_copy h0 h T x y =
     (typed h T y \<and> tree h T y = tree h0 T x \<and> (\<forall>a \<in> footprint h T y. hp_next h0 \<le> a))"

lemma fresh_copy_extends: "fresh_copy h0 h T x y \<Longrightarrow> extends h h' \<Longrightarrow> fresh_copy h0 h' T x y"
  using frame_extends[of h T y h'] by (simp add: fresh_copy_def)

lemma fresh_copy_flat: "flat T \<Longrightarrow> typed h0 T x \<Longrightarrow> fresh_copy h0 h T x x"
  using typed_flat[of T h0 x h] by (simp add: fresh_copy_def flat_footprint)

fun copied :: "go_heap \<Rightarrow> go_heap \<Rightarrow> string set \<Rightarrow> gty \<Rightarrow> gval \<Rightarrow> gval \<Rightarrow> bool" where
  "copied h0 h S (TField n T R) (GField m x xs) (GField k y ys) =
     (m = n \<and> k = n \<and> (if n \<in> S then fresh_copy h0 h T x y else y = x)
      \<and> copied h0 h S R xs ys)"
| "copied h0 h S TEnd GEnd GEnd = True"
| "copied h0 h S _ _ _ = False"

fun field_type :: "string \<Rightarrow> gty \<Rightarrow> gty option" where
  "field_type n (TField m T R) = (if m = n then Some T else field_type n R)"
| "field_type n _ = None"

fun struct_type :: "gty \<Rightarrow> bool" where
  "struct_type (TField n T R) = (field_type n R = None \<and> struct_type R)"
| "struct_type T = (T = TEnd)"

text \<open>The fields outside \<open>S\<close> hold no references.\<close>

fun rest_flat :: "string set \<Rightarrow> gty \<Rightarrow> bool" where
  "rest_flat S (TField n T R) = ((n \<in> S \<or> flat T) \<and> rest_flat S R)"
| "rest_flat S _ = True"

lemma copied_start: "struct_type T \<Longrightarrow> typed h T v \<Longrightarrow> copied h h {} T v v"
  by (induction h T v rule: typed.induct) simp_all

lemma copied_extends:
  "copied h0 h S T v w \<Longrightarrow> extends h h' \<Longrightarrow> copied h0 h' S T v w"
  by (induction h0 h S T v w rule: copied.induct) (auto dest: fresh_copy_extends split: if_splits)

lemma copied_finish:
  "copied h0 h S T v w \<Longrightarrow> typed h0 T v \<Longrightarrow> rest_flat S T \<Longrightarrow> fresh_copy h0 h T v w"
proof (induction h0 h S T v w rule: copied.induct)
  case (1 h0 h S n T R m x xs k y ys)
  then have "fresh_copy h0 h T x y" "fresh_copy h0 h R xs ys"
    by (auto simp: fresh_copy_flat split: if_splits)
  then show ?case
    using 1(2) by (auto simp: fresh_copy_def)
qed (simp_all add: fresh_copy_def)

lemma get_field_typed:
  "typed h T v \<Longrightarrow> field_type n T = Some U \<Longrightarrow> \<exists>x. get_field n v = Some x \<and> typed h U x"
  by (induction h T v rule: typed.induct) (auto split: if_splits)

lemma copied_absent: "copied h0 h S T v w \<Longrightarrow> field_type n T = None \<Longrightarrow> copied h0 h (insert n S) T v w"
  by (induction h0 h S T v w rule: copied.induct) (simp_all split: if_splits)

lemma copied_set:
  "copied h0 h S T v w \<Longrightarrow> struct_type T \<Longrightarrow> field_type n T = Some U \<Longrightarrow> get_field n v = Some x \<Longrightarrow>
    fresh_copy h0 h U x y \<Longrightarrow> \<exists>w'. set_field n y w = Some w' \<and> copied h0 h (insert n S) T v w'"
proof (induction h0 h S T v w rule: copied.induct)
  case (1 h0 h S m T R m1 u us m2 w ws)
  show ?case
  proof (cases "m = n")
    case True
    then show ?thesis
      using 1 copied_absent[of h0 h S R us ws n] by simp
  next
    case False
    then obtain w' where "set_field n y ws = Some w'" "copied h0 h (insert n S) R us w'"
      using 1 by auto
    then show ?thesis
      using 1(2) False by simp
  qed
qed simp_all

definition copying :: "go_heap \<Rightarrow> string set \<Rightarrow> gty \<Rightarrow> gval \<Rightarrow> go_heap \<times> gval \<Rightarrow> bool" where
  "copying h0 S T v s = (struct_type T \<and> typed h0 T v \<and> extends h0 (fst s)
     \<and> copied h0 (fst s) S T v (snd s))"

lemma copying_start: "struct_type T \<Longrightarrow> typed h T v \<Longrightarrow> copying h {} T v (h, v)"
  by (simp add: copying_def copied_start)

lemma copying_step:
  assumes "copying h0 S T v s" "field_type n T = Some U" "copies U f"
  shows "\<exists>s'. at_field n f v s = Some s' \<and> copying h0 (insert n S) T v s'"
proof -
  note c = assms(1)[unfolded copying_def]
  obtain x where x: "get_field n v = Some x" and ty: "typed h0 U x"
    using c get_field_typed assms(2) by blast
  have s: "typed (fst s) U x" "tree (fst s) U x = tree h0 U x"
    using frame_extends[of h0 U x "fst s"] c ty by simp_all
  obtain h' y where run: "f (fst s) x = Some (h', y)" and dc: "deep_copy_of (fst s) U x h' y"
    using copiesE[OF assms(3) s(1)] .
  note d = deep_copy_ofD[OF dc]
  have le: "hp_next h0 \<le> hp_next (fst s)"
    using c extends_next by blast
  have "copied h0 h' S T v (snd s)"
    using c d(1) copied_extends by blast
  moreover have "fresh_copy h0 h' U x y"
    using d s(2) le by (auto simp: fresh_copy_def intro: le_trans)
  ultimately obtain w where "set_field n y (snd s) = Some w" "copied h0 h' (insert n S) T v w"
    using copied_set assms(2) c x by blast
  then show ?thesis
    using x run c d(1) extends_trans by (auto simp: at_field_def copying_def)
qed

lemma copying_finish:
  assumes "copying h0 S T v (h, w)" "rest_flat S T"
  shows "deep_copy_of h0 T v h w"
  using copied_finish[of h0 h S T v w] assms by (simp add: copying_def deep_copy_of_def fresh_copy_def)

text \<open>A whole body: the statements in order, each on a field of the type, the rest flat.\<close>

fun run_fields :: "(string \<times> copier) list \<Rightarrow> gval \<Rightarrow> go_heap \<times> gval \<Rightarrow> (go_heap \<times> gval) option" where
  "run_fields [] v s = Some s"
| "run_fields ((n, f) # fs) v s = do { s' \<leftarrow> at_field n f v s; run_fields fs v s' }"

lemma run_fields_copying:
  assumes "\<forall>(n, f) \<in> set fs. \<exists>U. field_type n T = Some U \<and> copies U f"
  shows "copying h0 S T v s \<Longrightarrow>
    \<exists>s'. run_fields fs v s = Some s' \<and> copying h0 (S \<union> fst ` set fs) T v s'"
  using assms
proof (induction fs arbitrary: S s)
  case (Cons nf fs)
  obtain n f where nf: "nf = (n, f)"
    by (cases nf)
  then obtain U where U: "field_type n T = Some U" "copies U f"
    using Cons.prems(2) by auto
  obtain s' where s': "at_field n f v s = Some s'" "copying h0 (insert n S) T v s'"
    using copying_step[OF Cons.prems(1) U] by blast
  then show ?case
    using Cons.IH[OF s'(2)] Cons.prems(2) nf by auto
qed simp

definition struct_copy :: "(string \<times> copier) list \<Rightarrow> copier" where
  "struct_copy fs h v = run_fields fs v (h, v)"

lemma copies_struct:
  assumes "struct_type T" "\<forall>(n, f) \<in> set fs. \<exists>U. field_type n T = Some U \<and> copies U f"
    "rest_flat (fst ` set fs) T"
  shows "copies T (struct_copy fs)"
proof (rule copiesI)
  fix h v
  assume ty: "typed h T v"
  obtain h' w where run: "struct_copy fs h v = Some (h', w)"
    and c: "copying h ({} \<union> fst ` set fs) T v (h', w)"
    using run_fields_copying[OF assms(2) copying_start[OF assms(1) ty]] unfolding struct_copy_def
    by fast
  show "\<exists>h' v'. struct_copy fs h v = Some (h', v') \<and> deep_copy_of h T v h' v'"
    using run copying_finish[OF c] assms(3) by simp
qed

subsection \<open>What the owner of a copy may rely on\<close>

text \<open>
  From a step on, memory may change except in the cells of a value: whoever holds the other
  value writes to its cells, allocates, and writes to what was allocated.
\<close>

definition writes_within :: "nat set \<Rightarrow> go_heap \<Rightarrow> go_heap \<Rightarrow> bool" where
  "writes_within A h h' = agree ({a. a < hp_next h} - A) h h'"

lemma writes_within_frame:
  assumes "typed h T v" "writes_within A h h'" "footprint h T v \<inter> A = {}"
  shows "typed h' T v \<and> tree h' T v = tree h T v"
  using frame[OF assms(1), of h'] assms footprint_bound[OF assms(1)]
  by (auto simp: writes_within_def agree_def)

locale deep_copier =
  fixes T :: gty
    and f :: copier
  assumes copies: "copies T f"
begin

lemma runs: "typed h T v \<Longrightarrow> \<exists>h' v'. f h v = Some (h', v') \<and> deep_copy_of h T v h' v'"
  using copies unfolding copies_def by blast

lemma result: "typed h T v \<Longrightarrow> f h v = Some (h', v') \<Longrightarrow> deep_copy_of h T v h' v'"
  using runs by fastforce

lemma old_values_kept:
  assumes "typed h T v" "f h v = Some (h', v')" "typed h U u"
  shows "typed h' U u \<and> tree h' U u = tree h U u \<and> footprint h' U u = footprint h U u"
  using frame_extends[OF assms(3) deep_copy_ofD(1)[OF result[OF assms(1,2)]]] by simp

lemma separate:
  assumes "typed h T v" "f h v = Some (h', v')" "typed h U u"
  shows "footprint h' U u \<inter> footprint h' T v' = {}"
  using old_values_kept[OF assms] footprint_bound[OF assms(3)] deep_copy_ofD(4)[OF result[OF assms(1,2)]]
  by fastforce

lemma old_kept_under_writes:
  assumes "typed h T v" "f h v = Some (h', v')" "typed h U u"
    "writes_within (footprint h' T v') h' h''"
  shows "typed h'' U u \<and> tree h'' U u = tree h U u"
  using writes_within_frame[OF _ assms(4), of U u] old_values_kept[OF assms(1-3)] separate[OF assms(1-3)]
  by simp

lemma copy_kept_under_writes:
  assumes "typed h T v" "f h v = Some (h', v')" "typed h U u"
    "writes_within (footprint h' U u) h' h''"
  shows "typed h'' T v' \<and> tree h'' T v' = tree h T v"
  using writes_within_frame[OF _ assms(4), of T v'] deep_copy_ofD(2,3)[OF result[OF assms(1,2)]]
    separate[OF assms(1-3)]
  by auto

end

end
