(* ===== verification/Deep_Copy.thy ===== *)
theory Deep_Copy
  imports Go_Copy
begin

text \<open>
  The copy functions \<open>zz_generated.deepcopy.go\<close> defines on the API types of
  \<open>api/v1alpha1\<close>, statement by statement on the memory of \<open>Go_Heap\<close>. \<open>DeepCopyInto\<close> is a
  list of field statements after \<open>*out = *in\<close>; \<open>DeepCopy\<close> and \<open>DeepCopyObject\<close> wrap it.
  The types of the Kubernetes and openmcp libraries with their own \<open>DeepCopyInto\<close> are
  arguments; their documented behaviour is the hypothesis \<open>library_copies\<close>.
\<close>

subsection \<open>Library types\<close>

record copy_library =
  lib_ObjectMeta :: "gty \<times> copier"
  lib_ListMeta :: "gty \<times> copier"
  lib_Condition :: "gty \<times> copier"
  lib_TypedObjectReference :: "gty \<times> copier"
  lib_Status :: "gty \<times> copier"             \<comment> \<open>\<open>commonapi.Status\<close>\<close>

definition library_copies :: "copy_library \<Rightarrow> bool" where
  "library_copies lib =
     (\<forall>(T, f) \<in> {lib_ObjectMeta lib, lib_ListMeta lib, lib_Condition lib,
                 lib_TypedObjectReference lib, lib_Status lib}. copies T f)"

text \<open>The library types the generated code assigns directly: \<open>metav1.TypeMeta\<close>,
  \<open>metav1.Duration\<close> and \<open>corev1.LocalObjectReference\<close>.\<close>

definition TypeMeta_type :: gty where
  "TypeMeta_type = struct [(''Kind'', TStr), (''APIVersion'', TStr)]"

definition Duration_type :: gty where
  "Duration_type = struct [(''Duration'', TInt)]"

definition LocalObjectReference_type :: gty where
  "LocalObjectReference_type = struct [(''Name'', TStr)]"

subsection \<open>API types\<close>

definition AvailableVeleroImages_type :: gty where
  "AvailableVeleroImages_type = struct
    [(''Name'', TStr),
     (''Versions'', TSlice TStr),
     (''Image'', TStr)]"

definition ProviderConfigSpec_type :: gty where
  "ProviderConfigSpec_type = struct
    [(''PollInterval'', TPtr Duration_type),
     (''ImagePullSecrets'', TSlice LocalObjectReference_type),
     (''AvailableImages'', TSlice AvailableVeleroImages_type)]"

definition ProviderConfigStatus_type :: "copy_library \<Rightarrow> gty" where
  "ProviderConfigStatus_type lib = struct
    [(''Conditions'', TSlice (fst (lib_Condition lib)))]"

definition ProviderConfig_type :: "copy_library \<Rightarrow> gty" where
  "ProviderConfig_type lib = struct
    [(''TypeMeta'', TypeMeta_type),
     (''ObjectMeta'', fst (lib_ObjectMeta lib)),
     (''Spec'', ProviderConfigSpec_type),
     (''Status'', ProviderConfigStatus_type lib)]"

definition ProviderConfigList_type :: "copy_library \<Rightarrow> gty" where
  "ProviderConfigList_type lib = struct
    [(''TypeMeta'', TypeMeta_type),
     (''ListMeta'', fst (lib_ListMeta lib)),
     (''Items'', TSlice (ProviderConfig_type lib))]"

definition VeleroPlugin_type :: gty where
  "VeleroPlugin_type = struct
    [(''Name'', TStr),
     (''Version'', TStr)]"

definition VeleroSpec_type :: gty where
  "VeleroSpec_type = struct
    [(''Version'', TStr),
     (''Plugins'', TSlice VeleroPlugin_type)]"

definition ManagedResource_type :: "copy_library \<Rightarrow> gty" where
  "ManagedResource_type lib = struct
    [(''TypedObjectReference'', fst (lib_TypedObjectReference lib)),
     (''Phase'', TStr),
     (''Message'', TStr),
     (''Location'', TStr)]"

definition VeleroStatus_type :: "copy_library \<Rightarrow> gty" where
  "VeleroStatus_type lib = struct
    [(''Status'', fst (lib_Status lib)),
     (''Resources'', TSlice (ManagedResource_type lib))]"

definition Velero_type :: "copy_library \<Rightarrow> gty" where
  "Velero_type lib = struct
    [(''TypeMeta'', TypeMeta_type),
     (''ObjectMeta'', fst (lib_ObjectMeta lib)),
     (''Spec'', VeleroSpec_type),
     (''Status'', VeleroStatus_type lib)]"

definition VeleroList_type :: "copy_library \<Rightarrow> gty" where
  "VeleroList_type lib = struct
    [(''TypeMeta'', TypeMeta_type),
     (''ListMeta'', fst (lib_ListMeta lib)),
     (''Items'', TSlice (Velero_type lib))]"

subsection \<open>The copy functions\<close>

definition AvailableVeleroImages_DeepCopyInto :: copier where
  "AvailableVeleroImages_DeepCopyInto = struct_copy
    [(''Versions'', copy_slice TStr)]"

definition AvailableVeleroImages_DeepCopy :: copier where
  "AvailableVeleroImages_DeepCopy = new_copy AvailableVeleroImages_type AvailableVeleroImages_DeepCopyInto"

definition ManagedResource_DeepCopyInto :: "copy_library \<Rightarrow> copier" where
  "ManagedResource_DeepCopyInto lib = struct_copy
    [(''TypedObjectReference'', snd (lib_TypedObjectReference lib))]"

definition ManagedResource_DeepCopy :: "copy_library \<Rightarrow> copier" where
  "ManagedResource_DeepCopy lib = new_copy (ManagedResource_type lib) (ManagedResource_DeepCopyInto lib)"

definition ProviderConfigSpec_DeepCopyInto :: copier where
  "ProviderConfigSpec_DeepCopyInto = struct_copy
    [(''PollInterval'', copy_pointer Duration_type),
     (''ImagePullSecrets'', copy_slice LocalObjectReference_type),
     (''AvailableImages'', copy_each AvailableVeleroImages_type AvailableVeleroImages_DeepCopyInto)]"

definition ProviderConfigSpec_DeepCopy :: copier where
  "ProviderConfigSpec_DeepCopy = new_copy ProviderConfigSpec_type ProviderConfigSpec_DeepCopyInto"

definition ProviderConfigStatus_DeepCopyInto :: "copy_library \<Rightarrow> copier" where
  "ProviderConfigStatus_DeepCopyInto lib = struct_copy
    [(''Conditions'', copy_each (fst (lib_Condition lib)) (snd (lib_Condition lib)))]"

definition ProviderConfigStatus_DeepCopy :: "copy_library \<Rightarrow> copier" where
  "ProviderConfigStatus_DeepCopy lib = new_copy (ProviderConfigStatus_type lib) (ProviderConfigStatus_DeepCopyInto lib)"

definition ProviderConfig_DeepCopyInto :: "copy_library \<Rightarrow> copier" where
  "ProviderConfig_DeepCopyInto lib = struct_copy
    [(''TypeMeta'', assign),
     (''ObjectMeta'', snd (lib_ObjectMeta lib)),
     (''Spec'', ProviderConfigSpec_DeepCopyInto),
     (''Status'', ProviderConfigStatus_DeepCopyInto lib)]"

definition ProviderConfig_DeepCopy :: "copy_library \<Rightarrow> copier" where
  "ProviderConfig_DeepCopy lib = new_copy (ProviderConfig_type lib) (ProviderConfig_DeepCopyInto lib)"

definition ProviderConfig_DeepCopyObject :: "copy_library \<Rightarrow> go_heap \<Rightarrow> gval \<Rightarrow> (go_heap \<times> go_iface) option" where
  "ProviderConfig_DeepCopyObject lib = as_object ''ProviderConfig'' (ProviderConfig_DeepCopy lib)"

definition ProviderConfigList_DeepCopyInto :: "copy_library \<Rightarrow> copier" where
  "ProviderConfigList_DeepCopyInto lib = struct_copy
    [(''TypeMeta'', assign),
     (''ListMeta'', snd (lib_ListMeta lib)),
     (''Items'', copy_each (ProviderConfig_type lib) (ProviderConfig_DeepCopyInto lib))]"

definition ProviderConfigList_DeepCopy :: "copy_library \<Rightarrow> copier" where
  "ProviderConfigList_DeepCopy lib = new_copy (ProviderConfigList_type lib) (ProviderConfigList_DeepCopyInto lib)"

definition ProviderConfigList_DeepCopyObject :: "copy_library \<Rightarrow> go_heap \<Rightarrow> gval \<Rightarrow> (go_heap \<times> go_iface) option" where
  "ProviderConfigList_DeepCopyObject lib = as_object ''ProviderConfigList'' (ProviderConfigList_DeepCopy lib)"

definition VeleroPlugin_DeepCopyInto :: copier where
  "VeleroPlugin_DeepCopyInto = struct_copy
    []"

definition VeleroPlugin_DeepCopy :: copier where
  "VeleroPlugin_DeepCopy = new_copy VeleroPlugin_type VeleroPlugin_DeepCopyInto"

definition VeleroSpec_DeepCopyInto :: copier where
  "VeleroSpec_DeepCopyInto = struct_copy
    [(''Plugins'', copy_slice VeleroPlugin_type)]"

definition VeleroSpec_DeepCopy :: copier where
  "VeleroSpec_DeepCopy = new_copy VeleroSpec_type VeleroSpec_DeepCopyInto"

definition VeleroStatus_DeepCopyInto :: "copy_library \<Rightarrow> copier" where
  "VeleroStatus_DeepCopyInto lib = struct_copy
    [(''Status'', snd (lib_Status lib)),
     (''Resources'', copy_each (ManagedResource_type lib) (ManagedResource_DeepCopyInto lib))]"

definition VeleroStatus_DeepCopy :: "copy_library \<Rightarrow> copier" where
  "VeleroStatus_DeepCopy lib = new_copy (VeleroStatus_type lib) (VeleroStatus_DeepCopyInto lib)"

definition Velero_DeepCopyInto :: "copy_library \<Rightarrow> copier" where
  "Velero_DeepCopyInto lib = struct_copy
    [(''TypeMeta'', assign),
     (''ObjectMeta'', snd (lib_ObjectMeta lib)),
     (''Spec'', VeleroSpec_DeepCopyInto),
     (''Status'', VeleroStatus_DeepCopyInto lib)]"

definition Velero_DeepCopy :: "copy_library \<Rightarrow> copier" where
  "Velero_DeepCopy lib = new_copy (Velero_type lib) (Velero_DeepCopyInto lib)"

definition Velero_DeepCopyObject :: "copy_library \<Rightarrow> go_heap \<Rightarrow> gval \<Rightarrow> (go_heap \<times> go_iface) option" where
  "Velero_DeepCopyObject lib = as_object ''Velero'' (Velero_DeepCopy lib)"

definition VeleroList_DeepCopyInto :: "copy_library \<Rightarrow> copier" where
  "VeleroList_DeepCopyInto lib = struct_copy
    [(''TypeMeta'', assign),
     (''ListMeta'', snd (lib_ListMeta lib)),
     (''Items'', copy_each (Velero_type lib) (Velero_DeepCopyInto lib))]"

definition VeleroList_DeepCopy :: "copy_library \<Rightarrow> copier" where
  "VeleroList_DeepCopy lib = new_copy (VeleroList_type lib) (VeleroList_DeepCopyInto lib)"

definition VeleroList_DeepCopyObject :: "copy_library \<Rightarrow> go_heap \<Rightarrow> gval \<Rightarrow> (go_heap \<times> go_iface) option" where
  "VeleroList_DeepCopyObject lib = as_object ''VeleroList'' (VeleroList_DeepCopy lib)"

subsection \<open>Each of them copies its type\<close>

lemma flat_types [simp]:
  "flat TypeMeta_type" "flat Duration_type" "flat LocalObjectReference_type" "flat VeleroPlugin_type"
  by (simp_all add: TypeMeta_type_def Duration_type_def LocalObjectReference_type_def
      VeleroPlugin_type_def struct_def)

lemmas DeepCopy_defs =
  AvailableVeleroImages_DeepCopy_def
  ManagedResource_DeepCopy_def
  ProviderConfigSpec_DeepCopy_def
  ProviderConfigStatus_DeepCopy_def
  ProviderConfig_DeepCopy_def
  ProviderConfigList_DeepCopy_def
  VeleroPlugin_DeepCopy_def
  VeleroSpec_DeepCopy_def
  VeleroStatus_DeepCopy_def
  Velero_DeepCopy_def
  VeleroList_DeepCopy_def

lemma library_copiesD [copy_rules]:
  assumes "library_copies lib"
  shows "copies (fst (lib_ObjectMeta lib)) (snd (lib_ObjectMeta lib))"
    "copies (fst (lib_ListMeta lib)) (snd (lib_ListMeta lib))"
    "copies (fst (lib_Condition lib)) (snd (lib_Condition lib))"
    "copies (fst (lib_TypedObjectReference lib)) (snd (lib_TypedObjectReference lib))"
    "copies (fst (lib_Status lib)) (snd (lib_Status lib))"
  using assms by (auto simp: library_copies_def)

lemma copies_AvailableVeleroImages [copy_rules]: "copies AvailableVeleroImages_type AvailableVeleroImages_DeepCopyInto"
  unfolding AvailableVeleroImages_DeepCopyInto_def
  by (rule copies_struct)
    (simp_all add: AvailableVeleroImages_type_def struct_def copy_rules)

lemma copies_ManagedResource [copy_rules]: "library_copies lib \<Longrightarrow> copies (ManagedResource_type lib) (ManagedResource_DeepCopyInto lib)"
  unfolding ManagedResource_DeepCopyInto_def
  by (rule copies_struct)
    (simp_all add: ManagedResource_type_def struct_def copy_rules)

lemma copies_ProviderConfigSpec [copy_rules]: "copies ProviderConfigSpec_type ProviderConfigSpec_DeepCopyInto"
  unfolding ProviderConfigSpec_DeepCopyInto_def
  by (rule copies_struct)
    (simp_all add: ProviderConfigSpec_type_def struct_def copy_rules)

lemma copies_ProviderConfigStatus [copy_rules]: "library_copies lib \<Longrightarrow> copies (ProviderConfigStatus_type lib) (ProviderConfigStatus_DeepCopyInto lib)"
  unfolding ProviderConfigStatus_DeepCopyInto_def
  by (rule copies_struct)
    (simp_all add: ProviderConfigStatus_type_def struct_def copy_rules)

lemma copies_ProviderConfig [copy_rules]: "library_copies lib \<Longrightarrow> copies (ProviderConfig_type lib) (ProviderConfig_DeepCopyInto lib)"
  unfolding ProviderConfig_DeepCopyInto_def
  by (rule copies_struct)
    (simp_all add: ProviderConfig_type_def struct_def copy_rules)

lemma copies_ProviderConfigList [copy_rules]: "library_copies lib \<Longrightarrow> copies (ProviderConfigList_type lib) (ProviderConfigList_DeepCopyInto lib)"
  unfolding ProviderConfigList_DeepCopyInto_def
  by (rule copies_struct)
    (simp_all add: ProviderConfigList_type_def struct_def copy_rules)

lemma copies_VeleroPlugin [copy_rules]: "copies VeleroPlugin_type VeleroPlugin_DeepCopyInto"
  unfolding VeleroPlugin_DeepCopyInto_def
  by (rule copies_struct)
    (simp_all add: VeleroPlugin_type_def struct_def copy_rules)

lemma copies_VeleroSpec [copy_rules]: "copies VeleroSpec_type VeleroSpec_DeepCopyInto"
  unfolding VeleroSpec_DeepCopyInto_def
  by (rule copies_struct)
    (simp_all add: VeleroSpec_type_def struct_def copy_rules)

lemma copies_VeleroStatus [copy_rules]: "library_copies lib \<Longrightarrow> copies (VeleroStatus_type lib) (VeleroStatus_DeepCopyInto lib)"
  unfolding VeleroStatus_DeepCopyInto_def
  by (rule copies_struct)
    (simp_all add: VeleroStatus_type_def struct_def copy_rules)

lemma copies_Velero [copy_rules]: "library_copies lib \<Longrightarrow> copies (Velero_type lib) (Velero_DeepCopyInto lib)"
  unfolding Velero_DeepCopyInto_def
  by (rule copies_struct)
    (simp_all add: Velero_type_def struct_def copy_rules)

lemma copies_VeleroList [copy_rules]: "library_copies lib \<Longrightarrow> copies (VeleroList_type lib) (VeleroList_DeepCopyInto lib)"
  unfolding VeleroList_DeepCopyInto_def
  by (rule copies_struct)
    (simp_all add: VeleroList_type_def struct_def copy_rules)

subsection \<open>All of them\<close>

text \<open>The generated \<open>DeepCopyInto\<close> and \<open>DeepCopy\<close> functions with the types of their receivers; the four
  \<open>DeepCopyObject\<close> functions are \<open>object_copiers\<close> below.\<close>

definition generated_copiers :: "copy_library \<Rightarrow> (gty \<times> copier) list" where
  "generated_copiers lib =
    [(AvailableVeleroImages_type, AvailableVeleroImages_DeepCopyInto),
     (TPtr AvailableVeleroImages_type, AvailableVeleroImages_DeepCopy),
     (ManagedResource_type lib, ManagedResource_DeepCopyInto lib),
     (TPtr (ManagedResource_type lib), ManagedResource_DeepCopy lib),
     (ProviderConfigSpec_type, ProviderConfigSpec_DeepCopyInto),
     (TPtr ProviderConfigSpec_type, ProviderConfigSpec_DeepCopy),
     (ProviderConfigStatus_type lib, ProviderConfigStatus_DeepCopyInto lib),
     (TPtr (ProviderConfigStatus_type lib), ProviderConfigStatus_DeepCopy lib),
     (ProviderConfig_type lib, ProviderConfig_DeepCopyInto lib),
     (TPtr (ProviderConfig_type lib), ProviderConfig_DeepCopy lib),
     (ProviderConfigList_type lib, ProviderConfigList_DeepCopyInto lib),
     (TPtr (ProviderConfigList_type lib), ProviderConfigList_DeepCopy lib),
     (VeleroPlugin_type, VeleroPlugin_DeepCopyInto),
     (TPtr VeleroPlugin_type, VeleroPlugin_DeepCopy),
     (VeleroSpec_type, VeleroSpec_DeepCopyInto),
     (TPtr VeleroSpec_type, VeleroSpec_DeepCopy),
     (VeleroStatus_type lib, VeleroStatus_DeepCopyInto lib),
     (TPtr (VeleroStatus_type lib), VeleroStatus_DeepCopy lib),
     (Velero_type lib, Velero_DeepCopyInto lib),
     (TPtr (Velero_type lib), Velero_DeepCopy lib),
     (VeleroList_type lib, VeleroList_DeepCopyInto lib),
     (TPtr (VeleroList_type lib), VeleroList_DeepCopy lib)]"

lemma generated_copies:
  assumes "library_copies lib" "(T, f) \<in> set (generated_copiers lib)"
  shows "copies T f"
proof -
  have "list_all (\<lambda>(T, f). copies T f) (generated_copiers lib)"
    using assms(1) by (simp add: generated_copiers_def DeepCopy_defs copy_rules)
  then show ?thesis
    using assms(2) by (auto simp: list_all_iff)
qed

lemma generated_deep_copier:
  "library_copies lib \<Longrightarrow> (T, f) \<in> set (generated_copiers lib) \<Longrightarrow> deep_copier T f"
  by (intro deep_copier.intro) (rule generated_copies)

text \<open>The four kinds that implement \<open>runtime.Object\<close>.\<close>

definition object_copiers ::
  "copy_library \<Rightarrow> (string \<times> gty \<times> (go_heap \<Rightarrow> gval \<Rightarrow> (go_heap \<times> go_iface) option)) list" where
  "object_copiers lib =
    [(''ProviderConfig'', ProviderConfig_type lib, ProviderConfig_DeepCopyObject lib),
     (''ProviderConfigList'', ProviderConfigList_type lib, ProviderConfigList_DeepCopyObject lib),
     (''Velero'', Velero_type lib, Velero_DeepCopyObject lib),
     (''VeleroList'', VeleroList_type lib, VeleroList_DeepCopyObject lib)]"

lemma object_copiers_shape:
  assumes "library_copies lib" "(n, T, g) \<in> set (object_copiers lib)"
  shows "\<exists>f. g = as_object n (new_copy T f) \<and> copies T f"
proof -
  note objs = ProviderConfig_DeepCopyObject_def ProviderConfigList_DeepCopyObject_def
    Velero_DeepCopyObject_def VeleroList_DeepCopyObject_def DeepCopy_defs
  have "list_all (\<lambda>(n, T, g). \<exists>f. g = as_object n (new_copy T f) \<and> copies T f) (object_copiers lib)"
    unfolding object_copiers_def objs list.pred_inject prod.case
    by (intro conjI; (rule exI, rule conjI, rule refl)?) (simp_all add: copy_rules assms(1))
  then show ?thesis
    using assms(2) by (auto simp: list_all_iff)
qed

lemma as_object_nil: "as_object n (new_copy T f) h (GPtr None) = Some (h, NilIface)"
  by (simp add: as_object_def)

lemma as_object_copy:
  assumes "copies T f" "typed h (TPtr T) (GPtr (Some a))"
  shows "\<exists>h' b. as_object n (new_copy T f) h (GPtr (Some a)) = Some (h', Iface n (GPtr (Some b)))
    \<and> hp_next h \<le> b \<and> typed h' (TPtr T) (GPtr (Some b))
    \<and> tree h' (TPtr T) (GPtr (Some b)) = tree h (TPtr T) (GPtr (Some a))"
proof -
  obtain h' q where run: "new_copy T f h (GPtr (Some a)) = Some (h', q)"
    and dc: "deep_copy_of h (TPtr T) (GPtr (Some a)) h' q"
    using copiesE[OF copies_new[OF assms(1)] assms(2)] .
  note d = deep_copy_ofD[OF dc]
  obtain b where q: "q = GPtr (Some b)"
    using run by (auto simp: Let_def bind_eq_Some_conv split: prod.splits)
  have "hp_next h \<le> b"
    using d(4)[of b] q by simp
  then show ?thesis
    using run d(2,3) q by (simp add: as_object_def)
qed

interpretation images_copy: deep_copier AvailableVeleroImages_type AvailableVeleroImages_DeepCopyInto
  by unfold_locales (rule copies_AvailableVeleroImages)

interpretation config_spec_copy: deep_copier ProviderConfigSpec_type ProviderConfigSpec_DeepCopyInto
  by unfold_locales (rule copies_ProviderConfigSpec)

interpretation plugin_copy: deep_copier VeleroPlugin_type VeleroPlugin_DeepCopyInto
  by unfold_locales (rule copies_VeleroPlugin)

interpretation spec_copy: deep_copier VeleroSpec_type VeleroSpec_DeepCopyInto
  by unfold_locales (rule copies_VeleroSpec)

interpretation spec_pointer_copy: deep_copier "TPtr VeleroSpec_type" VeleroSpec_DeepCopy
  unfolding VeleroSpec_DeepCopy_def by unfold_locales (simp add: copy_rules)

subsection \<open>Properties\<close>

text \<open>
  C13. Type soundness of every generated copy function. On a well-typed receiver it neither
  dereferences nil nor leaves a slice: it returns, its result has the type of the receiver
  and denotes the same tree (nil fields stay nil, empty ones empty, every element is there),
  and every value that existed before still has its type and its tree.
\<close>

theorem deep_copy_sound:
  assumes "library_copies lib" "(T, f) \<in> set (generated_copiers lib)" "typed h T v"
  shows "\<exists>h' v'. f h v = Some (h', v') \<and> typed h' T v' \<and> tree h' T v' = tree h T v
    \<and> (\<forall>U u. typed h U u \<longrightarrow> typed h' U u \<and> tree h' U u = tree h U u)"
proof -
  note copier = generated_deep_copier[OF assms(1,2)]
  obtain h' v' where run: "f h v = Some (h', v')" "deep_copy_of h T v h' v'"
    using deep_copier.runs[OF copier assms(3)] by auto
  then show ?thesis
    using deep_copy_ofD(2,3)[OF run(2)] deep_copier.old_values_kept[OF copier assms(3) run(1)] by blast
qed

text \<open>
  C14. A copy and what existed before it are independent. Whatever is later written to the
  cells of the copy (or to memory allocated later), every old value \<open>u\<close>, the receiver in
  particular, keeps its tree; whatever is written to the cells of an old value, the copy
  keeps the tree it was made with.
\<close>

theorem deep_copy_independent:
  assumes "library_copies lib" "(T, f) \<in> set (generated_copiers lib)" "typed h T v"
    "f h v = Some (h', v')" "typed h U u"
  shows "(writes_within (footprint h' T v') h' h'' \<longrightarrow> typed h'' U u \<and> tree h'' U u = tree h U u)
    \<and> (writes_within (footprint h' U u) h' h'' \<longrightarrow> typed h'' T v' \<and> tree h'' T v' = tree h T v)"
  using deep_copier.old_kept_under_writes[OF generated_deep_copier[OF assms(1,2)] assms(3-5)]
    deep_copier.copy_kept_under_writes[OF generated_deep_copier[OF assms(1,2)] assms(3-5)]
  by blast

text \<open>
  \<open>DeepCopyObject\<close> of the four kinds the scheme knows: nil gives the nil interface, not
  an interface that holds a nil pointer; any other receiver gives an object of its own kind
  with the same tree, at an address that did not exist before.
\<close>

theorem deep_copy_object_spec:
  assumes "library_copies lib" "(n, T, g) \<in> set (object_copiers lib)"
  shows "g h (GPtr None) = Some (h, NilIface)
    \<and> (\<forall>a. typed h (TPtr T) (GPtr (Some a)) \<longrightarrow>
         (\<exists>h' b. g h (GPtr (Some a)) = Some (h', Iface n (GPtr (Some b))) \<and> hp_next h \<le> b
            \<and> typed h' (TPtr T) (GPtr (Some b))
            \<and> tree h' (TPtr T) (GPtr (Some b)) = tree h (TPtr T) (GPtr (Some a))))"
proof -
  obtain f where "g = as_object n (new_copy T f)" "copies T f"
    using object_copiers_shape[OF assms] by blast
  then show ?thesis
    using as_object_nil as_object_copy by simp
qed

end
