(* ===== verification/Copy_Witnesses.thy ===== *)
theory Copy_Witnesses
  imports Deep_Copy
begin

text \<open>
  Concrete library types and memories for the properties of the generated copy functions.
  The library types have the references the Kubernetes types have (labels, optional strings,
  a slice of conditions) and are copied the way generated code copies them.
\<close>

definition Condition_small :: gty where
  "Condition_small = struct [(''Type'', TStr), (''Status'', TStr)]"

definition Label_small :: gty where
  "Label_small = struct [(''Key'', TStr), (''Value'', TStr)]"

definition ObjectMeta_small :: gty where
  "ObjectMeta_small = struct [(''Name'', TStr), (''Labels'', TSlice Label_small)]"

definition ListMeta_small :: gty where
  "ListMeta_small = struct [(''ResourceVersion'', TStr)]"

definition Reference_small :: gty where
  "Reference_small = struct [(''Kind'', TStr), (''Name'', TStr), (''Namespace'', TPtr TStr)]"

definition Status_small :: gty where
  "Status_small = struct
    [(''ObservedGeneration'', TInt), (''Conditions'', TSlice Condition_small), (''Phase'', TStr)]"

definition small_library :: copy_library where
  "small_library = \<lparr>
     lib_ObjectMeta = (ObjectMeta_small, struct_copy [(''Labels'', copy_slice Label_small)]),
     lib_ListMeta = (ListMeta_small, struct_copy []),
     lib_Condition = (Condition_small, struct_copy []),
     lib_TypedObjectReference = (Reference_small, struct_copy [(''Namespace'', copy_pointer TStr)]),
     lib_Status = (Status_small,
       struct_copy [(''Conditions'', copy_each Condition_small (struct_copy []))])\<rparr>"

lemma flat_small [simp]: "flat Condition_small" "flat Label_small"
  by (simp_all add: Condition_small_def Label_small_def struct_def)

lemma small_copies [copy_rules]:
  "copies Condition_small (struct_copy [])" "copies ListMeta_small (struct_copy [])"
  "copies ObjectMeta_small (struct_copy [(''Labels'', copy_slice Label_small)])"
  "copies Reference_small (struct_copy [(''Namespace'', copy_pointer TStr)])"
  "copies Status_small (struct_copy [(''Conditions'', copy_each Condition_small (struct_copy []))])"
proof -
  show c: "copies Condition_small (struct_copy [])"
    by (rule copies_struct) (simp_all add: Condition_small_def struct_def)
  show "copies ListMeta_small (struct_copy [])"
    by (rule copies_struct) (simp_all add: ListMeta_small_def struct_def)
  show "copies ObjectMeta_small (struct_copy [(''Labels'', copy_slice Label_small)])"
    by (rule copies_struct) (simp_all add: ObjectMeta_small_def struct_def copy_rules)
  show "copies Reference_small (struct_copy [(''Namespace'', copy_pointer TStr)])"
    by (rule copies_struct) (simp_all add: Reference_small_def struct_def copy_rules)
  show "copies Status_small (struct_copy [(''Conditions'', copy_each Condition_small (struct_copy []))])"
    by (rule copies_struct) (simp_all add: Status_small_def struct_def copy_rules c)
qed

lemma small_library_copies: "library_copies small_library"
  by (simp add: library_copies_def small_library_def copy_rules)

subsection \<open>A Velero resource with a plugin and a managed resource\<close>

definition fields :: "(string \<times> gval) list \<Rightarrow> gval" where
  "fields fs = foldr (\<lambda>(n, x) R. GField n x R) fs GEnd"

definition plugin_value :: "string \<Rightarrow> gval" where
  "plugin_value n = fields [(''Name'', GStr n), (''Version'', GStr ''v1'')]"

definition spec_value :: gval where
  "spec_value = fields [(''Version'', GStr ''v1.16''), (''Plugins'', GSlice (Some (1, 1, 1)))]"

definition velero_value :: gval where
  "velero_value = fields
    [(''TypeMeta'', fields [(''Kind'', GStr ''Velero''), (''APIVersion'', GStr ''v1alpha1'')]),
     (''ObjectMeta'', fields [(''Name'', GStr ''a''), (''Labels'', GSlice None)]),
     (''Spec'', spec_value),
     (''Status'', fields
       [(''Status'', fields [(''ObservedGeneration'', GInt 1), (''Conditions'', GSlice None),
                             (''Phase'', GStr ''Ready'')]),
        (''Resources'', GSlice (Some (2, 0, 1)))])]"

definition resource_value :: gval where
  "resource_value = fields
    [(''TypedObjectReference'', fields [(''Kind'', GStr ''Namespace''), (''Name'', GStr ''velero-x''),
                                        (''Namespace'', GPtr (Some 3))]),
     (''Phase'', GStr ''Ready''), (''Message'', GStr ''''), (''Location'', GStr '''')]"

definition velero_memory :: go_heap where
  "velero_memory = \<lparr>hp_cells = (\<lambda>_. [])(0 := [velero_value],
     1 := [plugin_value ''aws'', plugin_value ''csi''], 2 := [resource_value], 3 := [GStr ''ns''],
     4 := [spec_value]), hp_next = 5\<rparr>"

lemmas value_defs = velero_memory_def velero_value_def resource_value_def spec_value_def
  plugin_value_def fields_def slice_elems_def

lemma spec_typed: "typed velero_memory (TPtr VeleroSpec_type) (GPtr (Some 4))"
  by (simp add: value_defs VeleroSpec_type_def VeleroPlugin_type_def struct_def)

lemma velero_typed: "typed velero_memory (TPtr (Velero_type small_library)) (GPtr (Some 0))"
  by (simp add: value_defs Velero_type_def VeleroSpec_type_def VeleroPlugin_type_def VeleroStatus_type_def
      ManagedResource_type_def TypeMeta_type_def small_library_def ObjectMeta_small_def Status_small_def
      Reference_small_def struct_def)

lemma generated_members:
  "(TPtr (Velero_type lib), Velero_DeepCopy lib) \<in> set (generated_copiers lib)"
  "(TPtr VeleroSpec_type, VeleroSpec_DeepCopy) \<in> set (generated_copiers lib)"
  by (simp_all add: generated_copiers_def)

theorem deep_copy_sound_witness:
  "\<exists>h' q. Velero_DeepCopy small_library velero_memory (GPtr (Some 0)) = Some (h', q)
     \<and> typed h' (TPtr (Velero_type small_library)) q
     \<and> tree h' (TPtr (Velero_type small_library)) q
         = tree velero_memory (TPtr (Velero_type small_library)) (GPtr (Some 0))"
  using deep_copy_sound[OF small_library_copies generated_members(1) velero_typed] by blast

definition copied_memory :: go_heap where
  "copied_memory = \<lparr>hp_cells = (hp_cells velero_memory)(
     5 := [fields [(''Version'', GStr ''v1.16''), (''Plugins'', GSlice (Some (6, 0, 1)))]],
     6 := [plugin_value ''csi'']), hp_next = 7\<rparr>"

lemma spec_run: "VeleroSpec_DeepCopy velero_memory (GPtr (Some 4)) = Some (copied_memory, GPtr (Some 5))"
  by (simp add: VeleroSpec_DeepCopy_def VeleroSpec_DeepCopyInto_def struct_copy_def at_field_def
      go_make_def go_load_def go_store_def go_copy_def value_defs copied_memory_def fun_upd_twist)

text \<open>The plugin of the copy is renamed afterwards: the receiver still lists the old one.\<close>

theorem deep_copy_independent_witness:
  "\<exists>h''. go_store 6 0 (plugin_value ''gcp'') copied_memory = Some h''
     \<and> tree h'' (TPtr VeleroSpec_type) (GPtr (Some 4))
         = tree velero_memory (TPtr VeleroSpec_type) (GPtr (Some 4))
     \<and> tree h'' (TPtr VeleroSpec_type) (GPtr (Some 5))
         \<noteq> tree velero_memory (TPtr VeleroSpec_type) (GPtr (Some 4))"
proof -
  let ?h = "copied_memory\<lparr>hp_cells := (hp_cells copied_memory)(6 := [plugin_value ''gcp''])\<rparr>"
  have "writes_within (footprint copied_memory (TPtr VeleroSpec_type) (GPtr (Some 5))) copied_memory ?h"
    by (simp add: writes_within_def agree_def copied_memory_def value_defs VeleroSpec_type_def struct_def)
  then have "tree ?h (TPtr VeleroSpec_type) (GPtr (Some 4))
      = tree velero_memory (TPtr VeleroSpec_type) (GPtr (Some 4))"
    using deep_copy_independent[OF small_library_copies generated_members(2) spec_typed spec_run spec_typed]
    by blast
  then show ?thesis
    by (simp add: go_store_def copied_memory_def value_defs VeleroSpec_type_def VeleroPlugin_type_def
        struct_def)
qed

theorem deep_copy_object_spec_witness:
  "\<exists>h' b. Velero_DeepCopyObject small_library velero_memory (GPtr (Some 0))
     = Some (h', Iface ''Velero'' (GPtr (Some b))) \<and> 5 \<le> b"
  using deep_copy_object_spec[of small_library "''Velero''" "Velero_type small_library"
      "Velero_DeepCopyObject small_library" velero_memory] small_library_copies velero_typed
  by (force simp: object_copiers_def velero_memory_def simp del: typed.simps)

end
