(* ===== verification/Api_Registration.thy ===== *)
theory Api_Registration
  imports Deep_Copy Velero_Api
begin

text \<open>
  How the types of \<open>api/v1alpha1\<close> reach a runtime scheme: the package variables of
  \<open>groupversion_info.go\<close> and the two \<open>init\<close> functions that register kinds. The scheme and its
  builder are the library's, hence parameters. \<open>AddToScheme\<close> is a method value of the
  variable \<open>SchemeBuilder\<close> itself, so it runs what \<open>init\<close> registered later, too.
\<close>

type_synonym 's registration = "'s \<Rightarrow> error option \<times> 's"

record ('s, 'b) scheme_library =
  sl_new_builder :: "'s registration list \<Rightarrow> 'b"
  sl_register :: "'b \<Rightarrow> 's registration \<Rightarrow> 'b"
  sl_run :: "'b \<Rightarrow> 's registration"
  sl_add_to_group_version :: "string \<times> string \<Rightarrow> 's \<Rightarrow> 's"
  sl_add_known_types :: "string \<times> string \<Rightarrow> string list \<Rightarrow> 's \<Rightarrow> 's"

definition GroupVersion :: "string \<times> string" where
  "GroupVersion = (group_name, ''v1alpha1'')"

definition SchemeBuilder :: "('s, 'b) scheme_library \<Rightarrow> 'b" where
  "SchemeBuilder lib = sl_new_builder lib [\<lambda>s. (None, sl_add_to_group_version lib GroupVersion s)]"

definition init_providerconfig :: "('s, 'b) scheme_library \<Rightarrow> 'b \<Rightarrow> 'b" where
  "init_providerconfig lib b = sl_register lib b
     (\<lambda>s. (None, sl_add_known_types lib GroupVersion [''ProviderConfig'', ''ProviderConfigList''] s))"

definition init_velero :: "('s, 'b) scheme_library \<Rightarrow> 'b \<Rightarrow> 'b" where
  "init_velero lib b = sl_register lib b
     (\<lambda>s. (None, sl_add_known_types lib GroupVersion [''Velero'', ''VeleroList''] s))"

text \<open>Package variables come first, then the \<open>init\<close> functions in the order of the file names.\<close>

definition package_builder :: "('s, 'b) scheme_library \<Rightarrow> 'b" where
  "package_builder lib = init_velero lib (init_providerconfig lib (SchemeBuilder lib))"

definition AddToScheme :: "('s, 'b) scheme_library \<Rightarrow> 's registration" where
  "AddToScheme lib = sl_run lib (package_builder lib)"

text \<open>\<open>CRDs\<close> of \<open>api/crds/crds.go\<close> hands the embedded directory \<open>manifests\<close> to the library that decodes it.\<close>

definition CRDs :: "('f \<Rightarrow> string \<Rightarrow> 'd list \<times> error option) \<Rightarrow> 'f \<Rightarrow> 'd list \<times> error option" where
  "CRDs from_file_system CRDFS = from_file_system CRDFS ''manifests''"

subsection \<open>What a scheme knows afterwards\<close>

fun run_registrations :: "'s registration list \<Rightarrow> 's registration" where
  "run_registrations [] s = (None, s)"
| "run_registrations (f # fs) s = (case f s of (None, s1) \<Rightarrow> run_registrations fs s1 | (Some e, s1) \<Rightarrow> (Some e, s1))"

text \<open>
  The documented behaviour of the library: a builder stores its functions and applies them in
  order up to the first error, \<open>AddKnownTypes\<close> adds exactly the given kinds, and
  \<open>AddToGroupVersion\<close> adds kinds of its own (list and watch options), none of which is lost.
\<close>

definition scheme_laws :: "('s, 'b) scheme_library \<Rightarrow> ('b \<Rightarrow> 's registration list)
    \<Rightarrow> ('s \<Rightarrow> ((string \<times> string) \<times> string) set) \<Rightarrow> bool" where
  "scheme_laws lib functions kinds = ((\<forall>fs. functions (sl_new_builder lib fs) = fs)
     \<and> (\<forall>b f. functions (sl_register lib b f) = functions b @ [f])
     \<and> (\<forall>b. sl_run lib b = run_registrations (functions b))
     \<and> (\<forall>gv s. kinds s \<subseteq> kinds (sl_add_to_group_version lib gv s))
     \<and> (\<forall>gv ks s. kinds (sl_add_known_types lib gv ks s) = kinds s \<union> Pair gv ` set ks))"

lemma AddToScheme_run:
  assumes "scheme_laws lib functions kinds"
  shows "AddToScheme lib s = (None,
    sl_add_known_types lib GroupVersion [''Velero'', ''VeleroList'']
      (sl_add_known_types lib GroupVersion [''ProviderConfig'', ''ProviderConfigList'']
        (sl_add_to_group_version lib GroupVersion s)))"
  using assms by (simp add: scheme_laws_def AddToScheme_def package_builder_def init_velero_def
      init_providerconfig_def SchemeBuilder_def)

text \<open>
  The API package registers what it can copy. \<open>AddToScheme\<close> never fails and drops no kind
  the scheme had; beyond the library's own kinds of the group and version it adds exactly the
  kinds that implement \<open>runtime.Object\<close> here: the four with a generated \<open>DeepCopyObject\<close>.
\<close>

theorem api_types_registered:
  assumes "scheme_laws lib functions kinds" "AddToScheme lib s = (e, s')"
  shows "e = None \<and> kinds s \<subseteq> kinds s'
    \<and> kinds s' = kinds (sl_add_to_group_version lib GroupVersion s)
        \<union> Pair (''velero.services.open-control-plane.io'', ''v1alpha1'') ` fst ` set (object_copiers clib)"
proof -
  have add: "\<And>gv ks s. kinds (sl_add_known_types lib gv ks s) = kinds s \<union> Pair gv ` set ks"
    "\<And>gv s. kinds s \<subseteq> kinds (sl_add_to_group_version lib gv s)"
    using assms(1) unfolding scheme_laws_def by blast+
  have names: "fst ` set (object_copiers clib)
      = set [''ProviderConfig'', ''ProviderConfigList''] \<union> set [''Velero'', ''VeleroList'']"
    by (simp add: object_copiers_def insert_commute)
  have e: "e = None" and s': "s' = sl_add_known_types lib GroupVersion [''Velero'', ''VeleroList'']
      (sl_add_known_types lib GroupVersion [''ProviderConfig'', ''ProviderConfigList'']
        (sl_add_to_group_version lib GroupVersion s))"
    using assms(2) unfolding AddToScheme_run[OF assms(1)] by simp_all
  have "kinds s' = kinds (sl_add_to_group_version lib GroupVersion s)
      \<union> Pair GroupVersion ` set [''ProviderConfig'', ''ProviderConfigList'']
      \<union> Pair GroupVersion ` set [''Velero'', ''VeleroList'']"
    unfolding s' add(1) by (rule refl)
  then show ?thesis
    using e add(2)[of s GroupVersion] unfolding names image_Un GroupVersion_def[unfolded group_name_def]
    by (simp only: Un_assoc) blast
qed

end
