(* ===== verification/Test_Helpers.thy ===== *)
theory Test_Helpers
  imports Main_Program
begin

text \<open>
  \<open>pkg/testutils/utils.go\<close>: the helpers with which the package tests run a manager and judge
  its results. The fake client and the test cluster are parameters. \<open>require\<close> ends a test at
  once, \<open>assert\<close> notes a failure and goes on.
\<close>

subsection \<open>Fake clusters\<close>

text \<open>The errors of the registrations are dropped.\<close>

definition CreateFakeClusterFromClient :: "(string \<Rightarrow> 'c \<Rightarrow> cluster_handle) \<Rightarrow> string \<Rightarrow> 'c \<Rightarrow> cluster_handle" where
  "CreateFakeClusterFromClient test_cluster cid cl = test_cluster cid cl"

definition CreateFakeCluster :: "'s adder \<Rightarrow> 's \<Rightarrow> ('o list \<Rightarrow> 's \<Rightarrow> 'c) \<Rightarrow> (string \<Rightarrow> 'c \<Rightarrow> cluster_handle)
    \<Rightarrow> string \<Rightarrow> 'o list \<Rightarrow> cluster_handle" where
  "CreateFakeCluster add new build test_cluster cid clusterObjects =
     (let (_, sc1) = add ClientGo new;
          (_, sc2) = add ApiExtensions sc1;
          (_, sc3) = add VeleroTypes sc2;
          (_, sc4) = add ClusterTypes sc3
      in test_cluster cid (build clusterObjects sc4))"

subsection \<open>Judging results\<close>

fun assert_errors :: "string list \<Rightarrow> 'w st \<Rightarrow> 'w result list \<Rightarrow> bool \<Rightarrow> nat \<Rightarrow> bool \<times> nat" where
  "assert_errors wantErrors s [] ok errcount = (ok, errcount)"
| "assert_errors wantErrors s (r # results) ok errcount =
     (if res_error r \<noteq> None then
        assert_errors wantErrors s results
          (ok \<and> get_name (GetObject (res_object r) s) \<in> set wantErrors) (errcount + 1)
      else assert_errors wantErrors s results ok errcount)"

definition assertResult :: "'w result list \<Rightarrow> nat \<Rightarrow> string list \<Rightarrow> 'w st \<Rightarrow> bool" where
  "assertResult results expectedManagedObjects wantErrors s =
     (let (ok, errcount) = assert_errors wantErrors s results (length results = expectedManagedObjects) 0
      in ok \<and> length wantErrors = errcount)"

text \<open>The end of a helper call: the test was stopped, or it goes on, green or not, with the results.\<close>

datatype 'w exec_outcome = Stopped | Judged bool "'w result list"

definition exec_manager :: "'w managed_cluster list \<Rightarrow> 'w manager" where
  "exec_manager clusters = fold AddCluster clusters (NewManager ''instance-id'')"

definition ExecApply :: "'w ext \<Rightarrow> 'w managed_cluster list \<Rightarrow> nat \<Rightarrow> string list \<Rightarrow> 'w st
    \<Rightarrow> ('w exec_outcome \<times> 'w st) option" where
  "ExecApply x clusters expectedManagedObjects wantErrors s = do {
     ((results, err), s1) \<leftarrow> Apply x (exec_manager clusters) s;
     Some (if err \<noteq> None then Stopped
           else Judged (assertResult results expectedManagedObjects wantErrors s1) results, s1) }"

definition ExecDelete :: "'w ext \<Rightarrow> 'w managed_cluster list \<Rightarrow> nat \<Rightarrow> string list \<Rightarrow> 'w st
    \<Rightarrow> ('w exec_outcome \<times> 'w st) option" where
  "ExecDelete x clusters expectedManagedObjects wantErrors s = do {
     ((results, err), s1) \<leftarrow> DeleteAll x (exec_manager clusters) s;
     Some (if err \<noteq> None then Stopped
           else Judged (assertResult results expectedManagedObjects wantErrors s1) results, s1) }"

lemma assert_errors_eq:
  "assert_errors want s rs ok n =
     (ok \<and> (\<forall>r \<in> set rs. res_error r \<noteq> None \<longrightarrow> get_name (GetObject (res_object r) s) \<in> set want),
      n + length [r \<leftarrow> rs. res_error r \<noteq> None])"
  by (induction rs arbitrary: ok n) auto

lemma assertResult_iff:
  "assertResult rs k want s \<longleftrightarrow> length rs = k
     \<and> (\<forall>r \<in> set rs. res_error r \<noteq> None \<longrightarrow> get_name (GetObject (res_object r) s) \<in> set want)
     \<and> length [r \<leftarrow> rs. res_error r \<noteq> None] = length want"
  by (auto simp: assertResult_def assert_errors_eq)

subsection \<open>The test manager\<close>

lemma fold_AddCluster:
  "fold AddCluster mcs m = m\<lparr>mgr_clusters := mgr_clusters m @ mcs\<rparr>"
  by (induction mcs arbitrary: m) (simp_all add: AddCluster_def)

lemma exec_manager_simps [simp]:
  "mgr_clusters (exec_manager mcs) = mcs" "mgr_cleaners (exec_manager mcs) = []"
  by (simp_all add: exec_manager_def fold_AddCluster NewManager_def)

text \<open>Every object of every cluster is reported once, in order, in a deletion too.\<close>

lemma reconcileObject_reports:
  "reconcileObject x iid mc mo D del s = Some (r, s') \<Longrightarrow> res_object r = mo \<and> res_cluster r = mc"
  by (auto simp: reconcileObject_def Let_def split: if_splits option.splits prod.splits)

lemma run_targets_reports:
  "run_targets x iid D del ts s = Some (rs, s') \<Longrightarrow> map (\<lambda>r. (res_cluster r, res_object r)) rs = ts"
proof (induction ts arbitrary: s rs)
  case (Cons t ts)
  then show ?case by (cases t) (auto dest: reconcileObject_reports)
qed simp

lemma exec_pass:
  assumes "reconcileObjects x (exec_manager mcs) del s = Some ((rs, e), s')"
  shows "e = None \<and> map (\<lambda>r. (res_cluster r, res_object r)) rs = targets (exec_manager mcs)"
  using assms by (auto simp: reconcileObjects_targets dest: run_targets_reports)

text \<open>
  C40. What a green helper call has established. Neither helper is ever stopped by an error of
  the manager. If the call is green, the expected number is the number of managed objects of
  the given clusters, every one of them is reported, in order, objects whose name is not
  among the wanted errors have none, and exactly as many failed as errors were wanted; with
  no wanted error, all succeeded. It has not established that every wanted error occurred:
  two failures under one wanted name pass for one failure under each of two.
\<close>

theorem green_helpers:
  assumes "ExecApply x clusters k want s = Some (out, s') \<or> ExecDelete x clusters k want s = Some (out, s')"
  shows "\<exists>ok rs. out = Judged ok rs
    \<and> map (\<lambda>r. (res_cluster r, res_object r)) rs = concat (map (\<lambda>mc. map (Pair mc) (GetObjects mc)) clusters)
    \<and> (ok \<longrightarrow> k = length rs
        \<and> (\<forall>r \<in> set rs. get_name (GetObject (res_object r) s') \<notin> set want \<longrightarrow> res_error r = None)
        \<and> length [r \<leftarrow> rs. res_error r \<noteq> None] = length want
        \<and> (want = [] \<longrightarrow> (\<forall>r \<in> set rs. res_error r = None)))
    \<and> (\<forall>r b. res_error r \<noteq> None \<longrightarrow> assertResult [r, r] 2 [get_name (GetObject (res_object r) s'), b] s')"
proof -
  obtain rs e del where run: "reconcileObjects x (exec_manager clusters) del s = Some ((rs, e), s')"
    and out: "out = (if e \<noteq> None then Stopped else Judged (assertResult rs k want s') rs)"
    using assms by (auto simp: ExecApply_def ExecDelete_def Apply_def DeleteAll_def)
  note p = exec_pass[OF run]
  have "targets (exec_manager clusters) = concat (map (\<lambda>mc. map (Pair mc) (GetObjects mc)) clusters)"
    by (simp add: targets_def)
  then show ?thesis
    using p out by (auto simp: assertResult_iff filter_empty_conv)
qed

end
