(* ===== verification/Package_Witnesses.thy ===== *)
theory Package_Witnesses
  imports Api_Registration Test_Helpers Witnesses
begin

text \<open>
  The registration of the API types in a scheme that is a list of kinds, and the test helpers
  on one cluster of the reference server.
\<close>

type_synonym kind_scheme = "((string \<times> string) \<times> string) list"

definition list_library :: "(kind_scheme, kind_scheme registration list) scheme_library" where
  "list_library = \<lparr>sl_new_builder = (\<lambda>fs. fs), sl_register = (\<lambda>b f. b @ [f]), sl_run = run_registrations,
     sl_add_to_group_version = (\<lambda>gv s. s @ [(gv, ''WatchEvent'')]),
     sl_add_known_types = (\<lambda>gv ks s. s @ map (Pair gv) ks)\<rparr>"

lemma list_laws: "scheme_laws list_library (\<lambda>fs. fs) set"
  by (auto simp: scheme_laws_def list_library_def)

theorem api_types_registered_witness:
  "\<exists>s'. AddToScheme list_library [] = (None, s')
     \<and> ((''velero.services.open-control-plane.io'', ''v1alpha1''), ''VeleroList'') \<in> set s'"
proof -
  obtain e s' where run: "AddToScheme list_library [] = (e, s')" by force
  note r = api_types_registered[OF list_laws run]
  have "''VeleroList'' \<in> fst ` set (object_copiers clib)" for clib
    by (simp add: object_copiers_def)
  then have "((''velero.services.open-control-plane.io'', ''v1alpha1''), ''VeleroList'') \<in> set s'"
    using r by blast
  with r run show ?thesis by blast
qed

text \<open>A cluster that manages a namespace which does not exist: its deletion is a success.\<close>

definition one_object :: "ref_world managed_object" where
  "one_object = \<lparr>mo_ref = 0, mo_reconcile = None, mo_status = None, mo_deps = [], mo_policy = Delete\<rparr>"

definition one_cluster :: "ref_world managed_cluster" where
  "one_cluster = AddObject one_object (NewManagedCluster ref_workload None ''team'' WorkloadCluster)"

lemma one_deleted:
  "\<exists>s'. reconcileObject ref_ext iid one_cluster one_object Map.empty True ref_start
     = Some (\<lparr>res_object = one_object, res_cluster = one_cluster, res_op = OpDeleted, res_error = None\<rparr>, s')"
  by (simp add: reconcileObject_def checkForDependents_def one_object_def GetDeletionPolicy_def k_delete_def
      ref_ext_def ref_lookup_def ref_start_def ref_not_found_def)

lemma one_objects: "GetObjects one_cluster = [one_object]"
  by (simp add: one_cluster_def GetObjects_def)

lemma one_dependents: "getDependents (exec_manager [one_cluster]) = Map.empty"
  by (simp add: getDependents_def one_objects) (simp add: one_object_def GetDependencies_def)

theorem green_helpers_witness:
  "\<exists>rs s'. ExecDelete ref_ext [one_cluster] 1 [] ref_start = Some (Judged True rs, s')
     \<and> length rs = 1 \<and> (\<forall>r \<in> set rs. res_error r = None)"
proof -
  obtain s' where "reconcileObject ref_ext (mgr_instance_id (exec_manager [one_cluster])) one_cluster one_object
      Map.empty True ref_start
    = Some (\<lparr>res_object = one_object, res_cluster = one_cluster, res_op = OpDeleted, res_error = None\<rparr>, s')"
    using one_deleted by blast
  then have "\<exists>rs s'. ExecDelete ref_ext [one_cluster] 1 [] ref_start = Some (Judged True rs, s')"
    by (simp add: ExecDelete_def DeleteAll_def reconcileObjects_def one_dependents one_objects assertResult_iff)
  then show ?thesis using green_helpers by fastforce
qed

end
