(* ===== verification/Spec2Isabelle.thy ===== *)
theory Spec2Isabelle
  imports Program_Witnesses Refinement_Witnesses Lifecycle_Witnesses Copy_Witnesses Package_Witnesses
begin

text \<open>
  The service provider for Velero, a Kubernetes controller written in Go, as definitions that
  follow its source, and the properties that make it correct.

  THE PROGRAM. A user creates a \<open>Velero\<close> resource on the onboarding cluster. The controller
  (\<open>internal/controller/velero_controller.go\<close>) checks the requested version, gives the resource
  an instance id (\<open>pkg/instance\<close>), resolves the images its provider configuration offers, and
  builds a manager (\<open>pkg/resources\<close>) with two clusters: the managed control plane gets a
  namespace, a service account, the Velero definitions (\<open>pkg/crds\<close>), a role binding
  (\<open>pkg/authz\<close>) and a deployment scaled to zero; the workload cluster gets the token secret of the
  account (\<open>pkg/authn\<close>), the instance namespace (\<open>pkg/namespace\<close>), copies of the pull secrets
  (\<open>pkg/secret\<close>) and the Velero server (\<open>pkg/deployment\<close>), which reaches the control plane with
  the token. An update runs every object through create-or-update and then the cleaner of
  unwanted secrets; a deletion deletes the objects whose dependents are gone until all are gone.
  Both report through the status of the resource. \<open>cmd/service-provider-velero/main.go\<close>
  registers types, parses flags, asks for access and starts the controller, or, as \<open>init\<close>,
  installs the API.

  THE MODEL. Theories in the order of the components, with the Go packages they model:
  \<^item> \<open>Prelude\<close>: panics as \<open>None\<close> (the option monad), theorem collections, lists and maps.
  \<^item> \<open>Go_Errors\<close>, \<open>Go_Strings\<close>, \<open>Go_Time\<close>, \<open>Go_Float\<close>, \<open>Go_Hash\<close>: what the source uses of the Go
    standard library: errors and wrapping, string functions, instants, calendar and RFC 3339, the
    rounding of \<open>Duration.Seconds\<close> in double precision, SHA-1 and base32 on words and bits.
  \<^item> \<open>Kube_Objects\<close>, \<open>Velero_Api\<close>: Kubernetes objects as the closures read and write them; the API
    types of \<open>api/v1alpha1\<close>.
  \<^item> \<open>External\<close>: the boundary. What is not under \<open>src/\<close> is a field of the record \<open>ext\<close>, over an
    arbitrary world \<open>'w\<close>; the state \<open>st\<close> has this world, the store of client objects by address
    (Go pointers shared between manager, results and dependency map), the next free address
    and a log of the requests with their answers, which only the properties read.
  \<^item> \<open>Labels\<close> (\<open>pkg/meta\<close>), \<open>Instance_Id\<close> (\<open>pkg/instance\<close>), \<open>Managed_Objects\<close> (\<open>managedobject.go\<close> and
    \<open>managedcluster.go\<close>), \<open>Managers\<close> (\<open>manager.go\<close>), \<open>Namespaces\<close>, \<open>Service_Accounts\<close>,
    \<open>Role_Bindings\<close>, \<open>Crds\<close>, \<open>Deployments\<close>, \<open>Secrets\<close>: one theory per package, with its state,
    operations and closures. Closures are HOL functions, as they are Go functions in the source.
  \<^item> \<open>Controller\<close>: both handlers and everything they call.
  \<^item> \<open>Permissions\<close>, \<open>Main_Program\<close>, \<open>Start_Up\<close>: \<open>main.go\<close>, its rules, schemes, options and the two
    commands as sequences of steps, each answered by the environment \<open>main_ext\<close>.
  \<^item> \<open>Go_Heap\<close>, \<open>Go_Copy\<close>, \<open>Deep_Copy\<close>: \<open>zz_generated.deepcopy.go\<close>. The controller runtime hands out
    pointers into a cache it shares; what protects it are these copies. Values have references
    here, memory is a heap of arrays, a slice is an array with offset and length; each generated
    function is its list of statements.
  \<^item> \<open>Api_Registration\<close>: \<open>groupversion_info.go\<close>, the \<open>init\<close> functions of the API package and
    \<open>api/crds\<close>. \<open>Test_Helpers\<close>: \<open>pkg/testutils\<close>.

  INTERFACES. \<open>reconciler\<close>, \<open>total_reconciler\<close> and \<open>stamped_reconciler\<close> are what the manager relies
  on when it runs a closure (kind and address kept, only the declared requests; no panic;
  labels and identity kept), \<open>deep_copier\<close> what the owner of a copy relies on, \<open>status_func\<close> what the controller relies on when it reports a
  status, \<open>orphan_cleaner\<close> what the manager relies on of a cleaner, \<open>upsert_by_name\<close> what
  the mounting of the token relies on of three instances of one loop. Every package
  interprets them on its own closures.

  THE PROPERTIES, C1 onwards, stand beside the definitions they are about:
  \<^item> \<open>Managers\<close>, \<open>Deletion_Refinement\<close>: one pass of the manager, for any objects, dependencies and
    answers of the servers; deletion order, what a report of "deleted" means, convergence in as
    many passes as dependencies are deep, refinement of an abstract machine on item sets.
  \<^item> \<open>Inventory\<close>, \<open>Handlers\<close>, \<open>Permissions\<close>: exactly which objects a resource stands for, which
    requests a handler may issue, and that the rules asked for grant them all.
  \<^item> \<open>Handler_Runs\<close>, \<open>Outcomes\<close>: the handlers return, and what their results mean.
  \<^item> \<open>Deletion_Liveness\<close>, \<open>Update_Liveness\<close>: on servers that take deletions and writes at once, a
    deletion is finished in three calls, and the second of two updates meets no error and reports
    readiness exactly if what it wrote is ready.
  \<^item> \<open>Deletion_Outcome\<close>: on servers that only have to be truthful, deleting whenever they like, a
    deletion that reports its end has left nothing that was to be deleted.
  \<^item> \<open>Lifecycle\<close>: the handlers over the life of a resource. A \<open>history\<close> is any sequence of calls of
    either handler, edits with or without the labels, reconfigurations, restarts, stale reads
    and other writers: every request belongs to the id the resource had at its call, and no
    user data is lost. \<open>lifecycle\<close> adds the runtime's release rule, which is not under \<open>src/\<close>, and
    leaves labels alone: a release can be reached, and how it can leak.
  \<^item> \<open>World_Effects\<close>, \<open>Isolation\<close>: the log accounts for every change of the clusters, hence many
    resources on one workload cluster, their steps interleaved, leave each other's items alone;
    and why this rests on a label nobody checks.
  \<^item> \<open>Deep_Copy\<close>: copies are well-typed, equal and independent, for all memories. \<open>Test_Helpers\<close>:
    what a green helper call means.
  \<^item> \<open>Version_Gate\<close>, \<open>Identity_And_Copies\<close> and the package theories: the functional behaviour of the
    operations on all their branches.
  \<^item> \<open>Start_Up\<close>, \<open>Main_Program\<close>: start-up order, the outcome of \<open>init\<close>, schemes and server options.
  \<^item> \<open>Reference_Server\<close>, \<open>Witnesses\<close>, \<open>Refinement_Witnesses\<close>, \<open>Lifecycle_Witnesses\<close>,
    \<open>Program_Witnesses\<close>, \<open>Copy_Witnesses\<close>, \<open>Package_Witnesses\<close>: each property with
    hypotheses at a concrete input, on a server that keeps a list of objects.

  HYPOTHESES on the environment are named definitions, each the documented behaviour of one call:
  \<open>sets_label\<close>, \<open>mutates_secret\<close>, \<open>gets_own_key\<close> and \<open>gets_key_asked\<close> (a read answers for the key it
  was asked for), \<open>lists_matching\<close>, \<open>keeps_labels\<close>, \<open>keeps_identity\<close>, \<open>ignores_invalid_input\<close>,
  \<open>registers\<close>, \<open>begins_own_key\<close>, \<open>library_copies\<close>, \<open>scheme_laws\<close>. With them the properties about
  requests hold whatever else the servers answer, failures included. Two safety properties
  speak of what exists on the clusters and need more: isolation \<open>local_effects\<close>, that a request
  changes no more than the namespace (or, cluster-wide, the cluster) it names, and the finished
  deletion \<open>answers_truthfully\<close>, that "not found" is true, which allows deletions that take their
  time. Idealised servers, \<open>deletes_at_once\<close>, \<open>deletes_cleanly\<close> and \<open>writes_at_once\<close>, are assumed
  only by the convergence, refinement and liveness properties, which are false on servers that
  never act, and by the label attack, which shows what can happen. \<open>replies_ready\<close>, that what is written
  is ready in the answer, is an extra premise of the last clause of \<open>update_finishes\<close> alone.

  BOUNDS. No definition has fuel. Loops over lists are structural recursion; the one loop that
  the source does not bound, the decoder loop of \<open>pkg/crds\<close>, is \<open>partial_function (option)\<close>, and
  \<open>parse_spec\<close> says when it returns. Durations and instants are unbounded integers where Go has
  64 bits: they are a wall clock, an hour, a minute and the poll interval. Seconds of a duration
  are rounded to 53 bits as Go does it, exact up to 2^52. Hash words are 32 bits wide and wrap.

  NOT MODELLED. The controller runtime around the handlers (work queue, retries, leader election; of
  the finalizer only its release, as a step of \<open>Lifecycle\<close>, where a call that panics is no step), the cluster access library, the YAML and semver parsers and the API
  servers are parameters. Logging is left out, with the FIPS check, the flag parser and the
  signal handler as parameters of \<open>main\<close>. The copy functions of library types
  (\<open>ObjectMeta\<close>, \<open>Condition\<close> and others) are parameters of \<open>Deep_Copy\<close>; the theories about the
  controller keep its objects as values and share only what the code shares by pointer, the
  client objects. JSON tags, validation markers and the embedded manifests are data for
  libraries. The calls of different resources interleave in \<open>Isolation\<close> as whole calls; the
  requests of two calls that run at the same time are not interleaved one by one.
\<close>

end
